(* ===== verification/Csel_Prelude.thy ===== *)
theory Csel_Prelude
  imports "HOL-Library.Word" "HOL-Library.State_Monad"
begin

text \<open>
  Shared vocabulary of the development: the C integer types and the C arithmetic that differs
  from HOL's, byte strings with the C library conversions the programs use (\<open>%d\<close>, \<open>%u\<close>,
  \<open>atoi\<close>), and the effect monad in which the programs that talk to an operating system are
  written.  The operating system itself is never defined: it is the parameter \<open>os\<close>.
\<close>

unbundle bit_operations_syntax

named_theorems run_simps \<open>evaluation of programs of the effect monad\<close>

section \<open>C integers\<close>

type_synonym u8 = "8 word"
type_synonym u32 = "32 word"
type_synonym u64 = "64 word"

text \<open>A C \<open>int\<close> (and \<open>s32\<close>) is an \<open>int\<close>; \<open>s32\<close> is the conversion that keeps the low 32 bits.\<close>

definition s32 :: "int \<Rightarrow> int" where
  "s32 x = signed_take_bit 31 x"

definition s32_range :: "int \<Rightarrow> bool" where
  "s32_range x \<longleftrightarrow> - 2147483648 \<le> x \<and> x \<le> 2147483647"

definition s64 :: "int \<Rightarrow> int" where
  "s64 x = signed_take_bit 63 x"

lemma s32_id [simp]: "s32_range x \<Longrightarrow> s32 x = x"
  by (simp add: s32_def s32_range_def signed_take_bit_int_eq_self)

lemma s32_in_range: "s32_range (s32 x)"
  using signed_take_bit_int_greater_eq_minus_exp [of 31 x]
    signed_take_bit_int_less_exp [of 31 x]
  by (simp add: s32_def s32_range_def)

lemma unat_u32_bound: "unat (x :: u32) < 2 ^ 32"
  by (rule order_less_le_trans [OF unsigned_less]) simp

lemma neg_le_uint [simp]: "k \<le> 0 \<Longrightarrow> k \<le> uint x" "k < 0 \<Longrightarrow> k < uint x"
  using order_trans [OF _ uint_ge_0] less_le_trans [OF _ uint_ge_0] by blast+

text \<open>C division truncates towards zero.\<close>

definition cdiv :: "int \<Rightarrow> int \<Rightarrow> int" where
  "cdiv a b = sgn a * sgn b * (\<bar>a\<bar> div \<bar>b\<bar>)"

definition cmod :: "int \<Rightarrow> int \<Rightarrow> int" where
  "cmod a b = a - cdiv a b * b"

lemma cdiv_nonneg: "0 \<le> a \<Longrightarrow> 0 < b \<Longrightarrow> cdiv a b = a div b"
  by (cases "a = 0") (auto simp: cdiv_def)

lemma cmod_nonneg: "0 \<le> a \<Longrightarrow> 0 < b \<Longrightarrow> cmod a b = a mod b"
  by (simp add: cmod_def cdiv_nonneg minus_div_mult_eq_mod)

section \<open>Error numbers\<close>

abbreviation (input) EPERM :: int where "EPERM \<equiv> 1"
abbreviation (input) EINTR :: int where "EINTR \<equiv> 4"
abbreviation (input) EIO :: int where "EIO \<equiv> 5"
abbreviation (input) EAGAIN :: int where "EAGAIN \<equiv> 11"
abbreviation (input) ENOMEM :: int where "ENOMEM \<equiv> 12"
abbreviation (input) EFAULT :: int where "EFAULT \<equiv> 14"
abbreviation (input) ENODEV :: int where "ENODEV \<equiv> 19"
abbreviation (input) EINVAL :: int where "EINVAL \<equiv> 22"
abbreviation (input) ERANGE :: int where "ERANGE \<equiv> 34"
abbreviation (input) ENOSYS :: int where "ENOSYS \<equiv> 38"
abbreviation (input) ERESTARTSYS :: int where "ERESTARTSYS \<equiv> 512"

section \<open>Byte strings\<close>

abbreviation (input) NUL :: char where "NUL \<equiv> CHR 0x00"
abbreviation (input) NL :: char where "NL \<equiv> CHR 0x0A"

text \<open>The C string that starts a byte array: everything before the first NUL.\<close>

definition c_str :: "string \<Rightarrow> string" where
  "c_str s = takeWhile (\<lambda>c. c \<noteq> NUL) s"

text \<open>Writing \<open>new\<close> over the start of an array that holds \<open>old\<close>.\<close>

definition overlay :: "string \<Rightarrow> string \<Rightarrow> string" where
  "overlay new old = new @ drop (length new) old"

text \<open>An array of exactly \<open>n\<close> bytes, whatever the environment supplied for it.\<close>

definition sized :: "nat \<Rightarrow> string \<Rightarrow> string" where
  "sized n s = take n (s @ replicate n NUL)"

lemma length_sized [simp]: "length (sized n s) = n"
  by (simp add: sized_def)

lemma sized_eq_Nil [simp]: "sized n s = [] \<longleftrightarrow> n = 0"
  by (metis length_0_conv length_sized)

lemma c_str_no_NUL [simp]: "NUL \<notin> set s \<Longrightarrow> c_str (s @ NUL # t) = s"
  unfolding c_str_def by (subst takeWhile_append2) auto

lemma c_str_stop: "c_str (s @ NUL # t) = c_str s"
  by (induction s) (simp_all add: c_str_def)

lemma c_str_prefix: "c_str (take n s) = take (length (c_str (take n s))) s"
proof -
  have "length (c_str (take n s)) \<le> length (take n s)"
    unfolding c_str_def by (rule length_takeWhile_le)
  then have "length (c_str (take n s)) \<le> n" by simp
  moreover have "c_str (take n s) = take (length (c_str (take n s))) (take n s)"
    unfolding c_str_def by (rule takeWhile_eq_take)
  ultimately show ?thesis by (simp add: min_absorb1)
qed

lemma c_str_id [simp]: "NUL \<notin> set s \<Longrightarrow> c_str s = s"
  by (auto simp: c_str_def takeWhile_eq_all_conv)

text \<open>Decimal digits, and the conversions \<open>%u\<close> and \<open>%d\<close> of \<open>printf\<close>.\<close>

definition digit_char :: "nat \<Rightarrow> char" where
  "digit_char d = char_of (48 + d)"

definition is_digit :: "char \<Rightarrow> bool" where
  "is_digit c \<longleftrightarrow> 48 \<le> (of_char c :: nat) \<and> (of_char c :: nat) \<le> 57"

definition digit_val :: "char \<Rightarrow> nat" where
  "digit_val c = of_char c - 48"

fun fmt_u :: "nat \<Rightarrow> string" where
  "fmt_u n = (if n < 10 then [digit_char n] else fmt_u (n div 10) @ [digit_char (n mod 10)])"

declare fmt_u.simps [simp del]

definition fmt_d :: "int \<Rightarrow> string" where
  "fmt_d i = (if i < 0 then CHR ''-'' # fmt_u (nat (- i)) else fmt_u (nat i))"

text \<open>The conversion \<open>%x\<close>, and padding with zeroes to a width (\<open>%08x\<close>, \<open>%02x\<close>).\<close>

definition hex_char :: "nat \<Rightarrow> char" where
  "hex_char d = (if d < 10 then char_of (48 + d) else char_of (87 + d))"

fun fmt_x :: "nat \<Rightarrow> string" where
  "fmt_x n = (if n < 16 then [hex_char n] else fmt_x (n div 16) @ [hex_char (n mod 16)])"

declare fmt_x.simps [simp del]

definition zero_pad :: "nat \<Rightarrow> string \<Rightarrow> string" where
  "zero_pad w s = replicate (w - length s) CHR ''0'' @ s"

text \<open>The \<open>strtol\<close> family in base 10: white space, one sign, then digits.\<close>

definition is_space :: "char \<Rightarrow> bool" where
  "is_space c \<longleftrightarrow> c = CHR '' '' \<or> (9 \<le> (of_char c :: nat) \<and> (of_char c :: nat) \<le> 13)"

definition digits_val :: "string \<Rightarrow> nat" where
  "digits_val s = foldl (\<lambda>a c. 10 * a + digit_val c) 0 (takeWhile is_digit s)"

definition strtol_unbounded :: "string \<Rightarrow> int" where
  "strtol_unbounded s = (case dropWhile is_space s of
       [] \<Rightarrow> 0
     | c # cs \<Rightarrow>
        if c = CHR ''-'' then - int (digits_val cs)
        else if c = CHR ''+'' then int (digits_val cs)
        else int (digits_val (c # cs)))"

text \<open>\<open>strtol\<close> saturates at the bounds of \<open>long\<close>; \<open>atoi\<close> converts its result to \<open>int\<close>.\<close>

definition strtol :: "string \<Rightarrow> int" where
  "strtol s = max (- (2 ^ 63)) (min (2 ^ 63 - 1) (strtol_unbounded s))"

definition atoi :: "string \<Rightarrow> int" where
  "atoi s = s32 (strtol s)"

subsection \<open>Facts about decimal strings\<close>

lemma of_char_digit_char [simp]: "d < 10 \<Longrightarrow> (of_char (digit_char d) :: nat) = 48 + d"
  by (simp add: digit_char_def)

lemma is_digit_digit_char [simp]: "d < 10 \<Longrightarrow> is_digit (digit_char d)"
  by (simp add: is_digit_def)

lemma digit_val_digit_char [simp]: "d < 10 \<Longrightarrow> digit_val (digit_char d) = d"
  by (simp add: digit_val_def)

lemma digit_chars [simp]:
  "digit_char 0 = CHR ''0''" "digit_char 1 = CHR ''1''" "digit_char (Suc 0) = CHR ''1''"
  "digit_char 2 = CHR ''2''" "digit_char 3 = CHR ''3''" "digit_char 4 = CHR ''4''"
  "digit_char 5 = CHR ''5''" "digit_char 6 = CHR ''6''" "digit_char 7 = CHR ''7''"
  "digit_char 8 = CHR ''8''" "digit_char 9 = CHR ''9''"
  by code_simp+

lemma fmt_u_digits: "c \<in> set (fmt_u n) \<Longrightarrow> is_digit c"
proof (induction n rule: fmt_u.induct)
  case (1 n)
  show ?case
  proof (cases "n < 10")
    case True
    with "1.prems" show ?thesis by (simp add: fmt_u.simps [of n])
  next
    case False
    with 1 show ?thesis by (auto simp: fmt_u.simps [of n])
  qed
qed

lemma fmt_u_not_Nil [simp]: "fmt_u n \<noteq> []"
  by (subst fmt_u.simps) simp

lemma foldl_fmt_u: "foldl (\<lambda>a c. 10 * a + digit_val c) 0 (fmt_u n) = n"
proof (induction n rule: fmt_u.induct)
  case (1 n)
  then show ?case by (cases "n < 10") (simp_all add: fmt_u.simps [of n])
qed

lemma digits_val_fmt_u:
  assumes "rest = [] \<or> \<not> is_digit (hd rest)"
  shows "digits_val (fmt_u n @ rest) = n"
proof -
  have "takeWhile is_digit (fmt_u n @ rest) = fmt_u n @ takeWhile is_digit rest"
    by (rule takeWhile_append2) (rule fmt_u_digits)
  also have "takeWhile is_digit rest = []"
    using assms by (cases rest) auto
  finally show ?thesis by (simp add: digits_val_def foldl_fmt_u)
qed

lemma is_digit_not_special:
  "is_digit c \<Longrightarrow> \<not> is_space c \<and> c \<noteq> CHR ''-'' \<and> c \<noteq> CHR ''+'' \<and> c \<noteq> NUL \<and> c \<noteq> NL"
  by (auto simp: is_digit_def is_space_def)

lemma fmt_u_Cons_digit: "fmt_u n = c # cs \<Longrightarrow> is_digit c"
  using fmt_u_digits [of c n] by simp

lemma strtol_fmt_u:
  assumes "rest = [] \<or> \<not> is_digit (hd rest)"
  shows "strtol_unbounded (fmt_u n @ rest) = int n"
proof -
  obtain c cs where cs: "fmt_u n = c # cs" by (cases "fmt_u n") auto
  with is_digit_not_special [OF fmt_u_Cons_digit] digits_val_fmt_u [OF assms, of n]
  show ?thesis by (simp add: strtol_unbounded_def)
qed

lemma strtol_fmt_d:
  assumes "rest = [] \<or> \<not> is_digit (hd rest)"
  shows "strtol_unbounded (fmt_d i @ rest) = i"
proof (cases "i < 0")
  case True
  then show ?thesis
    by (simp add: fmt_d_def strtol_unbounded_def is_space_def digits_val_fmt_u [OF assms])
next
  case False
  then show ?thesis by (simp add: fmt_d_def strtol_fmt_u [OF assms])
qed

text \<open>Printing with \<open>%d\<close> and reading back with \<open>atoi\<close> gives the number, whatever follows the digits.\<close>

lemma atoi_fmt_d:
  assumes "s32_range i" and "rest = [] \<or> \<not> is_digit (hd rest)"
  shows "atoi (fmt_d i @ rest) = i"
  using assms by (simp add: atoi_def strtol_def strtol_fmt_d s32_range_def)

lemma atoi_fmt_u:
  assumes "n < 2 ^ 63" and "rest = [] \<or> \<not> is_digit (hd rest)"
  shows "atoi (fmt_u n @ rest) = s32 (int n)"
proof -
  have "int n < 2 ^ 63" using assms(1) by simp
  then show ?thesis using assms(2) by (simp add: atoi_def strtol_def strtol_fmt_u)
qed

lemma fmt_u_no_NUL: "NUL \<notin> set (fmt_u n)"
  using fmt_u_digits [of NUL n] by (auto simp: is_digit_def)

lemma fmt_d_no_NUL: "NUL \<notin> set (fmt_d i)"
  using fmt_u_no_NUL by (auto simp: fmt_d_def)

lemma length_fmt_u_le:
  "n < 10 ^ Suc k \<Longrightarrow> length (fmt_u n) \<le> Suc k"
proof (induction k arbitrary: n)
  case 0
  then show ?case by (simp add: fmt_u.simps [of n])
next
  case (Suc k)
  show ?case
  proof (cases "n < 10")
    case True
    then show ?thesis by (simp add: fmt_u.simps [of n])
  next
    case False
    from Suc.prems have "n div 10 < 10 ^ Suc k" by simp
    then have "length (fmt_u (n div 10)) \<le> Suc k" by (rule Suc.IH)
    with False show ?thesis by (simp add: fmt_u.simps [of n])
  qed
qed

lemma length_fmt_d: "s32_range i \<Longrightarrow> length (fmt_d i) \<le> 11"
  using length_fmt_u_le [of "nat (- i)" 9] length_fmt_u_le [of "nat i" 9]
  by (auto simp: fmt_d_def s32_range_def nat_less_iff)

section \<open>Programs that call an operating system\<close>

text \<open>
  A call returns an \<open>int\<close> and, for the calls that fill a buffer, the bytes it stored.  The system
  is a function \<open>os\<close> from its own state and the call to the result and its new state; every
  program takes it as an argument.  A program also owns the static variables \<open>'g\<close> of its file.
\<close>

type_synonym ret = "int \<times> string"
type_synonym ('w, 'c) os = "'w \<Rightarrow> 'c \<Rightarrow> ret \<times> 'w"
type_synonym ('w, 'g, 'a) prog = "('w \<times> 'g, 'a) state"

abbreviation return :: "'a \<Rightarrow> ('s, 'a) state" where
  "return \<equiv> State_Monad.return"

definition sys :: "('w, 'c) os \<Rightarrow> 'c \<Rightarrow> ('w, 'g, ret) prog" where
  "sys os c = State (\<lambda>(w, g). case os w c of (r, w') \<Rightarrow> (r, (w', g)))"

text \<open>The same call where only the returned number is used.\<close>

definition sysi :: "('w, 'c) os \<Rightarrow> 'c \<Rightarrow> ('w, 'g, int) prog" where
  "sysi os c = State (\<lambda>(w, g). case os w c of (r, w') \<Rightarrow> (fst r, (w', g)))"

definition getg :: "('w, 'g, 'g) prog" where
  "getg = State (\<lambda>(w, g). (g, (w, g)))"

definition modg :: "('g \<Rightarrow> 'g) \<Rightarrow> ('w, 'g, unit) prog" where
  "modg f = State (\<lambda>(w, g). ((), (w, f g)))"

text \<open>A call whose answer is not looked at.\<close>

definition exec :: "('w, 'c) os \<Rightarrow> 'c \<Rightarrow> ('w, 'g, unit) prog" where
  "exec os c = do { _ \<leftarrow> sysi os c; return () }"

fun for_each :: "'a list \<Rightarrow> ('a \<Rightarrow> ('s, unit) state) \<Rightarrow> ('s, unit) state" where
  "for_each [] body = return ()"
| "for_each (x # xs) body = do { body x; for_each xs body }"

lemma for_each_append:
  "for_each (xs @ ys) body = do { for_each xs body; for_each ys body }"
  by (induction xs) simp_all

lemma run_sys [simp, run_simps]:
  "run_state (sys os c) (w, g) = (case os w c of (r, w') \<Rightarrow> (r, (w', g)))"
  by (simp add: sys_def)

lemma run_sysi [simp, run_simps]:
  "run_state (sysi os c) (w, g) = (case os w c of (r, w') \<Rightarrow> (fst r, (w', g)))"
  by (simp add: sysi_def)

lemma run_getg [simp, run_simps]: "run_state getg (w, g) = (g, (w, g))"
  by (simp add: getg_def)

lemma run_modg [simp, run_simps]: "run_state (modg f) (w, g) = ((), (w, f g))"
  by (simp add: modg_def)

text \<open>Programs that may end early: \<open>Inl status\<close> is a call of \<open>exit\<close>, after which nothing more runs.\<close>

definition bind_ok ::
    "('s, 'e + 'a) state \<Rightarrow> ('a \<Rightarrow> ('s, 'e + 'b) state) \<Rightarrow> ('s, 'e + 'b) state" where
  "bind_ok m k = do { r \<leftarrow> m; case r of Inl x \<Rightarrow> return (Inl x) | Inr a \<Rightarrow> k a }"

text \<open>
  Any behaviour of the environment is a function of the calls made so far.  \<open>recorder f\<close> is the
  system that answers with \<open>f\<close> and keeps the history; a statement about every \<open>f\<close> is a statement
  about every environment.
\<close>

type_synonym 'c history = "('c \<times> ret) list"

definition recorder :: "('c history \<Rightarrow> 'c \<Rightarrow> ret) \<Rightarrow> ('c history, 'c) os" where
  "recorder f h c = (f h c, h @ [(c, f h c)])"

lemma recorder_simp [simp, run_simps]: "recorder f h c = (f h c, h @ [(c, f h c)])"
  by (simp add: recorder_def)

subsection \<open>Postconditions of programs\<close>

text \<open>
  \<open>wp m s Q\<close>: running \<open>m\<close> from \<open>s\<close> ends with a result and a state that satisfy \<open>Q\<close> (programs are
  total functions, so this is total correctness).  The rules decompose a program call by call;
  \<open>wp_sys_any\<close> and \<open>wp_sysi_any\<close> replace the answer of the environment by an arbitrary one.
\<close>

definition wp :: "('s, 'a) state \<Rightarrow> 's \<Rightarrow> ('a \<Rightarrow> 's \<Rightarrow> bool) \<Rightarrow> bool" where
  "wp m s Q = (case run_state m s of (r, s') \<Rightarrow> Q r s')"

named_theorems wp_simps \<open>decomposition of programs under wp\<close>
named_theorems wp_intros \<open>calls to an arbitrary environment under wp\<close>

lemma wp_bind [wp_simps]: "wp (State_Monad.bind m k) s Q = wp m s (\<lambda>x s'. wp (k x) s' Q)"
  by (simp add: wp_def split: prod.splits)

lemma wp_return [wp_simps]: "wp (return x) s Q = Q x s"
  by (simp add: wp_def)

lemma wp_if [wp_simps]: "wp (if b then m else n) s Q = (if b then wp m s Q else wp n s Q)"
  by simp

lemma wp_getg [wp_simps]: "wp getg (w, g) Q = Q g (w, g)"
  by (simp add: wp_def)

lemma wp_modg [wp_simps]: "wp (modg f) (w, g) Q = Q () (w, f g)"
  by (simp add: wp_def)

lemma wp_for_each_Nil [wp_simps]: "wp (for_each [] body) s Q = Q () s"
  by (simp add: wp_return)

lemma wp_for_each_Cons [wp_simps]:
  "wp (for_each (x # xs) body) s Q = wp (body x) s (\<lambda>_ s'. wp (for_each xs body) s' Q)"
  by (simp add: wp_bind)

lemma wp_sysi: "wp (sysi os c) (w, g) Q = (case os w c of (r, w') \<Rightarrow> Q (fst r) (w', g))"
  by (simp add: wp_def split: prod.splits)

lemma wp_sys: "wp (sys os c) (w, g) Q = (case os w c of (r, w') \<Rightarrow> Q r (w', g))"
  by (simp add: wp_def split: prod.splits)

lemma wp_sysi_any [wp_intros]:
  "(\<And>a. Q (fst a) (h @ [(c, a)], g)) \<Longrightarrow> wp (sysi (recorder f) c) (h, g) Q"
  by (simp add: wp_sysi)

lemma wp_sys_any [wp_intros]:
  "(\<And>a. Q a (h @ [(c, a)], g)) \<Longrightarrow> wp (sys (recorder f) c) (h, g) Q"
  by (simp add: wp_sys)

lemma wp_exec [wp_intros]:
  "(\<And>a. Q () (h @ [(c, a)], g)) \<Longrightarrow> wp (exec (recorder f) c) (h, g) Q"
  by (simp add: exec_def wp_bind wp_return wp_sysi)

text \<open>The answer of the recorder itself, where it matters.\<close>

lemma wp_call:
  "Q (fst (e h c)) (h @ [(c, e h c)], g) \<Longrightarrow> wp (sysi (recorder e) c) (h, g) Q"
  by (simp add: wp_sysi)

lemma wp_call_bytes:
  "Q (e h c) (h @ [(c, e h c)], g) \<Longrightarrow> wp (sys (recorder e) c) (h, g) Q"
  by (simp add: wp_sys)

lemma wp_bind_ok [wp_simps]:
  "wp (bind_ok m k) s Q = wp m s (\<lambda>r s'. case r of Inl x \<Rightarrow> Q (Inl x) s' | Inr a \<Rightarrow> wp (k a) s' Q)"
  unfolding bind_ok_def wp_bind
  by (rule arg_cong [where f = "wp m s"], intro ext) (simp add: wp_return split: sum.split)

lemma wp_mono: "wp m s Q \<Longrightarrow> (\<And>r s'. Q r s' \<Longrightarrow> R r s') \<Longrightarrow> wp m s R"
  by (auto simp: wp_def split: prod.splits)

text \<open>
  \<open>keeps P m\<close>: whatever the start state, the program leaves the value of \<open>P\<close> (a view of the world
  and of the static variables) as it was.
\<close>

definition keeps :: "('s \<Rightarrow> 'p) \<Rightarrow> ('s, 'a) state \<Rightarrow> bool" where
  "keeps P m \<longleftrightarrow> (\<forall>s. wp m s (\<lambda>_ s'. P s' = P s))"

named_theorems keeps_intros \<open>programs that keep a view of the state\<close>

lemma keepsI: "(\<And>s. wp m s (\<lambda>_ s'. P s' = P s)) \<Longrightarrow> keeps P m"
  by (simp add: keeps_def)

lemma keeps_wp:
  assumes "keeps P m" and "\<And>r s'. P s' = P s \<Longrightarrow> Q r s'"
  shows "wp m s Q"
proof -
  from assms(1) have "wp m s (\<lambda>_ s'. P s' = P s)" by (simp add: keeps_def)
  then show ?thesis by (rule wp_mono) (rule assms(2))
qed

lemma keeps_return [keeps_intros]: "keeps P (return x)"
  by (simp add: keeps_def wp_return)

lemma keeps_bind [keeps_intros]: "keeps P m \<Longrightarrow> (\<And>x. keeps P (k x)) \<Longrightarrow> keeps P (m \<bind> k)"
  by (rule keepsI) (auto simp: wp_bind intro!: keeps_wp [of P])

lemma keeps_bind_ok [keeps_intros]:
  "keeps P m \<Longrightarrow> (\<And>x. keeps P (k x)) \<Longrightarrow> keeps P (bind_ok m k)"
  by (simp add: bind_ok_def keeps_bind keeps_return split: sum.split)

lemma keeps_if [keeps_intros]:
  "(b \<Longrightarrow> keeps P m) \<Longrightarrow> (\<not> b \<Longrightarrow> keeps P n) \<Longrightarrow> keeps P (if b then m else n)"
  by simp

lemma keeps_for_each [keeps_intros]: "(\<And>x. keeps P (body x)) \<Longrightarrow> keeps P (for_each xs body)"
  by (induction xs) (simp_all add: keeps_return keeps_bind)

lemma keeps_getg [keeps_intros]: "keeps P getg"
  by (rule keepsI) (simp add: wp_def getg_def split: prod.splits)

lemma keeps_modg [keeps_intros]: "(\<And>w g. P (w, f g) = P (w, g)) \<Longrightarrow> keeps P (modg f)"
  by (rule keepsI) (simp add: wp_def modg_def split: prod.splits)

lemma keeps_sysi [keeps_intros]:
  "(\<And>w g. P (snd (os w c), g) = P (w, g)) \<Longrightarrow> keeps P (sysi os c)"
  by (rule keepsI) (simp add: wp_def sysi_def split: prod.splits, metis snd_conv)

lemma keeps_sys [keeps_intros]:
  "(\<And>w g. P (snd (os w c), g) = P (w, g)) \<Longrightarrow> keeps P (sys os c)"
  by (rule keepsI) (simp add: wp_def sys_def split: prod.splits, metis snd_conv)

lemma keeps_exec [keeps_intros]:
  "(\<And>w g. P (snd (os w c), g) = P (w, g)) \<Longrightarrow> keeps P (exec os c)"
  by (simp add: exec_def keeps_intros)

section \<open>Invariants of step relations\<close>

text \<open>The interface between a component and its runs: a start set, steps, and a kept invariant.\<close>

locale kept_invariant =
  fixes start :: "'s \<Rightarrow> bool"
    and step :: "'s \<Rightarrow> 's \<Rightarrow> bool"
    and inv :: "'s \<Rightarrow> bool"
  assumes start_inv: "start s \<Longrightarrow> inv s"
    and step_inv: "inv s \<Longrightarrow> step s t \<Longrightarrow> inv t"
begin

lemma steps_inv: "step\<^sup>*\<^sup>* s t \<Longrightarrow> inv s \<Longrightarrow> inv t"
  by (induction rule: rtranclp_induct) (auto intro: step_inv)

lemma reachable_inv: "start s \<Longrightarrow> step\<^sup>*\<^sup>* s t \<Longrightarrow> inv t"
  by (blast intro: steps_inv start_inv)

end

end
