(* ===== verification/Fan_Driver.thy ===== *)
theory Fan_Driver
  imports Csel_Prelude
begin

text \<open>
  The kernel module \<^verbatim>\<open>src/07_miniproj/fan_driver/skeleton.c\<close>: the device state, the timer
  callback that blinks the pin, the sysfs attributes, probe and remove, and the module as a state
  machine.  The kernel services the module calls are the fields of the record \<open>kernel\<close>, a
  parameter of every operation.
\<close>

section \<open>State\<close>

text \<open>
  \<open>struct fan_ctrl\<close>.  The spinlock, the device pointer and the thermal zone handle carry no data of
  the module.  \<open>timer\<close> is the pending expiry, the argument of the last \<open>mod_timer\<close>, and \<open>None\<close> when
  the timer is not queued.
\<close>

record fan_ctrl =
  gpio_pin :: int
  gpio_state :: int
  manual_mode :: bool
  frequency :: u32
  timer :: "u64 option"

text \<open>The struct together with the level that was last driven on its pin by \<open>gpio_set_value\<close>.\<close>

record fan_dev = fan_ctrl +
  level :: int

text \<open>
  What the kernel answers at the time of an operation: the thermal zone's return code and
  temperature in millidegrees, the tick counter, the tick conversion, and the two string parsers
  of \<open>linux/kstrtox.h\<close>, each with its return code and the parsed value.
\<close>

record kernel =
  thermal_zone_get_temp :: "int \<times> int"
  jiffies :: u64
  msecs_to_jiffies :: "u32 \<Rightarrow> u64"
  kstrtobool :: "string \<Rightarrow> int \<times> bool"
  kstrtou32 :: "string \<Rightarrow> nat \<Rightarrow> int \<times> u32"

definition gpio_set_value :: "int \<Rightarrow> fan_dev \<Rightarrow> fan_dev" where
  "gpio_set_value v fc = fc\<lparr>level := v\<rparr>"

definition mod_timer :: "u64 \<Rightarrow> fan_dev \<Rightarrow> fan_dev" where
  "mod_timer t fc = fc\<lparr>timer := Some t\<rparr>"

section \<open>Operations\<close>

definition temp_to_freq :: "int \<Rightarrow> u32" where
  "temp_to_freq temp_mc =
     (if temp_mc < 35000 then 2
      else if temp_mc > 40000 then 5
      else if temp_mc < 45000 then 10
      else 20)"

text \<open>
  \<open>1000 / (2 * freq)\<close> in 32-bit unsigned arithmetic: the product wraps, and the quotient is
  undefined when the wrapped product is zero.
\<close>

definition half_period_ms :: "u32 \<Rightarrow> u32 option" where
  "half_period_ms freq = (if 2 * freq = 0 then None else Some (1000 div (2 * freq)))"

text \<open>The timer callback; \<open>None\<close> is a division by zero.\<close>

definition fan_toggle_timer :: "kernel \<Rightarrow> fan_dev \<Rightarrow> fan_dev option" where
  "fan_toggle_timer k fc0 =
     (let manual = manual_mode fc0;
          freq0 = frequency fc0;
          (freq, fc) =
            (if \<not> manual then
               (case thermal_zone_get_temp k of (ret, temp_mc) \<Rightarrow>
                  if ret \<noteq> 0 then (freq0, fc0)
                  else (temp_to_freq temp_mc, fc0\<lparr>frequency := temp_to_freq temp_mc\<rparr>))
             else (freq0, fc0))
      in if freq = 0 then Some (gpio_set_value 0 (fc\<lparr>gpio_state := 0\<rparr>))
         else
           let fc = fc\<lparr>gpio_state := gpio_state fc XOR 1\<rparr>;
               fc = gpio_set_value (gpio_state fc) fc
           in (case half_period_ms freq of
                 None \<Rightarrow> None
               | Some ms \<Rightarrow> Some (mod_timer (jiffies k + msecs_to_jiffies k ms) fc)))"

text \<open>The sysfs attributes: \<open>show\<close> returns the text, \<open>store\<close> the return code and the new state.\<close>

definition manual_mode_show :: "fan_dev \<Rightarrow> string" where
  "manual_mode_show fc = fmt_d (if manual_mode fc then 1 else 0) @ [NL]"

definition manual_mode_store :: "kernel \<Rightarrow> string \<Rightarrow> nat \<Rightarrow> fan_dev \<Rightarrow> int \<times> fan_dev" where
  "manual_mode_store k buf count fc =
     (case kstrtobool k buf of (ret, val) \<Rightarrow>
        if ret \<noteq> 0 then (- EINVAL, fc)
        else (int count, fc\<lparr>manual_mode := val\<rparr>))"

definition frequency_show :: "fan_dev \<Rightarrow> string" where
  "frequency_show fc = fmt_u (unat (frequency fc)) @ [NL]"

definition frequency_store :: "kernel \<Rightarrow> string \<Rightarrow> nat \<Rightarrow> fan_dev \<Rightarrow> (int \<times> fan_dev) option" where
  "frequency_store k buf count fc =
     (case kstrtou32 k buf 10 of (ret, val) \<Rightarrow>
        if ret \<noteq> 0 then Some (- EINVAL, fc)
        else if \<not> manual_mode fc then Some (- EPERM, fc)
        else
          let fc = fc\<lparr>frequency := val\<rparr>
          in if frequency fc = 0 then Some (int count, gpio_set_value 0 (fc\<lparr>gpio_state := 0\<rparr>))
             else (case half_period_ms (frequency fc) of
                     None \<Rightarrow> None
                   | Some period_ms \<Rightarrow>
                       Some (int count, mod_timer (jiffies k + msecs_to_jiffies k period_ms) fc)))"

definition cpu_temp_show :: "kernel \<Rightarrow> int \<times> string" where
  "cpu_temp_show k =
     (case thermal_zone_get_temp k of (ret, temp_mc) \<Rightarrow>
        if ret \<noteq> 0 then (ret, [])
        else (int (length (fmt_d temp_mc @ [NL])), fmt_d temp_mc @ [NL]))"

section \<open>Probe and remove\<close>

text \<open>
  The calls that acquire and release resources.  Probe works on the freshly zeroed struct, which
  becomes the driver data of the device (\<open>platform_set_drvdata\<close>) only on the way to success.
\<close>

datatype kcall =
    Devm_kzalloc
  | Of_get_named_gpio string nat
  | Gpio_is_valid int
  | Gpio_request int string
  | Gpio_direction_output int int
  | Gpio_free int
  | Thermal_zone_get_zone_by_name string
  | Devm_device_add_groups
  | Timer_setup
  | Del_timer_sync
  | Gpio_set_value int int

definition zeroed_dev :: fan_dev where
  "zeroed_dev = \<lparr>gpio_pin = 0, gpio_state = 0, manual_mode = False, frequency = 0, timer = None,
     level = 0\<rparr>"

text \<open>
  \<open>Devm_kzalloc\<close> answers 0 for a null pointer, \<open>Gpio_is_valid\<close> 0 for false, and
  \<open>Thermal_zone_get_zone_by_name\<close> a negative number for an error pointer (its \<open>PTR_ERR\<close>).  The
  result is the return code with the driver data, \<open>None\<close> inside when none was installed.
  \<open>k\<close> is what the kernel answers to the first call of the timer callback.
\<close>

definition fan_ctrl_probe ::
    "('w, kcall) os \<Rightarrow> kernel \<Rightarrow> ('w, unit, int \<times> fan_dev option) prog" where
  "fan_ctrl_probe os k = do {
     p \<leftarrow> sysi os Devm_kzalloc;
     if p = 0 then return (- ENOMEM, None) else do {
     pin \<leftarrow> sysi os (Of_get_named_gpio ''fan-gpios'' 0);
     valid \<leftarrow> sysi os (Gpio_is_valid pin);
     if valid = 0 then return (- EINVAL, None) else do {
     ret \<leftarrow> sysi os (Gpio_request pin ''fan-ctrl'');
     if ret \<noteq> 0 then return (ret, None) else do {
     ret \<leftarrow> sysi os (Gpio_direction_output pin 0);
     if ret \<noteq> 0 then do { _ \<leftarrow> sysi os (Gpio_free pin); return (ret, None) } else do {
     tz \<leftarrow> sysi os (Thermal_zone_get_zone_by_name ''cpu-thermal'');
     if tz < 0 then do { _ \<leftarrow> sysi os (Gpio_free pin); return (tz, None) } else do {
     let fc = zeroed_dev\<lparr>gpio_pin := pin, manual_mode := False, frequency := 0, gpio_state := 0\<rparr>;
     ret \<leftarrow> sysi os Devm_device_add_groups;
     if ret \<noteq> 0 then do { _ \<leftarrow> sysi os (Gpio_free pin); return (ret, Some fc) } else do {
     _ \<leftarrow> sysi os Timer_setup;
     return (0, fan_toggle_timer k fc) }}}}}}}"

definition fan_ctrl_remove :: "('w, kcall) os \<Rightarrow> ('w, fan_dev, int) prog" where
  "fan_ctrl_remove os = do {
     fc \<leftarrow> getg;
     _ \<leftarrow> sysi os Del_timer_sync;
     modg (\<lambda>fc. fc\<lparr>timer := None\<rparr>);
     _ \<leftarrow> sysi os (Gpio_set_value (gpio_pin fc) 0);
     modg (gpio_set_value 0);
     _ \<leftarrow> sysi os (Gpio_free (gpio_pin fc));
     return 0 }"

section \<open>The module as a state machine\<close>

text \<open>
  \<open>fan_toggle_timer\<close> and \<open>frequency_store\<close> above are what one entry does when nothing else runs.  In the
  kernel the callback (a soft interrupt) and any number of writers (user space may open an attribute
  more than once) run side by side, and only lines 52 to 55, 69 to 71, 111 to 113 and 135 to 142 hold the
  lock.  So a step is at most one such critical section, or one access to a shared variable, to the
  pin or to the timer; the rest of an entry is the place where it stands with its local variables.  A
  timer callback never runs beside itself.  The kernel's answers and the written texts are arbitrary at
  every step.  Writes that come before the end of the probe are not covered.
\<close>

datatype callback_at =
    Cb_idle
  | Cb_start              \<comment> \<open>before the locked reads, line 52\<close>
  | Cb_temp u32           \<comment> \<open>before the temperature is read, line 61\<close>
  | Cb_follow u32         \<comment> \<open>before the locked store, line 69\<close>
  | Cb_test u32           \<comment> \<open>before line 76\<close>
  | Cb_off                \<comment> \<open>between lines 77 and 78\<close>
  | Cb_toggle u32 int     \<comment> \<open>line 83, the state is loaded and not yet stored\<close>
  | Cb_load u32           \<comment> \<open>before line 84\<close>
  | Cb_drive u32 int      \<comment> \<open>line 84, the state is loaded and the pin not yet set\<close>
  | Cb_arm u32            \<comment> \<open>before line 87\<close>

fun callback_step :: "kernel \<Rightarrow> fan_dev \<times> callback_at \<Rightarrow> (fan_dev \<times> callback_at) option" where
  "callback_step k (fc, Cb_idle) = None"
| "callback_step k (fc, Cb_start) =
     Some (fc, if manual_mode fc then Cb_test (frequency fc) else Cb_temp (frequency fc))"
| "callback_step k (fc, Cb_temp freq) =
     (case thermal_zone_get_temp k of (ret, temp_mc) \<Rightarrow>
        Some (fc, if ret \<noteq> 0 then Cb_test freq else Cb_follow (temp_to_freq temp_mc)))"
| "callback_step k (fc, Cb_follow freq) = Some (fc\<lparr>frequency := freq\<rparr>, Cb_test freq)"
| "callback_step k (fc, Cb_test freq) =
     Some (if freq = 0 then (fc\<lparr>gpio_state := 0\<rparr>, Cb_off) else (fc, Cb_toggle freq (gpio_state fc)))"
| "callback_step k (fc, Cb_off) = Some (gpio_set_value 0 fc, Cb_idle)"
| "callback_step k (fc, Cb_toggle freq v) = Some (fc\<lparr>gpio_state := v XOR 1\<rparr>, Cb_load freq)"
| "callback_step k (fc, Cb_load freq) = Some (fc, Cb_drive freq (gpio_state fc))"
| "callback_step k (fc, Cb_drive freq v) = Some (gpio_set_value v fc, Cb_arm freq)"
| "callback_step k (fc, Cb_arm freq) =
     (case half_period_ms freq of
        None \<Rightarrow> None
      | Some ms \<Rightarrow> Some (mod_timer (jiffies k + msecs_to_jiffies k ms) fc, Cb_idle))"

datatype writer_at =
    Wr_ready
  | Wr_stored             \<comment> \<open>before the frequency is read again, line 146\<close>
  | Wr_clear              \<comment> \<open>before line 147\<close>
  | Wr_off                \<comment> \<open>before line 148\<close>
  | Wr_divide             \<comment> \<open>before the frequency is read once more, line 150\<close>
  | Wr_arm u32            \<comment> \<open>before line 151\<close>

fun writer_step :: "kernel \<Rightarrow> string \<Rightarrow> fan_dev \<times> writer_at \<Rightarrow> (fan_dev \<times> writer_at) option" where
  "writer_step k buf (fc, Wr_ready) =
     (case kstrtou32 k buf 10 of (ret, val) \<Rightarrow>
        if ret \<noteq> 0 then Some (fc, Wr_ready)
        else if \<not> manual_mode fc then Some (fc, Wr_ready)
        else Some (fc\<lparr>frequency := val\<rparr>, Wr_stored))"
| "writer_step k buf (fc, Wr_stored) = Some (fc, if frequency fc = 0 then Wr_clear else Wr_divide)"
| "writer_step k buf (fc, Wr_clear) = Some (fc\<lparr>gpio_state := 0\<rparr>, Wr_off)"
| "writer_step k buf (fc, Wr_off) = Some (gpio_set_value 0 fc, Wr_ready)"
| "writer_step k buf (fc, Wr_divide) = map_option (\<lambda>period_ms. (fc, Wr_arm period_ms)) (half_period_ms (frequency fc))"
| "writer_step k buf (fc, Wr_arm period_ms) =
     Some (mod_timer (jiffies k + msecs_to_jiffies k period_ms) fc, Wr_ready)"

text \<open>The device, the place of the callback, and the places of the writers of \<open>frequency\<close>.\<close>

record fan_sys =
  fan_device :: fan_dev
  callback :: callback_at
  writers :: "writer_at list"

inductive fan_step :: "fan_sys \<Rightarrow> fan_sys \<Rightarrow> bool" where
  expire: "callback s = Cb_idle \<Longrightarrow> timer (fan_device s) = Some e \<Longrightarrow>
     fan_step s (s\<lparr>fan_device := (fan_device s)\<lparr>timer := None\<rparr>, callback := Cb_start\<rparr>)"
| toggle: "callback_step k (fan_device s, callback s) = Some (fc, c) \<Longrightarrow>
     fan_step s (s\<lparr>fan_device := fc, callback := c\<rparr>)"
| store_mode: "manual_mode_store k buf count (fan_device s) = (r, fc) \<Longrightarrow>
     fan_step s (s\<lparr>fan_device := fc\<rparr>)"
| store_frequency: "i < length (writers s) \<Longrightarrow>
     writer_step k buf (fan_device s, writers s ! i) = Some (fc, w) \<Longrightarrow>
     fan_step s (s\<lparr>fan_device := fc, writers := (writers s)[i := w]\<rparr>)"

text \<open>The states a successful probe leaves the device in.\<close>

definition probed :: "fan_dev \<Rightarrow> bool" where
  "probed fc \<longleftrightarrow> (\<exists>k pin. fan_toggle_timer k (zeroed_dev\<lparr>gpio_pin := pin\<rparr>) = Some fc)"

text \<open>After the probe nothing runs; any number of writers may come.\<close>

definition started :: "fan_sys \<Rightarrow> bool" where
  "started s \<longleftrightarrow> probed (fan_device s) \<and> callback s = Cb_idle \<and> set (writers s) \<subseteq> {Wr_ready}"

text \<open>
  What undisturbed entries keep: the stored pin state is a bit, the pin carries it, and a fan with a
  frequency has its next toggle queued.
\<close>

definition fan_inv :: "fan_dev \<Rightarrow> bool" where
  "fan_inv fc \<longleftrightarrow> (gpio_state fc = 0 \<or> gpio_state fc = 1) \<and> level fc = gpio_state fc \<and>
     (timer fc = None \<longrightarrow> frequency fc = 0)"

text \<open>
  What every interleaving keeps.  A place of the callback or of a writer from which it goes on to queue the timer:
\<close>

fun callback_arms :: "callback_at \<Rightarrow> bool" where
  "callback_arms Cb_idle = False"
| "callback_arms Cb_start = True"
| "callback_arms (Cb_temp freq) = (freq \<noteq> 0)"
| "callback_arms (Cb_follow freq) = (freq \<noteq> 0)"
| "callback_arms (Cb_test freq) = (freq \<noteq> 0)"
| "callback_arms Cb_off = False"
| "callback_arms (Cb_toggle freq v) = (freq \<noteq> 0)"
| "callback_arms (Cb_load freq) = (freq \<noteq> 0)"
| "callback_arms (Cb_drive freq v) = (freq \<noteq> 0)"
| "callback_arms (Cb_arm freq) = (freq \<noteq> 0)"

fun writer_arms :: "writer_at \<Rightarrow> bool" where
  "writer_arms Wr_ready = False"
| "writer_arms Wr_stored = True"
| "writer_arms Wr_clear = False"
| "writer_arms Wr_off = False"
| "writer_arms Wr_divide = True"
| "writer_arms (Wr_arm period_ms) = True"

text \<open>The local variables of the callback.\<close>

definition is_bit :: "int \<Rightarrow> bool" where
  "is_bit v \<longleftrightarrow> v = 0 \<or> v = 1"

fun callback_ok :: "fan_dev \<Rightarrow> callback_at \<Rightarrow> bool" where
  "callback_ok fc Cb_off = (gpio_state fc = 0)"
| "callback_ok fc (Cb_follow freq) = (freq \<noteq> 0)"
| "callback_ok fc (Cb_toggle freq v) = (freq \<noteq> 0 \<and> is_bit v)"
| "callback_ok fc (Cb_load freq) = (freq \<noteq> 0)"
| "callback_ok fc (Cb_drive freq v) = (freq \<noteq> 0 \<and> is_bit v)"
| "callback_ok fc (Cb_arm freq) = (freq \<noteq> 0)"
| "callback_ok fc _ = True"

definition fan_sys_inv :: "fan_sys \<Rightarrow> bool" where
  "fan_sys_inv s \<longleftrightarrow> (let fc = fan_device s in
     is_bit (gpio_state fc) \<and> is_bit (level fc) \<and> callback_ok fc (callback s) \<and>
     (frequency fc \<noteq> 0 \<longrightarrow> timer fc \<noteq> None \<or> callback_arms (callback s) \<or> list_ex writer_arms (writers s)) \<and>
     (callback s = Cb_idle \<and> timer fc = None \<longrightarrow> gpio_state fc = 0 \<and> level fc = 0))"

section \<open>Lemmas\<close>

named_theorems fan_defs \<open>definitions of the driver's operations\<close>

lemmas fan_op_defs [fan_defs] = fan_toggle_timer_def manual_mode_store_def frequency_store_def
  gpio_set_value_def mod_timer_def Let_def

lemma temp_to_freq_cases:
  "temp_to_freq t = (if t < 35000 then 2 else if t \<le> 40000 then 10 else 5)"
  by (simp add: temp_to_freq_def)

lemma double_wraps_to_zero:
  fixes u :: int
  assumes "0 \<le> u" and "u < 2 * m"
  shows "(2 * u) mod (2 * m) = 0 \<longleftrightarrow> u = 0 \<or> u = m"
proof
  assume "(2 * u) mod (2 * m) = 0"
  then have "m dvd u" by (auto simp: mod_eq_0_iff_dvd)
  then obtain q where q: "u = m * q" by (elim dvdE)
  from assms have "0 < m" by linarith
  with assms q have "0 \<le> q \<and> q < 2"
    by (simp add: zero_le_mult_iff mult.commute [of m])
  with q show "u = 0 \<or> u = m" by (cases "q = 0") auto
qed auto

lemma half_period_None_iff: "half_period_ms f = None \<longleftrightarrow> f = 0 \<or> f = 0x80000000"
proof -
  have "2 * f = 0 \<longleftrightarrow> (2 * uint f) mod (2 * 0x80000000) = 0"
    by (simp add: word_uint_eq_iff uint_word_ariths)
  also have "\<dots> \<longleftrightarrow> uint f = 0 \<or> uint f = 0x80000000"
    using uint_bounded [of f] by (intro double_wraps_to_zero) simp_all
  also have "\<dots> \<longleftrightarrow> f = 0 \<or> f = 0x80000000"
    by (simp add: word_uint_eq_iff)
  finally show ?thesis by (simp add: half_period_ms_def)
qed

lemma half_period_top [simp]: "half_period_ms 0x80000000 = None"
  by (simp add: half_period_ms_def)

lemma half_period_temp: "half_period_ms (temp_to_freq t) = Some (if t < 35000 then 250 else if t \<le> 40000 then 50 else 100)"
  by (simp add: temp_to_freq_cases half_period_ms_def)

lemma temp_to_freq_nonzero [simp]: "temp_to_freq t \<noteq> 0"
  by (simp add: temp_to_freq_cases)

lemma bit_toggle: "s = 0 \<or> s = 1 \<Longrightarrow> s XOR 1 = (1 - s :: int)"
  by auto

lemma toggle_bit_again: "s = 0 \<or> s = 1 \<Longrightarrow> s XOR 1 = 0 \<or> s XOR 1 = (1 :: int)"
  by auto

text \<open>Every way through the callback establishes the invariant, whatever the queue held before.\<close>

lemma fan_toggle_timer_inv:
  assumes "gpio_state fc = 0 \<or> gpio_state fc = 1" and "fan_toggle_timer k fc = Some fc'"
  shows "fan_inv fc'"
  using assms(2) toggle_bit_again [OF assms(1)]
  by (auto simp: fan_inv_def fan_defs split: if_splits prod.splits option.splits)

lemma manual_mode_store_inv:
  "fan_inv fc \<Longrightarrow> manual_mode_store k buf count fc = (r, fc') \<Longrightarrow> fan_inv fc'"
  by (auto simp: fan_inv_def manual_mode_store_def split: if_splits prod.splits)

lemma frequency_store_inv:
  "fan_inv fc \<Longrightarrow> frequency_store k buf count fc = Some (r, fc') \<Longrightarrow> fan_inv fc'"
  by (auto simp: fan_inv_def fan_defs split: if_splits prod.splits option.splits)

lemma probed_inv: "probed fc \<Longrightarrow> fan_inv fc"
  unfolding probed_def zeroed_dev_def by (auto elim: fan_toggle_timer_inv [rotated])

text \<open>Every step of an interleaving.\<close>

lemma callback_step_inv:
  assumes "fan_sys_inv s" and "callback_step k (fan_device s, callback s) = Some (fc, c)"
  shows "fan_sys_inv (s\<lparr>fan_device := fc, callback := c\<rparr>)"
  using assms
  by (cases "callback s")
    (auto simp: fan_sys_inv_def is_bit_def gpio_set_value_def mod_timer_def temp_to_freq_def Let_def
      split: if_splits prod.splits option.splits)

lemma list_ex_update: "i < length xs \<Longrightarrow> list_ex P xs \<Longrightarrow> P (xs ! i) \<and> \<not> P x \<or> list_ex P (xs[i := x])"
  by (auto simp: list_ex_length nth_list_update)

lemma writer_step_keeps:
  assumes "writer_step k buf (fc, w) = Some (fc', w')"
  shows "gpio_state fc' \<in> {gpio_state fc, 0}" and "level fc' \<in> {level fc, 0}"
    and "timer fc' = timer fc \<or> timer fc' \<noteq> None"
    and "frequency fc' \<noteq> 0 \<Longrightarrow> frequency fc \<noteq> 0 \<and> \<not> writer_arms w \<or> writer_arms w' \<or> timer fc' \<noteq> None"
  using assms
  by (cases w; force simp: gpio_set_value_def mod_timer_def split: if_splits prod.splits)+

lemma fan_sys_invD:
  assumes "fan_sys_inv s"
  shows "is_bit (gpio_state (fan_device s))" and "is_bit (level (fan_device s))"
    and "callback_ok (fan_device s) (callback s)"
    and "frequency (fan_device s) \<noteq> 0 \<Longrightarrow>
      timer (fan_device s) \<noteq> None \<or> callback_arms (callback s) \<or> list_ex writer_arms (writers s)"
    and "callback s = Cb_idle \<Longrightarrow> timer (fan_device s) = None \<Longrightarrow>
      gpio_state (fan_device s) = 0 \<and> level (fan_device s) = 0"
  using assms by (auto simp: fan_sys_inv_def Let_def)

lemma writer_step_inv:
  assumes "fan_sys_inv s" and "i < length (writers s)"
    and "writer_step k buf (fan_device s, writers s ! i) = Some (fc, w)"
  shows "fan_sys_inv (s\<lparr>fan_device := fc, writers := (writers s)[i := w]\<rparr>)"
proof -
  note keeps = writer_step_keeps [OF assms(3)] and inv = fan_sys_invD [OF assms(1)]
  have "is_bit (gpio_state fc)" "is_bit (level fc)"
    using keeps(1,2) inv(1,2) by (auto simp: is_bit_def)
  moreover have "callback_ok fc (callback s)"
    using inv(3) keeps(1) by (cases "callback s") auto
  moreover have "list_ex writer_arms ((writers s)[i := w])" if "writer_arms w"
    using that assms(2) by (auto simp: list_ex_length intro: exI [of _ i])
  then have "timer fc \<noteq> None \<or> callback_arms (callback s) \<or> list_ex writer_arms ((writers s)[i := w])"
    if "frequency fc \<noteq> 0"
    using keeps(4) [OF that] keeps(3) inv(4) list_ex_update [OF assms(2), of writer_arms w] by metis
  moreover have "gpio_state fc = 0 \<and> level fc = 0" if "callback s = Cb_idle" "timer fc = None"
    using keeps(1-3) inv(5) that by auto
  ultimately show ?thesis by (simp add: fan_sys_inv_def Let_def)
qed

lemma fan_step_inv:
  assumes "fan_sys_inv s" and "fan_step s t"
  shows "fan_sys_inv t"
  using assms(2)
proof cases
  case (store_mode k buf count r fc)
  have "callback_ok (fan_device t) (callback s) = callback_ok (fan_device s) (callback s)"
    using store_mode by (cases "callback s") (auto simp: manual_mode_store_def split: if_splits prod.splits)
  then show ?thesis
    using store_mode assms(1) by (auto simp: fan_sys_inv_def Let_def manual_mode_store_def split: if_splits prod.splits)
qed (use assms(1) in \<open>auto simp: callback_step_inv writer_step_inv\<close>, simp add: fan_sys_inv_def Let_def)

lemma toggled_off: "fan_toggle_timer k fc = Some fc' \<Longrightarrow> timer fc' = None \<Longrightarrow> gpio_state fc' = 0"
  by (auto simp: fan_defs split: if_splits prod.splits option.splits)

lemma probed_off: "probed fc \<Longrightarrow> timer fc = None \<Longrightarrow> gpio_state fc = 0"
  unfolding probed_def by (auto dest: toggled_off)

lemma started_inv: "started s \<Longrightarrow> fan_sys_inv s"
  using probed_off [of "fan_device s"]
  by (auto simp: started_def fan_sys_inv_def fan_inv_def is_bit_def Let_def dest!: probed_inv)

interpretation fan: kept_invariant started fan_step fan_sys_inv
  by unfold_locales (auto intro: started_inv fan_step_inv)


section \<open>Undisturbed entries\<close>

text \<open>An entry that nothing interrupts takes its steps one after the other; \<open>n\<close> bounds their number.\<close>

primrec callback_run :: "kernel \<Rightarrow> nat \<Rightarrow> fan_dev \<times> callback_at \<Rightarrow> fan_dev option" where
  "callback_run k 0 s = None"
| "callback_run k (Suc n) s =
     (if snd s = Cb_idle then Some (fst s) else Option.bind (callback_step k s) (callback_run k n))"

primrec writer_run :: "kernel \<Rightarrow> string \<Rightarrow> nat \<Rightarrow> fan_dev \<times> writer_at \<Rightarrow> fan_dev option" where
  "writer_run k buf 0 s = None"
| "writer_run k buf (Suc n) s = Option.bind (writer_step k buf s)
     (\<lambda>t. if snd t = Wr_ready then Some (fst t) else writer_run k buf n t)"

text \<open>The operations above are these runs.\<close>

lemma fan_toggle_timer_run: "callback_run k 9 (fc, Cb_start) = fan_toggle_timer k fc"
  by (auto simp: numeral_eq_Suc fan_defs split: prod.splits option.splits)

lemma frequency_store_run: "writer_run k buf 4 (fc, Wr_ready) = map_option snd (frequency_store k buf count fc)"
  by (auto simp: numeral_eq_Suc fan_defs split: prod.splits option.splits)

lemma callback_run_steps:
  "callback_run k n (fc, c) = Some fc' \<Longrightarrow>
    fan_step\<^sup>*\<^sup>* (s\<lparr>fan_device := fc, callback := c\<rparr>) (s\<lparr>fan_device := fc', callback := Cb_idle\<rparr>)"
proof (induction n arbitrary: fc c)
  case (Suc n)
  show ?case
  proof (cases "c = Cb_idle")
    case False
    then obtain fd d where d: "callback_step k (fc, c) = Some (fd, d)" "callback_run k n (fd, d) = Some fc'"
      using Suc.prems by (auto simp: bind_eq_Some_conv)
    then have "fan_step (s\<lparr>fan_device := fc, callback := c\<rparr>) (s\<lparr>fan_device := fd, callback := d\<rparr>)"
      using fan_step.toggle [of k "s\<lparr>fan_device := fc, callback := c\<rparr>"] by simp
    with Suc.IH [OF d(2)] show ?thesis by (rule converse_rtranclp_into_rtranclp [rotated])
  qed (use Suc.prems in simp)
qed simp

lemma writer_run_steps:
  "writer_run k buf n (fc, w) = Some fc' \<Longrightarrow> i < length (writers s) \<Longrightarrow>
    fan_step\<^sup>*\<^sup>* (s\<lparr>fan_device := fc, writers := (writers s)[i := w]\<rparr>) (s\<lparr>fan_device := fc', writers := (writers s)[i := Wr_ready]\<rparr>)"
proof (induction n arbitrary: fc w)
  case (Suc n)
  obtain fd v where v: "writer_step k buf (fc, w) = Some (fd, v)"
      "if v = Wr_ready then fc' = fd else writer_run k buf n (fd, v) = Some fc'"
    using Suc.prems(1) by (auto simp: bind_eq_Some_conv split: if_splits)
  have st: "fan_step (s\<lparr>fan_device := fc, writers := (writers s)[i := w]\<rparr>) (s\<lparr>fan_device := fd, writers := (writers s)[i := v]\<rparr>)"
    using fan_step.store_frequency [of i "s\<lparr>fan_device := fc, writers := (writers s)[i := w]\<rparr>" k buf] v(1) Suc.prems(2) by simp
  show ?case
  proof (cases "v = Wr_ready")
    case True
    with v(2) st show ?thesis by auto
  next
    case False
    with v(2) Suc.IH [of fd v] Suc.prems(2) st show ?thesis
      by (auto intro: converse_rtranclp_into_rtranclp)
  qed
qed simp

text \<open>Only a division by zero stops an entry.\<close>

lemma callback_goes_on: "callback_step k (fc, c) = None \<longleftrightarrow> c = Cb_idle \<or> (\<exists>freq. c = Cb_arm freq \<and> half_period_ms freq = None)"
  by (cases c) (auto split: prod.splits option.splits)

lemma writer_goes_on: "writer_step k buf (fc, w) = None \<longleftrightarrow> w = Wr_divide \<and> half_period_ms (frequency fc) = None"
  by (cases w) (auto split: prod.splits)

section \<open>Timer runs\<close>

text \<open>
  A run of the queued timer: the callback is entered exactly when its expiry is reached, so the
  tick counter it reads is the expiry.  \<open>k t\<close> is what the kernel answers at tick \<open>t\<close>.
\<close>

fun timer_run :: "(u64 \<Rightarrow> kernel) \<Rightarrow> nat \<Rightarrow> fan_dev \<Rightarrow> fan_dev option" where
  "timer_run k 0 fc = Some fc"
| "timer_run k (Suc n) fc =
     (case timer fc of
        None \<Rightarrow> None
      | Some e \<Rightarrow> (case fan_toggle_timer (k e) (fc\<lparr>timer := None\<rparr>) of
                    None \<Rightarrow> None
                  | Some fc' \<Rightarrow> timer_run k n fc'))"

lemma manual_toggle:
  assumes "manual_mode fc" and "frequency fc \<noteq> 0" and "half_period_ms (frequency fc) = Some ms"
  shows "fan_toggle_timer k fc =
    Some (fc\<lparr>gpio_state := gpio_state fc XOR 1, level := gpio_state fc XOR 1,
             timer := Some (jiffies k + msecs_to_jiffies k ms)\<rparr>)"
  using assms by (simp add: fan_defs)

lemma bit_parity_step: "g = 0 \<or> g = 1 \<Longrightarrow> (1 - g + int n) mod 2 = (g + int (Suc n)) mod (2 :: int)"
  by (elim disjE) (simp, presburger)

lemma manual_timer_run:
  assumes "manual_mode fc" and "half_period_ms (frequency fc) = Some ms"
    and "frequency fc \<noteq> 0" and "gpio_state fc = 0 \<or> gpio_state fc = 1"
    and "level fc = gpio_state fc" and "timer fc = Some e"
    and "\<And>t. jiffies (k t) = t" and "\<And>t. msecs_to_jiffies (k t) ms = d"
  shows "timer_run k n fc =
    Some (fc\<lparr>gpio_state := (gpio_state fc + int n) mod 2, level := (gpio_state fc + int n) mod 2,
             timer := Some (e + of_nat n * d)\<rparr>)"
  using assms
proof (induction n arbitrary: fc e)
  case 0
  then have "gpio_state fc mod 2 = gpio_state fc" by auto
  with 0 show ?case by simp
next
  case (Suc n)
  let ?fc = "fc\<lparr>gpio_state := 1 - gpio_state fc, level := 1 - gpio_state fc,
                timer := Some (e + d)\<rparr>"
  have "fan_toggle_timer (k e) (fc\<lparr>timer := None\<rparr>) = Some ?fc"
    using Suc.prems manual_toggle [of "fc\<lparr>timer := None\<rparr>" ms "k e"] by (simp add: bit_toggle)
  moreover have "timer_run k n ?fc =
      Some (?fc\<lparr>gpio_state := (gpio_state ?fc + int n) mod 2,
                level := (gpio_state ?fc + int n) mod 2, timer := Some (e + d + of_nat n * d)\<rparr>)"
    using Suc.prems by (intro Suc.IH) auto
  ultimately show ?case
    using Suc.prems bit_parity_step [of "gpio_state fc" n] by (simp add: algebra_simps)
qed

section \<open>Resources\<close>

text \<open>The GPIO lines a history of calls holds: requested with success and not freed since.\<close>

fun gpio_held :: "kcall history \<Rightarrow> int list \<Rightarrow> int list" where
  "gpio_held [] ps = ps"
| "gpio_held ((Gpio_request p _, r) # h) ps = gpio_held h (if fst r = 0 then p # ps else ps)"
| "gpio_held ((Gpio_free p, _) # h) ps = gpio_held h (remove1 p ps)"
| "gpio_held (_ # h) ps = gpio_held h ps"

lemma probe_toggle_total:
  obtains fc where "fan_toggle_timer k (zeroed_dev\<lparr>gpio_pin := pin\<rparr>) = Some fc" "gpio_pin fc = pin"
    "fan_inv fc"
proof -
  have "\<exists>fc. fan_toggle_timer k (zeroed_dev\<lparr>gpio_pin := pin\<rparr>) = Some fc \<and> gpio_pin fc = pin"
    by (cases "thermal_zone_get_temp k") (simp add: fan_defs zeroed_dev_def half_period_temp)
  then obtain fc where fc: "fan_toggle_timer k (zeroed_dev\<lparr>gpio_pin := pin\<rparr>) = Some fc"
      "gpio_pin fc = pin" by blast
  moreover have "fan_inv fc"
    using fan_toggle_timer_inv [OF _ fc(1)] by (simp add: zeroed_dev_def)
  ultimately show thesis by (rule that)
qed

text \<open>The kernel of the examples: 250 ticks per second, and parsers that accept what the daemon writes.\<close>

definition sample_kernel :: "int \<times> int \<Rightarrow> u64 \<Rightarrow> kernel" where
  "sample_kernel temp t =
     \<lparr>thermal_zone_get_temp = temp, jiffies = t,
      msecs_to_jiffies = (\<lambda>ms. ucast ms div 4),
      kstrtobool = (\<lambda>s. if c_str s = ''1'' then (0, True)
                        else if c_str s = ''0'' then (0, False) else (- EINVAL, False)),
      kstrtou32 = (\<lambda>s base. if c_str s \<noteq> [] \<and> list_all is_digit (c_str s)
                             \<and> digits_val (c_str s) < 2 ^ 32
                             then (0, of_nat (digits_val (c_str s))) else (- EINVAL, 0))\<rparr>"

section \<open>Properties\<close>

text \<open>The device after loading at 30 degrees, and after a switch to manual mode.\<close>

definition loaded_dev :: fan_dev where
  "loaded_dev = \<lparr>gpio_pin = 10, gpio_state = 1, manual_mode = False, frequency = 2,
     timer = Some 1062, level = 1\<rparr>"

lemma loaded_dev_probed: "probed loaded_dev"
  unfolding probed_def
  by (rule exI [of _ "sample_kernel (0, 30000) 1000"], rule exI [of _ 10])
    (simp add: fan_defs zeroed_dev_def loaded_dev_def sample_kernel_def temp_to_freq_cases
      half_period_ms_def)

text \<open>C3. The loaded driver in any interleaving of the timer callback with writers of its attributes.  In
  every state that can be reached, the stored pin state and the pin are bits; while the frequency is not
  zero, the next toggle is queued, or the running callback or a writer stands at a place from which it
  goes on to queue it, so that blinking never stops silently; and when no toggle is queued and no
  callback runs, the fan is off, in the device and on its pin.\<close>

theorem fan_never_stalls:
  assumes "started s" and "fan_step\<^sup>*\<^sup>* s t"
  shows "gpio_state (fan_device t) \<in> {0, 1} \<and> level (fan_device t) \<in> {0, 1} \<and>
    (frequency (fan_device t) \<noteq> 0 \<longrightarrow> (\<exists>e. timer (fan_device t) = Some e) \<or>
       callback_arms (callback t) \<or> (\<exists>w \<in> set (writers t). writer_arms w)) \<and>
    (timer (fan_device t) = None \<and> callback t = Cb_idle \<longrightarrow>
       gpio_state (fan_device t) = 0 \<and> level (fan_device t) = 0)"
  using fan_sys_invD [OF fan.reachable_inv [OF assms]] by (auto simp: is_bit_def list_ex_iff)

text \<open>The example: the driver loaded at 30 degrees with two writers, the mode switched to manual.\<close>

definition two_writers :: "fan_dev \<Rightarrow> callback_at \<Rightarrow> writer_at \<Rightarrow> writer_at \<Rightarrow> fan_sys" where
  "two_writers fc c v w = \<lparr>fan_device = fc, callback = c, writers = [v, w]\<rparr>"

definition manual_dev :: fan_dev where
  "manual_dev = \<lparr>gpio_pin = 10, gpio_state = 1, manual_mode = True, frequency = 2,
     timer = Some 1062, level = 1\<rparr>"

lemma two_writers_started: "started (two_writers loaded_dev Cb_idle Wr_ready Wr_ready)"
  by (simp add: started_def two_writers_def loaded_dev_probed)

lemma to_manual:
  "fan_step (two_writers loaded_dev Cb_idle Wr_ready Wr_ready) (two_writers manual_dev Cb_idle Wr_ready Wr_ready)"
  using fan_step.store_mode [of "sample_kernel (0, 30000) 1010" "''1''" 1
      "two_writers loaded_dev Cb_idle Wr_ready Wr_ready" 1 manual_dev]
  by (simp add: two_writers_def manual_mode_store_def sample_kernel_def loaded_dev_def manual_dev_def c_str_def)

lemma two_writers_steps:
  "timer fc = Some e \<Longrightarrow> fan_step (two_writers fc Cb_idle v w) (two_writers (fc\<lparr>timer := None\<rparr>) Cb_start v w)"
  "callback_step k (fc, c) = Some (fd, d) \<Longrightarrow> fan_step (two_writers fc c v w) (two_writers fd d v w)"
  "writer_step k buf (fc, v) = Some (fd, v') \<Longrightarrow> fan_step (two_writers fc c v w) (two_writers fd c v' w)"
  "writer_step k buf (fc, w) = Some (fd, w') \<Longrightarrow> fan_step (two_writers fc c v w) (two_writers fd c v w')"
  using fan_step.expire [of "two_writers fc Cb_idle v w"] fan_step.toggle [of k "two_writers fc c v w"]
    fan_step.store_frequency [of 0 "two_writers fc c v w" k buf] fan_step.store_frequency [of 1 "two_writers fc c v w" k buf]
  by (simp_all add: two_writers_def)

theorem fan_never_stalls_witness:
  "fan_step\<^sup>*\<^sup>* (two_writers loaded_dev Cb_idle Wr_ready Wr_ready) (two_writers (manual_dev\<lparr>timer := None\<rparr>) Cb_start Wr_ready Wr_ready) \<and>
   (callback_arms Cb_start \<or> writer_arms Wr_ready)"
proof -
  have r: "fan_step\<^sup>*\<^sup>* (two_writers loaded_dev Cb_idle Wr_ready Wr_ready)
      (two_writers (manual_dev\<lparr>timer := None\<rparr>) Cb_start Wr_ready Wr_ready)"
    by (rule rtranclp.rtrancl_into_rtrancl [OF r_into_rtranclp [of fan_step, OF to_manual] two_writers_steps(1)]) (simp add: manual_dev_def)
  from fan_never_stalls [OF two_writers_started r] r show ?thesis
    by (simp add: two_writers_def manual_dev_def)
qed

text \<open>The temperature table, for every temperature: the frequency drops from 10 to 5 above
  40 degrees, and 20 is never chosen.\<close>

theorem temp_to_freq_table:
  "temp_to_freq t = (if t < 35000 then 2 else if t \<le> 40000 then 10 else 5) \<and>
   temp_to_freq t \<noteq> 20 \<and> temp_to_freq 60000 < temp_to_freq 40000"
  by (simp add: temp_to_freq_cases)

text \<open>One expiry in automatic mode with a readable sensor: the frequency follows the table, the
  pin flips, and the next toggle is due half a period of the new frequency later.\<close>

theorem auto_expiry:
  assumes "\<not> manual_mode fc" and "thermal_zone_get_temp k = (0, temp)"
    and "gpio_state fc = 0 \<or> gpio_state fc = 1"
  shows "fan_toggle_timer k fc =
    Some (fc\<lparr>frequency := (if temp < 35000 then 2 else if temp \<le> 40000 then 10 else 5),
             gpio_state := 1 - gpio_state fc, level := 1 - gpio_state fc,
             timer := Some (jiffies k + msecs_to_jiffies k
                       (if temp < 35000 then 250 else if temp \<le> 40000 then 50 else 100))\<rparr>)"
  using assms by (simp add: fan_defs bit_toggle half_period_temp) (simp add: temp_to_freq_cases)

theorem auto_expiry_witness:
  "fan_toggle_timer (sample_kernel (0, 38000) 1062) (loaded_dev\<lparr>timer := None\<rparr>) =
     Some \<lparr>gpio_pin = 10, gpio_state = 0, manual_mode = False, frequency = 10,
       timer = Some 1074, level = 0\<rparr>"
  using auto_expiry [of "loaded_dev\<lparr>timer := None\<rparr>" "sample_kernel (0, 38000) 1062" 38000]
  by (simp add: loaded_dev_def sample_kernel_def)

text \<open>In manual mode the pin blinks: after any number of expiries the level has the parity of
  their number and the expiries are equally spaced.\<close>

theorem manual_blinks:
  assumes "manual_mode fc" and "half_period_ms (frequency fc) = Some ms"
    and "frequency fc \<noteq> 0" and "gpio_state fc = 0 \<or> gpio_state fc = 1"
    and "level fc = gpio_state fc" and "timer fc = Some e"
    and "\<And>t. jiffies (k t) = t" and "\<And>t. msecs_to_jiffies (k t) ms = d"
  shows "\<exists>fc'. timer_run k n fc = Some fc' \<and> level fc' = (level fc + int n) mod 2 \<and>
    timer fc' = Some (e + of_nat n * d) \<and> manual_mode fc' \<and> frequency fc' = frequency fc"
  using manual_timer_run [OF assms, of n] assms(1,5) by simp

theorem manual_blinks_witness:
  "\<exists>fc'. timer_run (sample_kernel (0, 30000)) 3 (loaded_dev\<lparr>manual_mode := True\<rparr>) = Some fc' \<and>
     level fc' = 0 \<and> timer fc' = Some (1062 + 3 * 62)"
  using manual_blinks [of "loaded_dev\<lparr>manual_mode := True\<rparr>" 250 1062 "sample_kernel (0, 30000)" 62 3]
  by (auto simp: loaded_dev_def half_period_ms_def sample_kernel_def)

text \<open>Writing the frequency in automatic mode is refused and changes nothing.\<close>

theorem frequency_store_refused:
  assumes "\<not> manual_mode fc"
  shows "frequency_store k buf count fc =
    Some (if fst (kstrtou32 k buf 10) = 0 then - EPERM else - EINVAL, fc)"
  using assms by (simp add: frequency_store_def split: prod.splits)

theorem frequency_store_refused_witness:
  "frequency_store (sample_kernel (0, 30000) 1010) ''50'' 2 loaded_dev = Some (- EPERM, loaded_dev)"
  using frequency_store_refused [of loaded_dev "sample_kernel (0, 30000) 1010" "''50''" 2]
  by (simp add: loaded_dev_def sample_kernel_def is_digit_def digits_val_def digit_val_def c_str_def)

text \<open>C40. Writing the frequency divides by zero for exactly one text value, 2147483648, in manual
  mode, when no other write comes between: doubling it wraps to zero in 32 bits.\<close>

theorem frequency_store_divides_by_zero:
  "frequency_store k buf count fc = None \<longleftrightarrow>
     manual_mode fc \<and> kstrtou32 k buf 10 = (0, 0x80000000)"
  by (auto simp: fan_defs half_period_None_iff split: if_splits prod.splits option.splits)

text \<open>The half period of a frequency between 1 and 500 is the exact one rounded down; above
  500 it is zero milliseconds, so the callback re-queues itself without delay.\<close>

theorem half_period_bounds:
  assumes "0 < f" and "f < 0x80000000"
  shows "\<exists>ms. half_period_ms f = Some ms \<and> unat ms * (2 * unat f) \<le> 1000 \<and>
    1000 < (unat ms + 1) * (2 * unat f) \<and> (ms = 0 \<longleftrightarrow> 500 < f)"
proof -
  have f: "unat f < 0x80000000" "0 < unat f"
    using assms by (simp_all add: word_less_nat_alt unat_gt_0)
  then have two: "unat (2 * f) = 2 * unat f"
    by (simp add: unat_word_ariths)
  have nz: "2 * f \<noteq> 0" using two f(2) by auto
  let ?ms = "1000 div (2 * f)"
  have ms: "unat ?ms = 1000 div (2 * unat f)" by (simp add: unat_div two)
  have "unat ?ms * (2 * unat f) \<le> 1000" unfolding ms by (rule div_times_less_eq_dividend)
  moreover have "1000 < (unat ?ms + 1) * (2 * unat f)"
    unfolding ms using f(2) dividend_less_div_times [of "2 * unat f" 1000] by simp
  moreover have "?ms = 0 \<longleftrightarrow> 500 < f"
  proof -
    have "?ms = 0 \<longleftrightarrow> 1000 div (2 * unat f) = 0" using ms by (metis unat_eq_zero)
    also have "\<dots> \<longleftrightarrow> 500 < unat f" using f(2) by (simp add: div_eq_0_iff)
    finally show ?thesis by (simp add: word_less_nat_alt)
  qed
  ultimately show ?thesis using nz by (simp add: half_period_ms_def mult.commute)
qed

theorem half_period_bounds_witness: "half_period_ms 7 = Some 71"
  using half_period_bounds [of 7] by (simp add: half_period_ms_def)

text \<open>Once the timer is off the queue in automatic mode (a frequency of zero written in manual
  mode, or a sensor that failed at load time), nothing but leaving automatic mode changes the
  driver: the temperature is no longer followed.\<close>

theorem auto_mode_stays_stalled:
  assumes "\<not> manual_mode (fan_device s)" and "timer (fan_device s) = None" and "callback s = Cb_idle"
    and "set (writers s) \<subseteq> {Wr_ready}" and "fan_step s t" and "\<not> manual_mode (fan_device t)"
  shows "t = s"
  using assms(5)
proof cases
  case (expire e)
  with assms(2) show ?thesis by simp
next
  case (toggle k fc c)
  with assms(3) show ?thesis by simp
next
  case (store_mode k buf count r fc)
  with assms(1,6) show ?thesis by (auto simp: manual_mode_store_def split: if_splits prod.splits)
next
  case (store_frequency i k buf fc w)
  then have w: "writers s ! i = Wr_ready" using assms(4) nth_mem by blast
  then have "fc = fan_device s \<and> w = Wr_ready"
    using store_frequency assms(1) by (auto split: if_splits prod.splits)
  with store_frequency w show ?thesis by (metis list_update_id fan_sys.surjective fan_sys.update_convs(1,3))
qed

text \<open>The device after loading with a sensor that cannot be read.\<close>

theorem auto_mode_stays_stalled_witness:
  "probed (zeroed_dev\<lparr>gpio_pin := 10\<rparr>) \<and>
   fan_step (two_writers (zeroed_dev\<lparr>gpio_pin := 10\<rparr>) Cb_idle Wr_ready Wr_ready) (two_writers (zeroed_dev\<lparr>gpio_pin := 10\<rparr>) Cb_idle Wr_ready Wr_ready)"
proof -
  let ?fc = "zeroed_dev\<lparr>gpio_pin := 10\<rparr>"
  let ?s = "two_writers ?fc Cb_idle Wr_ready Wr_ready"
  have p: "probed ?fc"
    unfolding probed_def
    by (rule exI [of _ "sample_kernel (-5, 0) 1000"], rule exI [of _ 10])
      (simp add: fan_defs zeroed_dev_def sample_kernel_def)
  have "manual_mode_store (sample_kernel (0, 30000) 1010) ''0'' 1 ?fc = (1, ?fc)"
    by (simp add: manual_mode_store_def sample_kernel_def zeroed_dev_def c_str_def)
  then have st: "fan_step ?s (?s\<lparr>fan_device := ?fc\<rparr>)"
    by (intro fan_step.store_mode [of _ _ _ _ 1]) (simp add: two_writers_def)
  have "?s\<lparr>fan_device := ?fc\<rparr> = ?s"
    by (rule auto_mode_stays_stalled [OF _ _ _ _ st]) (simp_all add: two_writers_def zeroed_dev_def)
  with p st show ?thesis by simp
qed

text \<open>
  Two races.  The callback has loaded a set state and is about to drive the pin when a writer stores
  zero and clears both: the pin then goes up although the state and the frequency are zero, and stays up
  until the next expiry.
\<close>

theorem pin_state_race:
  "\<exists>fc. fan_step\<^sup>*\<^sup>* (two_writers loaded_dev Cb_idle Wr_ready Wr_ready) (two_writers fc Cb_idle Wr_ready Wr_ready) \<and>
     frequency fc = 0 \<and> gpio_state fc = 0 \<and> level fc = 1"
proof -
  let ?k = "sample_kernel (0, 30000) 1100"
  let ?d = "\<lambda>g l f t. manual_dev\<lparr>gpio_state := g, level := l, frequency := f, timer := t\<rparr>"
  let ?s = "\<lambda>g l f t c w. two_writers (?d g l f t) c Wr_ready w"
  note go = rtranclp.rtrancl_into_rtrancl [of fan_step]
  note cb = two_writers_steps(2) [of ?k] and wr = two_writers_steps(4) [of ?k "''0''"]
  have parse: "kstrtou32 ?k ''0'' 10 = (0, 0)"
    by (simp add: sample_kernel_def is_digit_def digits_val_def digit_val_def c_str_def)
  have half: "half_period_ms 2 = Some 250" by (simp add: half_period_ms_def)
  have "callback_run ?k 9 (?d 1 1 2 None, Cb_start) = Some (?d 0 0 2 (Some 1162))"
    unfolding fan_toggle_timer_run by (simp add: fan_defs manual_dev_def half sample_kernel_def)
  from callback_run_steps [OF this, of "?s 1 1 2 None Cb_start Wr_ready"]
  have run: "fan_step\<^sup>*\<^sup>* (?s 1 1 2 None Cb_start Wr_ready) (?s 0 0 2 (Some 1162) Cb_idle Wr_ready)"
    by (simp add: two_writers_def)
  have expiry: "fan_step (?s 0 0 2 (Some 1162) Cb_idle Wr_ready) (?s 0 0 2 None Cb_start Wr_ready)"
    using two_writers_steps(1) [of "?d 0 0 2 (Some 1162)" 1162 Wr_ready Wr_ready] by (simp add: manual_dev_def)
  have up: "fan_step (?s 0 0 2 None Cb_start Wr_ready) (?s 0 0 2 None (Cb_test 2) Wr_ready)"
    "fan_step (?s 0 0 2 None (Cb_test 2) Wr_ready) (?s 0 0 2 None (Cb_toggle 2 0) Wr_ready)"
    "fan_step (?s 0 0 2 None (Cb_toggle 2 0) Wr_ready) (?s 1 0 2 None (Cb_load 2) Wr_ready)"
    "fan_step (?s 1 0 2 None (Cb_load 2) Wr_ready) (?s 1 0 2 None (Cb_drive 2 1) Wr_ready)"
    "fan_step (?s 0 0 0 None (Cb_drive 2 1) Wr_ready) (?s 0 1 0 None (Cb_arm 2) Wr_ready)"
    "fan_step (?s 0 1 0 None (Cb_arm 2) Wr_ready) (?s 0 1 0 (Some 1162) Cb_idle Wr_ready)"
    by (rule cb, simp add: half manual_dev_def gpio_set_value_def mod_timer_def sample_kernel_def; fail)+
  have stored: "fan_step (?s 1 0 2 None (Cb_drive 2 1) Wr_ready) (?s 1 0 0 None (Cb_drive 2 1) Wr_stored)"
    by (rule wr) (simp add: parse manual_dev_def)
  have cleared: "fan_step (?s 1 0 0 None (Cb_drive 2 1) Wr_stored) (?s 1 0 0 None (Cb_drive 2 1) Wr_clear)"
    "fan_step (?s 1 0 0 None (Cb_drive 2 1) Wr_clear) (?s 0 0 0 None (Cb_drive 2 1) Wr_off)"
    "fan_step (?s 0 0 0 None (Cb_drive 2 1) Wr_off) (?s 0 0 0 None (Cb_drive 2 1) Wr_ready)"
    by (rule wr, simp add: manual_dev_def gpio_set_value_def; fail)+
  have first: "fan_step\<^sup>*\<^sup>* (two_writers loaded_dev Cb_idle Wr_ready Wr_ready) (?s 1 1 2 None Cb_start Wr_ready)"
    using go [OF r_into_rtranclp [of fan_step, OF to_manual] two_writers_steps(1)]
    by (simp add: manual_dev_def)
  note raised = rtranclp_trans [OF first run, THEN go, OF expiry, THEN go, OF up(1), THEN go, OF up(2), THEN go, OF up(3), THEN go, OF up(4)]
  note raced = raised [THEN go, OF stored, THEN go, OF cleared(1), THEN go, OF cleared(2), THEN go, OF cleared(3)]
  note raced [THEN go, OF up(5), THEN go, OF up(6)]
  then show ?thesis by (intro exI [of _ "?d 0 1 0 (Some 1162)"]) (simp add: manual_dev_def)
qed

text \<open>A writer has stored and tested a frequency that is not zero; another one then stores zero, and the
  first one reads the frequency again and divides by zero.\<close>

theorem race_divides_by_zero:
  "\<exists>fc. fan_step\<^sup>*\<^sup>* (two_writers loaded_dev Cb_idle Wr_ready Wr_ready) (two_writers fc Cb_idle Wr_divide Wr_stored) \<and>
     frequency fc = 0 \<and> (\<forall>k buf. writer_step k buf (fc, Wr_divide) = None)"
proof -
  let ?k = "sample_kernel (0, 30000) 1010"
  note go = rtranclp.rtrancl_into_rtrancl [of fan_step]
  have parse: "kstrtou32 ?k ''5'' 10 = (0, 5)" "kstrtou32 ?k ''0'' 10 = (0, 0)"
    by (simp_all add: sample_kernel_def is_digit_def digits_val_def digit_val_def c_str_def)
  have "fan_step\<^sup>*\<^sup>* (two_writers loaded_dev Cb_idle Wr_ready Wr_ready) (two_writers (manual_dev\<lparr>frequency := 0\<rparr>) Cb_idle Wr_divide Wr_stored)"
    by (rule go, rule go, rule go, rule r_into_rtranclp [of fan_step, OF to_manual],
        rule two_writers_steps(3) [of ?k "''5''" _ _ "manual_dev\<lparr>frequency := 5\<rparr>" Wr_stored], (simp add: parse manual_dev_def; fail),
        rule two_writers_steps(3) [of ?k "[]" _ _ "manual_dev\<lparr>frequency := 5\<rparr>" Wr_divide], (simp; fail),
        rule two_writers_steps(4) [of ?k "''0''"], (simp add: parse manual_dev_def; fail))
  then show ?thesis by (intro exI [of _ "manual_dev\<lparr>frequency := 0\<rparr>"]) (simp add: half_period_None_iff)
qed

text \<open>Whatever the kernel answers, a failing probe has released every GPIO line it requested,
  and a successful one holds exactly the line of its driver data, in a state that satisfies the
  invariant.\<close>

theorem probe_gpio_balance:
  "wp (fan_ctrl_probe (recorder f) k) ([], ()) (\<lambda>(ret, d) (h, _).
     if ret = 0 then \<exists>fc. d = Some fc \<and> gpio_held h [] = [gpio_pin fc] \<and> fan_inv fc
     else gpio_held h [] = [])"
proof -
  have "\<exists>fc. fan_toggle_timer k (zeroed_dev\<lparr>gpio_pin := pin, manual_mode := False,
      frequency := 0, gpio_state := 0\<rparr>) = Some fc \<and> pin = gpio_pin fc \<and> fan_inv fc" for pin
    using probe_toggle_total [of k pin] by (auto simp: zeroed_dev_def)
  then show ?thesis
    by (auto simp: fan_ctrl_probe_def Let_def wp_simps intro!: wp_intros)
qed

end
