(* ===== verification/Posix.thy ===== *)
theory Posix
  imports Csel_Prelude
begin

text \<open>
  The system calls of the user-space programs, as data.  What they do is not defined here: a program
  is a function of the operating system that answers them.  This theory only fixes how a program
  sees the answers (how many bytes of a buffer a read has stored) and the byte layout of the
  structures that travel over the socket.
\<close>

section \<open>Calls\<close>

datatype oflag = O_RDONLY | O_WRONLY | O_RDWR | O_NONBLOCK | O_CREAT | O_TRUNC

datatype epoll_op = EPOLL_CTL_ADD | EPOLL_CTL_DEL

datatype epoll_flag = EPOLLIN | EPOLLPRI | EPOLLONESHOT | EPOLLET

text \<open>
  The calls of the single programs (signals, identity, memory, threads, clocks), apart from those of
  the daemon below.  \<open>Print_errno s\<close> prints \<open>s\<close> and the description of the last error.  \<open>Load32\<close> and
  \<open>Store32\<close> are accesses to mapped device registers.
\<close>

datatype pcall =
    Print_errno string
  | Clock_gettime string
  | Clock_getres string
  | Getpagesize
  | Mmap int nat int
  | Munmap int nat
  | Load32 int
  | Store32 int nat
  | Sched_setaffinity int
  | Sigaction int
  | Getpid
  | Sleep int
  | Socketpair
  | Waitpid int
  | Openlog
  | Syslog string
  | Closelog
  | Sysconf_open_max
  | Getpwnam string
  | Chroot string
  | Setegid int
  | Seteuid int
  | Malloc nat
  | Free int
  | Pthread_create string
  | Pthread_join string
  | Pthread_mutex_init
  | Pthread_mutex_destroy
  | Backtrace nat
  | Rand

text \<open>
  \<open>Uninit n\<close> is not a call: it stands for the indeterminate contents of an automatic array of \<open>n\<close>
  bytes, which the environment chooses.  The \<open>nat\<close> of \<open>Epoll_ctl\<close> is the user data of the event;
  \<open>Epoll_wait\<close> stores one byte per ready event, its user data.
\<close>

datatype call =
    Open string "oflag list"
  | Close int
  | Read int nat
  | Write int string
  | Pwrite int string int
  | Lseek int int
  | Ioctl int string int
  | Uninit nat
  | Socket
  | Unlink string
  | Bind int string
  | Listen int int
  | Accept int
  | Connect int string
  | Recv int nat
  | Send int string
  | Epoll_create1
  | Epoll_ctl int epoll_op int "epoll_flag list" nat
  | Epoll_wait int nat
  | Timerfd_create
  | Timerfd_settime int "int \<times> int" "int \<times> int"
  | Fork
  | Setsid
  | Chdir string
  | Umask int
  | Dup2 int int
  | Printf string
  | Eprintf string
  | Perror string
  | Process pcall

text \<open>The bytes a read of at most \<open>cap\<close> bytes has stored, given its answer.\<close>

definition rd_bytes :: "nat \<Rightarrow> ret \<Rightarrow> string" where
  "rd_bytes cap r = (if fst r \<le> 0 then [] else sized (min cap (nat (fst r))) (snd r))"

lemma rd_bytes_exact [simp]:
  "n = int (length s) \<Longrightarrow> length s \<le> cap \<Longrightarrow> rd_bytes cap (n, s) = s"
  by (simp add: rd_bytes_def sized_def)

lemma rd_bytes_error [simp]: "fst r \<le> 0 \<Longrightarrow> rd_bytes cap r = []"
  by (simp add: rd_bytes_def)

lemma length_rd_bytes: "length (rd_bytes cap r) \<le> cap"
  by (simp add: rd_bytes_def)

section \<open>Little-endian 32-bit fields\<close>

definition le32 :: "int \<Rightarrow> string" where
  "le32 v = (let n = nat (v mod 2 ^ 32) in
     [char_of (n mod 256), char_of (n div 2 ^ 8 mod 256), char_of (n div 2 ^ 16 mod 256),
      char_of (n div 2 ^ 24 mod 256)])"

fun le32_val :: "string \<Rightarrow> nat" where
  "le32_val (a # b # c # d # _) =
     of_char a + 2 ^ 8 * of_char b + 2 ^ 16 * of_char c + 2 ^ 24 * of_char d"
| "le32_val _ = 0"

lemma length_le32 [simp]: "length (le32 v) = 4"
  by (simp add: le32_def Let_def)

lemma top_byte: "(n::nat) < 2 ^ 32 \<Longrightarrow> n div 2 ^ 24 mod 256 = n div 2 ^ 24"
  by simp

lemma split_bytes: "n mod 256 + 2 ^ 8 * (n div 2 ^ 8 mod 256) + 2 ^ 16 * (n div 2 ^ 16 mod 256) +
   2 ^ 24 * (n div 2 ^ 24) = (n::nat)"
proof -
  have "n = n mod 256 + 256 * (n div 256)" by simp
  also have "n div 256 = n div 256 mod 256 + 256 * (n div 256 div 256)" by simp
  also have "n div 256 div 256 = n div 256 div 256 mod 256 + 256 * (n div 256 div 256 div 256)"
    by simp
  finally show ?thesis by (simp add: div_mult2_eq [symmetric] algebra_simps)
qed

lemma le32_val_le32 [simp]: "le32_val (le32 v @ rest) = nat (v mod 2 ^ 32)"
proof -
  define n where "n = nat (v mod 2 ^ 32)"
  have "n < 2 ^ 32" by (simp add: n_def nat_less_iff)
  from top_byte [OF this] have "le32_val (le32 v @ rest) =
      n mod 256 + 2 ^ 8 * (n div 2 ^ 8 mod 256) + 2 ^ 16 * (n div 2 ^ 16 mod 256) + 2 ^ 24 * (n div 2 ^ 24)"
    by (simp add: le32_def Let_def n_def [simplified, symmetric])
  also have "\<dots> = n" by (rule split_bytes)
  finally show ?thesis by (simp add: n_def)
qed

lemma le32_val_le32_end [simp]: "le32_val (le32 v) = nat (v mod 2 ^ 32)"
  using le32_val_le32 [of v "[]"] by simp

text \<open>Reading a field as \<open>int32_t\<close>.\<close>

definition le32_int :: "string \<Rightarrow> int" where
  "le32_int s = s32 (int (le32_val s))"

lemma s32_mod: "s32 (v mod 2 ^ 32) = s32 v"
  by (simp add: s32_def signed_take_bit_eq_take_bit_shift take_bit_eq_mod mod_simps)

lemma le32_int_le32 [simp]: "le32_int (le32 v @ rest) = s32 v"
  by (simp add: le32_int_def s32_mod [simplified])

lemma le32_int_le32_end [simp]: "le32_int (le32 v) = s32 v"
  using le32_int_le32 [of v "[]"] by simp

section \<open>Times\<close>

text \<open>The seconds and nanoseconds of a \<open>timespec\<close> that a call has stored.\<close>

definition le64_int :: "string \<Rightarrow> int" where
  "le64_int s = signed_take_bit 63 (int (le32_val (take 4 s)) + 2 ^ 32 * int (le32_val (take 4 (drop 4 s))))"

definition timespec :: "ret \<Rightarrow> int \<times> int" where
  "timespec r = (le64_int (sized 8 (snd r)), le64_int (sized 8 (drop 8 (snd r))))"

definition elapsed_ns :: "int \<times> int \<Rightarrow> int \<times> int \<Rightarrow> int" where
  "elapsed_ns start stop = (snd stop - snd start) + (fst stop - fst start) * 1000000000"

end
