(* ===== verification/Daemon_Fan.thy ===== *)
theory Daemon_Fan
  imports Posix
begin

text \<open>
  The daemon's static variables (all files of \<^verbatim>\<open>src/07_miniproj/daemon\<close>) and its fan module
  \<^verbatim>\<open>fan.c\<close>, which reads and writes the driver's sysfs attributes.  The attributes are the
  interface \<open>fan_sysfs\<close>; the facts about \<open>fan.c\<close> that need the attributes to work are proved
  inside it.
\<close>

section \<open>The static variables of the daemon\<close>

text \<open>\<open>enum event_type\<close> and \<open>struct event\<close> of \<^verbatim>\<open>main.c\<close>.\<close>

datatype event_type =
    BUTTON1_PRESS
  | BUTTON2_PRESS
  | BUTTON3_PRESS
  | REFRESH_SCREEN
  | SOCKET_ACCEPT_CLIENT
  | SOCKET_CLIENT_REQUEST

record event =
  ev_type :: event_type
  ev_fd :: int

text \<open>
  One record for the statics of \<^verbatim>\<open>fan.c\<close>, \<^verbatim>\<open>gpios.c\<close>, \<^verbatim>\<open>ssd1306.c\<close>,
  \<^verbatim>\<open>socket.c\<close> and \<^verbatim>\<open>main.c\<close>.  \<open>client_events\<close> has \<open>MAX_SOCKET_CLIENTS\<close> slots.
\<close>

record daemon =
  fan_manual_mode :: bool
  fan_manual_fd :: int
  fan_freq_fd :: int
  fan_temp_fd :: int
  led_fd :: int
  button_fds :: "int list"
  ssd_fd :: int
  server_sock_fd :: int
  screen_timer_fd :: int
  epoll_fd :: int
  button_events :: "event list"
  timer_event :: event
  socket_event :: event
  client_events :: "event list"
  client_event_count :: nat

definition zero_event :: event where
  "zero_event = \<lparr>ev_type = BUTTON1_PRESS, ev_fd = 0\<rparr>"

definition initial_daemon :: daemon where
  "initial_daemon = \<lparr>fan_manual_mode = False, fan_manual_fd = -1, fan_freq_fd = -1,
     fan_temp_fd = -1, led_fd = -1, button_fds = [-1, -1, -1], ssd_fd = 0, server_sock_fd = -1,
     screen_timer_fd = -1, epoll_fd = -1, button_events = replicate 3 zero_event,
     timer_event = zero_event, socket_event = zero_event, client_events = replicate 8 zero_event,
     client_event_count = 0\<rparr>"

section \<open>fan.h and fan.c\<close>

definition FAN_MANUAL_MODE :: string where
  "FAN_MANUAL_MODE = ''/sys/devices/platform/fan-controller/manual_mode''"

definition FAN_FREQUENCY :: string where
  "FAN_FREQUENCY = ''/sys/devices/platform/fan-controller/frequency''"

definition FAN_CPU_TEMP :: string where
  "FAN_CPU_TEMP = ''/sys/devices/platform/fan-controller/cpu_temp''"

abbreviation (input) FAN_FREQUENCY_MAX :: int where "FAN_FREQUENCY_MAX \<equiv> 100"
abbreviation (input) FAN_FREQUENCY_MIN :: int where "FAN_FREQUENCY_MIN \<equiv> 1"
abbreviation (input) FAN_FREQUENCY_STEP :: int where "FAN_FREQUENCY_STEP \<equiv> 1"

definition fan_init :: "('w, call) os \<Rightarrow> ('w, daemon, unit) prog" where
  "fan_init os = do {
     fd \<leftarrow> sysi os (Open FAN_MANUAL_MODE [O_RDWR]);
     modg (\<lambda>d. d\<lparr>fan_manual_fd := fd\<rparr>);
     fd \<leftarrow> sysi os (Open FAN_FREQUENCY [O_RDWR]);
     modg (\<lambda>d. d\<lparr>fan_freq_fd := fd\<rparr>);
     fd \<leftarrow> sysi os (Open FAN_CPU_TEMP [O_RDONLY]);
     modg (\<lambda>d. d\<lparr>fan_temp_fd := fd\<rparr>);
     junk \<leftarrow> sys os (Uninit 20);
     d \<leftarrow> getg;
     r \<leftarrow> sys os (Read (fan_manual_fd d) 1);
     let buf = overlay (rd_bytes 1 r) (sized 20 (snd junk));
     modg (\<lambda>d. d\<lparr>fan_manual_mode := (buf ! 0 = CHR ''1'')\<rparr>) }"

definition fan_is_manual_mode :: "('w, daemon, bool) prog" where
  "fan_is_manual_mode = do { d \<leftarrow> getg; return (fan_manual_mode d) }"

definition fan_get_cpu_temp :: "('w, call) os \<Rightarrow> ('w, daemon, int) prog" where
  "fan_get_cpu_temp os = do {
     d \<leftarrow> getg;
     _ \<leftarrow> sysi os (Lseek (fan_temp_fd d) 0);
     r \<leftarrow> sys os (Read (fan_temp_fd d) 19);
     if fst r < 0 then return (-1)
     else return (atoi (overlay (rd_bytes 19 r) (replicate 20 NUL))) }"

definition fan_get_frequency :: "('w, call) os \<Rightarrow> ('w, daemon, int) prog" where
  "fan_get_frequency os = do {
     d \<leftarrow> getg;
     _ \<leftarrow> sysi os (Lseek (fan_freq_fd d) 0);
     r \<leftarrow> sys os (Read (fan_freq_fd d) 19);
     if fst r < 0 then return (-1)
     else return (atoi (overlay (rd_bytes 19 r) (replicate 20 NUL))) }"

definition fan_toggle_mode :: "('w, call) os \<Rightarrow> ('w, daemon, unit) prog" where
  "fan_toggle_mode os = do {
     modg (\<lambda>d. d\<lparr>fan_manual_mode := \<not> fan_manual_mode d\<rparr>);
     d \<leftarrow> getg;
     _ \<leftarrow> sysi os (Write (fan_manual_fd d) (if fan_manual_mode d then ''1'' else ''0''));
     return () }"

text \<open>All 20 bytes of the buffer are written: the digits, the terminator, and what was there before.\<close>

definition fan_set_frequency :: "('w, call) os \<Rightarrow> int \<Rightarrow> ('w, daemon, unit) prog" where
  "fan_set_frequency os freq = do {
     junk \<leftarrow> sys os (Uninit 20);
     d \<leftarrow> getg;
     _ \<leftarrow> sysi os (Write (fan_freq_fd d)
                      (overlay (take 19 (fmt_d freq) @ [NUL]) (sized 20 (snd junk))));
     return () }"

definition fan_read_frequency :: "('w, call) os \<Rightarrow> ('w, daemon, int) prog" where
  "fan_read_frequency os = do {
     d \<leftarrow> getg;
     _ \<leftarrow> sysi os (Lseek (fan_freq_fd d) 0);
     r \<leftarrow> sys os (Read (fan_freq_fd d) 19);
     if fst r < 0 then return (-1)
     else return (atoi (overlay (rd_bytes 19 r) (replicate 20 NUL))) }"

definition fan_increase_frequency :: "('w, call) os \<Rightarrow> ('w, daemon, unit) prog" where
  "fan_increase_frequency os = do {
     freq \<leftarrow> fan_read_frequency os;
     let freq = s32 (freq + FAN_FREQUENCY_STEP);
     let freq = (if freq > FAN_FREQUENCY_MAX then FAN_FREQUENCY_MAX else freq);
     fan_set_frequency os freq }"

definition fan_decrease_frequency :: "('w, call) os \<Rightarrow> ('w, daemon, unit) prog" where
  "fan_decrease_frequency os = do {
     freq \<leftarrow> fan_read_frequency os;
     let freq = s32 (freq - FAN_FREQUENCY_STEP);
     let freq = (if freq < FAN_FREQUENCY_MIN then FAN_FREQUENCY_MIN else freq);
     fan_set_frequency os freq }"

lemmas fan_c_defs = fan_is_manual_mode_def fan_get_cpu_temp_def fan_toggle_mode_def
  fan_set_frequency_def fan_read_frequency_def fan_increase_frequency_def
  fan_decrease_frequency_def

section \<open>Reading a decimal attribute\<close>

lemma atoi_buffer_u:
  assumes "n < 2 ^ 63"
  shows "atoi (overlay (fmt_u n @ [NL]) rest) = s32 (int n)"
  using atoi_fmt_u [OF assms, of "NL # drop (length (fmt_u n @ [NL])) rest"]
  by (simp add: overlay_def is_digit_def)

lemma atoi_buffer_d:
  assumes "s32_range i"
  shows "atoi (overlay (fmt_d i @ [NL]) rest) = i"
  using atoi_fmt_d [OF assms, of "NL # drop (length (fmt_d i @ [NL])) rest"]
  by (simp add: overlay_def is_digit_def)

lemma c_str_buffer: "c_str (overlay (fmt_d i @ [NUL]) rest) = fmt_d i"
  using fmt_d_no_NUL [of i] by (simp add: overlay_def)

lemma length_fmt_u32: "n < 2 ^ 32 \<Longrightarrow> length (fmt_u n) \<le> 10"
  using length_fmt_u_le [of n 9] by simp


section \<open>The interface of the attributes\<close>

text \<open>
  What \<open>fan.c\<close> relies on: three open files that behave as the attributes \<open>manual_mode\<close>,
  \<open>frequency\<close> and \<open>cpu_temp\<close> of a device with a mode, a frequency and a temperature (\<open>None\<close> when
  the sensor fails).  \<open>ok\<close> is the provider's invariant.
\<close>

locale fan_sysfs =
  fixes os :: "('w, call) os"
    and mode :: "'w \<Rightarrow> bool"
    and freq :: "'w \<Rightarrow> u32"
    and temp :: "'w \<Rightarrow> int option"
    and ok :: "'w \<Rightarrow> bool"
    and mfd :: int and ffd :: int and tfd :: int
  assumes seek: "ok w \<Longrightarrow> fd = ffd \<or> fd = tfd \<Longrightarrow> \<exists>r. os w (Lseek fd 0) = (r, w)"
    and uninit: "ok w \<Longrightarrow> \<exists>r. os w (Uninit n) = (r, w)"
    and read_mode: "ok w \<Longrightarrow> os w (Read mfd 1) = ((1, if mode w then ''1'' else ''0''), w)"
    and read_freq: "ok w \<Longrightarrow> os w (Read ffd 19) =
        ((int (length (fmt_u (unat (freq w)) @ [NL])), fmt_u (unat (freq w)) @ [NL]), w)"
    and read_temp: "ok w \<Longrightarrow> temp w = Some t \<Longrightarrow>
        s32_range t \<and> os w (Read tfd 19) = ((int (length (fmt_d t @ [NL])), fmt_d t @ [NL]), w)"
    and read_temp_fails: "ok w \<Longrightarrow> temp w = None \<Longrightarrow> \<exists>r s. r < 0 \<and> os w (Read tfd 19) = ((r, s), w)"
    and write_mode: "ok w \<Longrightarrow> \<exists>r w'. os w (Write mfd (if b then ''1'' else ''0'')) = (r, w') \<and>
        ok w' \<and> mode w' = b \<and> freq w' = freq w \<and> temp w' = temp w"
    and write_freq: "ok w \<Longrightarrow> c_str buf = fmt_d v \<Longrightarrow> 0 < v \<Longrightarrow> s32_range v \<Longrightarrow>
        \<exists>r w'. os w (Write ffd buf) = (r, w') \<and> ok w' \<and> mode w' = mode w \<and> temp w' = temp w \<and>
          freq w' = (if mode w then of_int v else freq w)"
begin

text \<open>The daemon has the three files open.\<close>

definition fds :: "daemon \<Rightarrow> bool" where
  "fds d \<longleftrightarrow> fan_manual_fd d = mfd \<and> fan_freq_fd d = ffd \<and> fan_temp_fd d = tfd"

text \<open>The daemon's copy of the mode agrees with the device.\<close>

definition synced :: "'w \<Rightarrow> daemon \<Rightarrow> bool" where
  "synced w d \<longleftrightarrow> ok w \<and> fds d \<and> fan_manual_mode d = mode w"

lemma run_read_frequency:
  assumes "ok w" and "fds d"
  shows "run_state (fan_read_frequency os) (w, d) = (s32 (uint (freq w)), (w, d))"
proof -
  have b: "unat (freq w) < 2 ^ 63"
    using unat_u32_bound [of "freq w"] by simp
  have "length (fmt_u (unat (freq w))) \<le> 10"
    using unat_u32_bound [of "freq w"] by (intro length_fmt_u32)
  moreover obtain r where "os w (Lseek ffd 0) = (r, w)" using seek [OF assms(1)] by blast
  ultimately show ?thesis
    using assms read_freq [OF assms(1)]
    by (simp add: fan_read_frequency_def fds_def atoi_buffer_u [OF b])
qed

lemma run_get_cpu_temp:
  assumes "ok w" and "fds d"
  shows "run_state (fan_get_cpu_temp os) (w, d) =
    (case temp w of Some t \<Rightarrow> t | None \<Rightarrow> -1, (w, d))"
proof (cases "temp w")
  case None
  obtain r s r' where "r < 0" "os w (Read tfd 19) = ((r, s), w)" "os w (Lseek tfd 0) = (r', w)"
    using read_temp_fails [OF assms(1) None] seek [OF assms(1)] by metis
  with assms(2) None show ?thesis by (simp add: fan_get_cpu_temp_def fds_def)
next
  case (Some t)
  obtain r' where "os w (Lseek tfd 0) = (r', w)" using seek [OF assms(1)] by metis
  with assms(2) Some read_temp [OF assms(1) Some] length_fmt_d [of t] show ?thesis
    by (simp add: fan_get_cpu_temp_def fds_def atoi_buffer_d)
qed

lemma run_set_frequency:
  assumes "ok w" and "fds d" and "0 < v" and "s32_range v"
  obtains w' where "run_state (fan_set_frequency os v) (w, d) = ((), (w', d))" and "ok w'"
    and "mode w' = mode w" and "temp w' = temp w"
    and "freq w' = (if mode w then of_int v else freq w)"
proof -
  obtain r where u: "os w (Uninit 20) = (r, w)" using uninit [OF assms(1)] by blast
  have "take 19 (fmt_d v) = fmt_d v" using length_fmt_d [OF assms(4)] by simp
  then have "c_str (overlay (take 19 (fmt_d v) @ [NUL]) (sized 20 (snd r))) = fmt_d v"
    by (simp add: c_str_buffer)
  from write_freq [OF assms(1) this assms(3,4)] obtain r' w'
    where w': "os w (Write ffd (overlay (take 19 (fmt_d v) @ [NUL]) (sized 20 (snd r)))) = (r', w')"
      "ok w'" "mode w' = mode w" "temp w' = temp w"
      "freq w' = (if mode w then of_int v else freq w)" by blast
  have "run_state (fan_set_frequency os v) (w, d) = ((), (w', d))"
    using u w'(1) assms(2) by (simp add: fan_set_frequency_def fds_def)
  with w' show thesis by (intro that)
qed

lemma run_toggle_mode:
  assumes "synced w d"
  obtains w' where "run_state (fan_toggle_mode os) (w, d) =
      ((), (w', d\<lparr>fan_manual_mode := \<not> fan_manual_mode d\<rparr>))"
    and "synced w' (d\<lparr>fan_manual_mode := \<not> fan_manual_mode d\<rparr>)"
    and "mode w' = (\<not> mode w)" and "freq w' = freq w" and "temp w' = temp w"
  using assms write_mode [of w "\<not> fan_manual_mode d"]
  by (auto simp: fan_toggle_mode_def synced_def fds_def split: if_splits)

lemma run_increase_frequency:
  assumes "ok w" and "fds d" and "freq w < 0x7FFFFFFF"
  obtains w' where "run_state (fan_increase_frequency os) (w, d) = ((), (w', d))" and "ok w'"
    and "mode w' = mode w" and "temp w' = temp w"
    and "freq w' = (if mode w then of_int (min 100 (uint (freq w) + 1)) else freq w)"
proof -
  let ?v = "min 100 (uint (freq w) + 1)"
  have f: "uint (freq w) < 0x7FFFFFFF" "0 \<le> uint (freq w)" using assms(3) by (simp_all add: word_less_def)
  then have r: "s32_range (uint (freq w))" "s32_range (uint (freq w) + 1)"
    "s32_range ?v" by (auto simp: s32_range_def)
  obtain w' where w': "run_state (fan_set_frequency os ?v) (w, d) = ((), (w', d))" "ok w'"
      "mode w' = mode w" "temp w' = temp w" "freq w' = (if mode w then of_int ?v else freq w)"
    by (rule run_set_frequency [OF assms(1,2) _ r(3)]) auto
  have m: "(if 100 < x then 100 else x) = min 100 x" for x :: int by (simp add: min_def)
  have "run_state (fan_increase_frequency os) (w, d) = run_state (fan_set_frequency os ?v) (w, d)"
    by (simp add: fan_increase_frequency_def run_read_frequency [OF assms(1,2)] r Let_def m)
  then show thesis using that w' by simp
qed

lemma run_decrease_frequency:
  assumes "ok w" and "fds d" and "freq w < 0x80000000"
  obtains w' where "run_state (fan_decrease_frequency os) (w, d) = ((), (w', d))" and "ok w'"
    and "mode w' = mode w" and "temp w' = temp w"
    and "freq w' = (if mode w then of_int (max 1 (uint (freq w) - 1)) else freq w)"
proof -
  let ?v = "max 1 (uint (freq w) - 1)"
  have f: "uint (freq w) < 0x80000000" "0 \<le> uint (freq w)" using assms(3) by (simp_all add: word_less_def)
  then have r: "s32_range (uint (freq w))" "s32_range (uint (freq w) - 1)"
    "s32_range ?v" by (auto simp: s32_range_def)
  obtain w' where w': "run_state (fan_set_frequency os ?v) (w, d) = ((), (w', d))" "ok w'"
      "mode w' = mode w" "temp w' = temp w" "freq w' = (if mode w then of_int ?v else freq w)"
    by (rule run_set_frequency [OF assms(1,2) _ r(3)]) auto
  have "run_state (fan_decrease_frequency os) (w, d) = run_state (fan_set_frequency os ?v) (w, d)"
    by (simp add: fan_decrease_frequency_def run_read_frequency [OF assms(1,2)] r Let_def max_def)
  then show thesis using that w' by simp
qed

end

end
