(* ===== verification/Ssd1306.thy ===== *)
theory Ssd1306
  imports Daemon_Fan
begin

text \<open>
  The display driver \<^verbatim>\<open>src/07_miniproj/daemon/ssd1306.c\<close>: the font, the commands, and the text
  output, with a model of the controller as the specification of what the bytes mean.
\<close>

section \<open>Tables\<close>

text \<open>The glyphs of the characters 32 to 127, eight columns each.\<close>

definition font :: "u8 list list" where
  "font =
    [[0x00, 0x00, 0x00, 0x00, 0x00, 0x00, 0x00, 0x00],
     [0x00, 0x00, 0x5F, 0x00, 0x00, 0x00, 0x00, 0x00],
     [0x00, 0x00, 0x07, 0x00, 0x07, 0x00, 0x00, 0x00],
     [0x00, 0x14, 0x7F, 0x14, 0x7F, 0x14, 0x00, 0x00],
     [0x00, 0x24, 0x2A, 0x7F, 0x2A, 0x12, 0x00, 0x00],
     [0x00, 0x23, 0x13, 0x08, 0x64, 0x62, 0x00, 0x00],
     [0x00, 0x36, 0x49, 0x55, 0x22, 0x50, 0x00, 0x00],
     [0x00, 0x00, 0x05, 0x03, 0x00, 0x00, 0x00, 0x00],
     [0x00, 0x1C, 0x22, 0x41, 0x00, 0x00, 0x00, 0x00],
     [0x00, 0x41, 0x22, 0x1C, 0x00, 0x00, 0x00, 0x00],
     [0x00, 0x08, 0x2A, 0x1C, 0x2A, 0x08, 0x00, 0x00],
     [0x00, 0x08, 0x08, 0x3E, 0x08, 0x08, 0x00, 0x00],
     [0x00, 0xA0, 0x60, 0x00, 0x00, 0x00, 0x00, 0x00],
     [0x00, 0x08, 0x08, 0x08, 0x08, 0x08, 0x00, 0x00],
     [0x00, 0x60, 0x60, 0x00, 0x00, 0x00, 0x00, 0x00],
     [0x00, 0x20, 0x10, 0x08, 0x04, 0x02, 0x00, 0x00],
     [0x00, 0x3E, 0x51, 0x49, 0x45, 0x3E, 0x00, 0x00],
     [0x00, 0x00, 0x42, 0x7F, 0x40, 0x00, 0x00, 0x00],
     [0x00, 0x62, 0x51, 0x49, 0x49, 0x46, 0x00, 0x00],
     [0x00, 0x22, 0x41, 0x49, 0x49, 0x36, 0x00, 0x00],
     [0x00, 0x18, 0x14, 0x12, 0x7F, 0x10, 0x00, 0x00],
     [0x00, 0x27, 0x45, 0x45, 0x45, 0x39, 0x00, 0x00],
     [0x00, 0x3C, 0x4A, 0x49, 0x49, 0x30, 0x00, 0x00],
     [0x00, 0x01, 0x71, 0x09, 0x05, 0x03, 0x00, 0x00],
     [0x00, 0x36, 0x49, 0x49, 0x49, 0x36, 0x00, 0x00],
     [0x00, 0x06, 0x49, 0x49, 0x29, 0x1E, 0x00, 0x00],
     [0x00, 0x00, 0x36, 0x36, 0x00, 0x00, 0x00, 0x00],
     [0x00, 0x00, 0xAC, 0x6C, 0x00, 0x00, 0x00, 0x00],
     [0x00, 0x08, 0x14, 0x22, 0x41, 0x00, 0x00, 0x00],
     [0x00, 0x14, 0x14, 0x14, 0x14, 0x14, 0x00, 0x00],
     [0x00, 0x41, 0x22, 0x14, 0x08, 0x00, 0x00, 0x00],
     [0x00, 0x02, 0x01, 0x51, 0x09, 0x06, 0x00, 0x00],
     [0x00, 0x32, 0x49, 0x79, 0x41, 0x3E, 0x00, 0x00],
     [0x00, 0x7E, 0x09, 0x09, 0x09, 0x7E, 0x00, 0x00],
     [0x00, 0x7F, 0x49, 0x49, 0x49, 0x36, 0x00, 0x00],
     [0x00, 0x3E, 0x41, 0x41, 0x41, 0x22, 0x00, 0x00],
     [0x00, 0x7F, 0x41, 0x41, 0x22, 0x1C, 0x00, 0x00],
     [0x00, 0x7F, 0x49, 0x49, 0x49, 0x41, 0x00, 0x00],
     [0x00, 0x7F, 0x09, 0x09, 0x09, 0x01, 0x00, 0x00],
     [0x00, 0x3E, 0x41, 0x41, 0x51, 0x72, 0x00, 0x00],
     [0x00, 0x7F, 0x08, 0x08, 0x08, 0x7F, 0x00, 0x00],
     [0x00, 0x41, 0x7F, 0x41, 0x00, 0x00, 0x00, 0x00],
     [0x00, 0x20, 0x40, 0x41, 0x3F, 0x01, 0x00, 0x00],
     [0x00, 0x7F, 0x08, 0x14, 0x22, 0x41, 0x00, 0x00],
     [0x00, 0x7F, 0x40, 0x40, 0x40, 0x40, 0x00, 0x00],
     [0x00, 0x7F, 0x02, 0x0C, 0x02, 0x7F, 0x00, 0x00],
     [0x00, 0x7F, 0x04, 0x08, 0x10, 0x7F, 0x00, 0x00],
     [0x00, 0x3E, 0x41, 0x41, 0x41, 0x3E, 0x00, 0x00],
     [0x00, 0x7F, 0x09, 0x09, 0x09, 0x06, 0x00, 0x00],
     [0x00, 0x3E, 0x41, 0x51, 0x21, 0x5E, 0x00, 0x00],
     [0x00, 0x7F, 0x09, 0x19, 0x29, 0x46, 0x00, 0x00],
     [0x00, 0x26, 0x49, 0x49, 0x49, 0x32, 0x00, 0x00],
     [0x00, 0x01, 0x01, 0x7F, 0x01, 0x01, 0x00, 0x00],
     [0x00, 0x3F, 0x40, 0x40, 0x40, 0x3F, 0x00, 0x00],
     [0x00, 0x1F, 0x20, 0x40, 0x20, 0x1F, 0x00, 0x00],
     [0x00, 0x3F, 0x40, 0x38, 0x40, 0x3F, 0x00, 0x00],
     [0x00, 0x63, 0x14, 0x08, 0x14, 0x63, 0x00, 0x00],
     [0x00, 0x03, 0x04, 0x78, 0x04, 0x03, 0x00, 0x00],
     [0x00, 0x61, 0x51, 0x49, 0x45, 0x43, 0x00, 0x00],
     [0x00, 0x7F, 0x41, 0x41, 0x00, 0x00, 0x00, 0x00],
     [0x00, 0x02, 0x04, 0x08, 0x10, 0x20, 0x00, 0x00],
     [0x00, 0x41, 0x41, 0x7F, 0x00, 0x00, 0x00, 0x00],
     [0x00, 0x04, 0x02, 0x01, 0x02, 0x04, 0x00, 0x00],
     [0x00, 0x80, 0x80, 0x80, 0x80, 0x80, 0x00, 0x00],
     [0x00, 0x01, 0x02, 0x04, 0x00, 0x00, 0x00, 0x00],
     [0x00, 0x20, 0x54, 0x54, 0x54, 0x78, 0x00, 0x00],
     [0x00, 0x7F, 0x48, 0x44, 0x44, 0x38, 0x00, 0x00],
     [0x00, 0x38, 0x44, 0x44, 0x28, 0x00, 0x00, 0x00],
     [0x00, 0x38, 0x44, 0x44, 0x48, 0x7F, 0x00, 0x00],
     [0x00, 0x38, 0x54, 0x54, 0x54, 0x18, 0x00, 0x00],
     [0x00, 0x08, 0x7E, 0x09, 0x02, 0x00, 0x00, 0x00],
     [0x00, 0x18, 0xA4, 0xA4, 0xA4, 0x7C, 0x00, 0x00],
     [0x00, 0x7F, 0x08, 0x04, 0x04, 0x78, 0x00, 0x00],
     [0x00, 0x00, 0x7D, 0x00, 0x00, 0x00, 0x00, 0x00],
     [0x00, 0x80, 0x84, 0x7D, 0x00, 0x00, 0x00, 0x00],
     [0x00, 0x7F, 0x10, 0x28, 0x44, 0x00, 0x00, 0x00],
     [0x00, 0x41, 0x7F, 0x40, 0x00, 0x00, 0x00, 0x00],
     [0x00, 0x7C, 0x04, 0x18, 0x04, 0x78, 0x00, 0x00],
     [0x00, 0x7C, 0x08, 0x04, 0x7C, 0x00, 0x00, 0x00],
     [0x00, 0x38, 0x44, 0x44, 0x38, 0x00, 0x00, 0x00],
     [0x00, 0xFC, 0x24, 0x24, 0x18, 0x00, 0x00, 0x00],
     [0x00, 0x18, 0x24, 0x24, 0xFC, 0x00, 0x00, 0x00],
     [0x00, 0x00, 0x7C, 0x08, 0x04, 0x00, 0x00, 0x00],
     [0x00, 0x48, 0x54, 0x54, 0x24, 0x00, 0x00, 0x00],
     [0x00, 0x04, 0x7F, 0x44, 0x00, 0x00, 0x00, 0x00],
     [0x00, 0x3C, 0x40, 0x40, 0x7C, 0x00, 0x00, 0x00],
     [0x00, 0x1C, 0x20, 0x40, 0x20, 0x1C, 0x00, 0x00],
     [0x00, 0x3C, 0x40, 0x30, 0x40, 0x3C, 0x00, 0x00],
     [0x00, 0x44, 0x28, 0x10, 0x28, 0x44, 0x00, 0x00],
     [0x00, 0x1C, 0xA0, 0xA0, 0x7C, 0x00, 0x00, 0x00],
     [0x00, 0x44, 0x64, 0x54, 0x4C, 0x44, 0x00, 0x00],
     [0x00, 0x08, 0x36, 0x41, 0x00, 0x00, 0x00, 0x00],
     [0x00, 0x00, 0x7F, 0x00, 0x00, 0x00, 0x00, 0x00],
     [0x00, 0x41, 0x36, 0x08, 0x00, 0x00, 0x00, 0x00],
     [0x00, 0x02, 0x01, 0x01, 0x02, 0x01, 0x00, 0x00],
     [0x00, 0x02, 0x05, 0x05, 0x02, 0x00, 0x00, 0x00]]"

definition init_commands :: "u8 list" where
  "init_commands =
    [0xAE, 0x00, 0x10, 0x40, 0xB0, 0x81, 0xCF, 0xA1, 0xA6, 0xA8, 0x3F, 0xC8, 0xD3,
     0x00, 0xD5, 0x80, 0xD9, 0xF1, 0xDA, 0x12, 0xDB, 0x40, 0x8D, 0x14, 0xAF]"

section \<open>Operations\<close>

definition I2C_BUS :: string where
  "I2C_BUS = ''/dev/i2c-0''"

abbreviation (input) OLED_ADDR :: int where "OLED_ADDR \<equiv> 0x3c"
abbreviation (input) OLED_COMMAND_MODE :: u8 where "OLED_COMMAND_MODE \<equiv> 0x00"
abbreviation (input) OLED_DATA_MODE :: u8 where "OLED_DATA_MODE \<equiv> 0x40"
abbreviation (input) OLED_DISPLAY_OFF_CMD :: u8 where "OLED_DISPLAY_OFF_CMD \<equiv> 0xae"
abbreviation (input) OLED_DISPLAY_ON_CMD :: u8 where "OLED_DISPLAY_ON_CMD \<equiv> 0xaf"

definition byte :: "u8 \<Rightarrow> char" where
  "byte b = char_of (unat b)"

definition send_command :: "('w, call) os \<Rightarrow> u8 \<Rightarrow> ('w, daemon, unit) prog" where
  "send_command os cmd = do {
     d \<leftarrow> getg;
     n \<leftarrow> sysi os (Write (ssd_fd d) [byte OLED_COMMAND_MODE, byte cmd]);
     if n \<noteq> 2 then do {
       _ \<leftarrow> sysi os (Printf (''error while sending command'' @ [NL]));
       return () }
     else return () }"

definition send_data :: "('w, call) os \<Rightarrow> u8 \<Rightarrow> ('w, daemon, unit) prog" where
  "send_data os b = do {
     d \<leftarrow> getg;
     n \<leftarrow> sysi os (Write (ssd_fd d) [byte OLED_DATA_MODE, byte b]);
     if n \<noteq> 2 then do {
       _ \<leftarrow> sysi os (Printf (''error while sending data'' @ [NL]));
       return () }
     else return () }"

definition ssd1306_set_position :: "('w, call) os \<Rightarrow> u32 \<Rightarrow> u32 \<Rightarrow> ('w, daemon, unit) prog" where
  "ssd1306_set_position os column row = do {
     send_command os (ucast (0xb0 + row));
     send_command os (ucast (0x00 + (8 * column AND 0x0f)));
     send_command os (ucast (0x10 + (drop_bit 4 (8 * column) AND 0x0f))) }"

text \<open>The index into the font, after the replacement of characters without a glyph by a space.\<close>

definition glyph_index :: "char \<Rightarrow> nat" where
  "glyph_index c = (let n = of_char c :: nat in (if n < 32 \<or> n > 127 then 32 else n) - 32)"

definition ssd1306_putc :: "('w, call) os \<Rightarrow> char \<Rightarrow> ('w, daemon, unit) prog" where
  "ssd1306_putc os c = for_each [0..<8] (\<lambda>i. send_data os (font ! glyph_index c ! i))"

definition ssd1306_puts :: "('w, call) os \<Rightarrow> string \<Rightarrow> ('w, daemon, unit) prog" where
  "ssd1306_puts os str = for_each (c_str str) (ssd1306_putc os)"

definition ssd1306_clear_display :: "('w, call) os \<Rightarrow> ('w, daemon, unit) prog" where
  "ssd1306_clear_display os = do {
     send_command os OLED_DISPLAY_OFF_CMD;
     for_each [0..<8] (\<lambda>j. do {
       ssd1306_set_position os 0 (of_nat j);
       for_each [0..<16] (\<lambda>i. ssd1306_putc os (CHR '' '')) });
     send_command os OLED_DISPLAY_ON_CMD;
     ssd1306_set_position os 0 0 }"

definition ssd1306_init :: "('w, call) os \<Rightarrow> ('w, daemon, int) prog" where
  "ssd1306_init os = do {
     fd \<leftarrow> sysi os (Open I2C_BUS [O_RDWR]);
     modg (\<lambda>d. d\<lparr>ssd_fd := fd\<rparr>);
     if fd < 0 then do {
       _ \<leftarrow> sysi os (Printf (''ERROR: unable to open i2c bus interface ('' @ I2C_BUS @ '')'' @ [NL]));
       return (-1) }
     else do {
     r \<leftarrow> sysi os (Ioctl fd ''I2C_SLAVE'' OLED_ADDR);
     if r < 0 then do {
       _ \<leftarrow> sysi os (Printf (''ERROR: unable to access OLED as slave'' @ [NL]));
       return (-1) }
     else do {
     for_each init_commands (send_command os);
     ssd1306_clear_display os;
     return 0 }}}"

section \<open>Facts about the tables\<close>

lemma length_font [simp]: "length font = 96"
  by (simp add: font_def)

lemma font_rows: "list_all (\<lambda>g. length g = 8) font"
  by (simp add: font_def)

lemma glyph_index_bound: "glyph_index c < length font"
  by (auto simp: glyph_index_def Let_def)

lemma length_glyph [simp]: "length (font ! glyph_index c) = 8"
  using font_rows glyph_index_bound [of c] by (simp add: list_all_length)

lemma glyph_space: "font ! glyph_index (CHR '' '') = replicate 8 0"
  by (simp add: glyph_index_def font_def eval_nat_numeral)

section \<open>The controller\<close>

text \<open>
  The SSD1306 as its data sheet describes it, as far as its memory and its cursor go.  Commands have up
  to six argument bytes (\<open>arity\<close>); \<open>partial\<close> holds the bytes of a command that is not complete yet.
  \<open>0x20\<close> chooses how the cursor moves (\<open>addressing\<close>): 0 horizontally and 1 vertically in the window that
  \<open>0x21\<close> and \<open>0x22\<close> set, 2, the mode of the reset, to the right and around in one page.  In page mode only,
  \<open>0xB0..0xB7\<close> select the page, \<open>0x00..0x0F\<close> and \<open>0x10..0x1F\<close> the low and high half of the column.  \<open>0x2F\<close>
  starts and \<open>0x2E\<close> stops the scrolling of the contents.  The other commands (power, contrast, timing, the
  mapping of the memory to the glass) change neither memory nor cursor and are accepted with their
  arguments.
\<close>

record oled =
  page :: nat
  col :: nat
  ram :: "nat \<Rightarrow> nat \<Rightarrow> u8"
  partial :: "u8 list"
  addressing :: nat
  columns :: "nat \<times> nat"
  pages :: "nat \<times> nat"
  scrolling :: bool

definition two_byte_commands :: "u8 list" where
  "two_byte_commands = [0x20, 0x81, 0xA8, 0xD3, 0xD5, 0xD9, 0xDA, 0xDB, 0x8D]"

definition arity :: "u8 \<Rightarrow> nat" where
  "arity b =
     (if b \<in> set two_byte_commands then 1
      else if b \<in> {0x21, 0x22, 0xA3} then 2
      else if b \<in> {0x29, 0x2A} then 5
      else if b \<in> {0x26, 0x27} then 6
      else 0)"

text \<open>A complete command.\<close>

definition oled_execute :: "u8 list \<Rightarrow> oled \<Rightarrow> oled" where
  "oled_execute bs s =
     (let b = hd bs; arg = (\<lambda>i. unat (bs ! i)) in
      if b = 0x20 then s\<lparr>addressing := arg 1 mod 4\<rparr>
      else if b = 0x21 then s\<lparr>columns := (arg 1 mod 128, arg 2 mod 128), col := arg 1 mod 128\<rparr>
      else if b = 0x22 then s\<lparr>pages := (arg 1 mod 8, arg 2 mod 8), page := arg 1 mod 8\<rparr>
      else if b = 0x2E then s\<lparr>scrolling := False\<rparr>
      else if b = 0x2F then s\<lparr>scrolling := True\<rparr>
      else if addressing s \<noteq> 2 then s
      else if 0xB0 \<le> b \<and> b \<le> 0xB7 then s\<lparr>page := unat b - 0xB0\<rparr>
      else if b \<le> 0x0F then s\<lparr>col := col s div 16 * 16 + unat b\<rparr>
      else if 0x10 \<le> b \<and> b \<le> 0x1F then s\<lparr>col := (unat b - 16) * 16 + col s mod 16\<rparr>
      else s)"

definition oled_command :: "u8 \<Rightarrow> oled \<Rightarrow> oled" where
  "oled_command b s =
     (let bs = partial s @ [b] in
      if length bs \<le> arity (hd bs) then s\<lparr>partial := bs\<rparr>
      else oled_execute bs (s\<lparr>partial := []\<rparr>))"

text \<open>The next value in a window, back to its start after its end, and whether it went back.\<close>

definition next_in :: "nat \<times> nat \<Rightarrow> nat \<Rightarrow> nat \<Rightarrow> nat \<times> bool" where
  "next_in w n x = (if x = snd w then (fst w, True) else ((x + 1) mod n, False))"

definition oled_data :: "u8 \<Rightarrow> oled \<Rightarrow> oled" where
  "oled_data b s =
     (let s = s\<lparr>ram := (ram s)(page s := (ram s (page s))(col s := b))\<rparr>;
          (c, c_wrapped) = next_in (columns s) 128 (col s);
          (p, p_wrapped) = next_in (pages s) 8 (page s)
      in if addressing s = 0 then s\<lparr>col := c, page := (if c_wrapped then p else page s)\<rparr>
         else if addressing s = 1 then s\<lparr>page := p, col := (if p_wrapped then c else col s)\<rparr>
         else s\<lparr>col := (col s + 1) mod 128\<rparr>)"

text \<open>The controller waits for a command or for data, in page mode, with contents that stand still.\<close>

definition settled :: "oled \<Rightarrow> bool" where
  "settled s \<longleftrightarrow> partial s = [] \<and> addressing s = 2 \<and> \<not> scrolling s"

text \<open>A write of the bytes \<open>bs\<close> to the bus: the mode byte and one byte of command or data.\<close>

definition oled_write :: "string \<Rightarrow> oled \<Rightarrow> oled" where
  "oled_write bs s =
     (case bs of
        [m, b] \<Rightarrow> if m = byte OLED_COMMAND_MODE then oled_command (of_char b) s
                  else if m = byte OLED_DATA_MODE then oled_data (of_char b) s
                  else s
      | _ \<Rightarrow> s)"

text \<open>Character cell \<open>c\<close> of row \<open>r\<close> shows the glyph of \<open>ch\<close>.\<close>

definition shows_char :: "oled \<Rightarrow> nat \<Rightarrow> nat \<Rightarrow> char \<Rightarrow> bool" where
  "shows_char s r c ch \<longleftrightarrow> (\<forall>i<8. ram s r (8 * c + i) = font ! glyph_index ch ! i)"

lemma of_char_byte [simp]: "(of_char (byte b) :: u8) = b"
proof -
  have "unat b < 256" by (rule order_less_le_trans [OF unsigned_less]) simp
  then have "(of_char (byte b) :: nat) = unat b" by (simp add: byte_def)
  moreover have "(of_char (byte b) :: u8) = of_nat (of_char (byte b))"
    by (simp add: of_char_def)
  ultimately show ?thesis by simp
qed


text \<open>The display shows \<open>str\<close> from cell \<open>c\<close> of row \<open>r\<close> on.\<close>

definition shows_text :: "oled \<Rightarrow> nat \<Rightarrow> nat \<Rightarrow> string \<Rightarrow> bool" where
  "shows_text s r c str \<longleftrightarrow> (\<forall>i<length str. shows_char s r (c + i) (str ! i))"

text \<open>The two displays differ at most in the \<open>n\<close> cells from cell \<open>c\<close> of row \<open>r\<close> on.\<close>

definition same_outside :: "nat \<Rightarrow> nat \<Rightarrow> nat \<Rightarrow> oled \<Rightarrow> oled \<Rightarrow> bool" where
  "same_outside r c n s t \<longleftrightarrow>
     (\<forall>p x. \<not> (p = r \<and> 8 * c \<le> x \<and> x < 8 * (c + n)) \<longrightarrow> ram t p x = ram s p x)"

text \<open>After a reset; the memory may hold anything, here zeros.\<close>

definition reset_oled :: oled where
  "reset_oled = \<lparr>page = 0, col = 0, ram = (\<lambda>_ _. 0), partial = [], addressing = 2,
     columns = (0, 127), pages = (0, 7), scrolling = False\<rparr>"

lemma settled_reset [simp]: "settled reset_oled"
  by (simp add: settled_def reset_oled_def)

lemma oled_data_page:
  "addressing s = 2 \<Longrightarrow> oled_data b s =
    s\<lparr>ram := (ram s)(page s := (ram s (page s))(col s := b)), col := (col s + 1) mod 128\<rparr>"
  by (simp add: oled_data_def Let_def split: prod.split)

lemma settled_oled_data [simp]: "settled (oled_data b s) = settled s"
  by (simp add: settled_def oled_data_def Let_def split: prod.split)

lemma settled_fold_data [simp]: "settled (fold oled_data bs s) = settled s"
  by (induction bs arbitrary: s) simp_all

lemma settled_cursor [simp]: "settled (s\<lparr>page := p, col := c\<rparr>) = settled s"
  by (simp add: settled_def)

lemma fold_oled_data:
  assumes "col s + length bs \<le> 128" and "addressing s = 2"
  shows "page (fold oled_data bs s) = page s \<and>
    (\<forall>p x. ram (fold oled_data bs s) p x =
      (if p = page s \<and> col s \<le> x \<and> x < col s + length bs then bs ! (x - col s) else ram s p x))"
  using assms
proof (induction bs arbitrary: s)
  case Nil
  then show ?case by auto
next
  case (Cons b bs)
  let ?s = "oled_data b s"
  have p: "page ?s = page s" "addressing ?s = 2"
    and r: "ram ?s p x = (if p = page s \<and> x = col s then b else ram s p x)" for p x
    using Cons.prems(2) by (simp_all add: oled_data_page)
  show ?case
  proof (cases "bs = []")
    case True
    with r p show ?thesis by auto
  next
    case False
    then have c: "col ?s = Suc (col s)"
      using Cons.prems by (cases bs) (simp_all add: oled_data_page)
    then have "col ?s + length bs \<le> 128" using Cons.prems by simp
    from Cons.IH [OF this p(2)] c p r show ?thesis
      by (auto simp: nth_Cons' Suc_le_eq)
  qed
qed

definition glyphs :: "string \<Rightarrow> u8 list" where
  "glyphs str = concat (map (\<lambda>c. font ! glyph_index c) str)"

lemma length_glyphs [simp]: "length (glyphs str) = 8 * length str"
  by (induction str) (simp_all add: glyphs_def)

lemma nth_glyphs:
  "i < length str \<Longrightarrow> j < 8 \<Longrightarrow> glyphs str ! (8 * i + j) = font ! glyph_index (str ! i) ! j"
proof (induction str arbitrary: i)
  case (Cons c str)
  then show ?case by (cases i) (simp_all add: glyphs_def nth_append)
qed simp

text \<open>Sending the glyphs of a text that fits into the row writes it at the cursor and nothing else.\<close>

lemma fold_glyphs:
  assumes "page s = r" and "col s = 8 * c" and "c + length str \<le> 16" and "addressing s = 2"
  defines "t \<equiv> fold oled_data (glyphs str) s"
  shows "shows_text t r c str" and "same_outside r c (length str) s t"
proof -
  have fit: "col s + length (glyphs str) \<le> 128" using assms by simp
  have ram: "ram t p x = (if p = r \<and> 8 * c \<le> x \<and> x < 8 * c + 8 * length str
      then glyphs str ! (x - 8 * c) else ram s p x)" for p x
    using fold_oled_data [OF fit assms(4)] assms(1,2) by (simp add: t_def)
  then show "same_outside r c (length str) s t"
    by (auto simp: same_outside_def algebra_simps)
  show "shows_text t r c str"
    unfolding shows_text_def shows_char_def
  proof (intro allI impI)
    fix i j :: nat
    assume "i < length str" "j < 8"
    then show "ram t r (8 * (c + i) + j) = font ! glyph_index (str ! i) ! j"
      using nth_glyphs [of i str j] by (simp add: ram algebra_simps)
  qed
qed

text \<open>The display after printing \<open>str\<close> at cell \<open>c\<close> of row \<open>r\<close>.\<close>

definition text_at :: "nat \<Rightarrow> nat \<Rightarrow> string \<Rightarrow> oled \<Rightarrow> oled" where
  "text_at r c str s = fold oled_data (glyphs str) (s\<lparr>page := r, col := 8 * c\<rparr>)"

lemma settled_text_at [simp]: "settled (text_at r c str s) = settled s"
  by (simp add: text_at_def)

lemma text_at:
  assumes "c + length str \<le> 16" and "settled s"
  shows "shows_text (text_at r c str s) r c str"
    and "same_outside r c (length str) s (text_at r c str s)"
  using fold_glyphs [of "s\<lparr>page := r, col := 8 * c\<rparr>" r c str] assms
  by (simp_all add: text_at_def same_outside_def settled_def)

lemma same_outside_shows:
  assumes "same_outside r c n s t" and "shows_char s r' c' ch" and "r' \<noteq> r \<or> c' < c \<or> c + n \<le> c'"
  shows "shows_char t r' c' ch"
  unfolding shows_char_def
proof (intro allI impI)
  fix i :: nat
  assume "i < 8"
  with assms(3) have "\<not> (r' = r \<and> 8 * c \<le> 8 * c' + i \<and> 8 * c' + i < 8 * (c + n))" by auto
  with assms(1) have "ram t r' (8 * c' + i) = ram s r' (8 * c' + i)" by (auto simp: same_outside_def)
  with assms(2) \<open>i < 8\<close> show "ram t r' (8 * c' + i) = font ! glyph_index ch ! i"
    by (simp add: shows_char_def)
qed

lemma same_outside_text:
  assumes "same_outside r c n s t" and "shows_text s r' c' str"
    and "r' \<noteq> r \<or> c' + length str \<le> c \<or> c + n \<le> c'"
  shows "shows_text t r' c' str"
  using assms by (auto simp: shows_text_def intro: same_outside_shows)

text \<open>The three position commands select the page and the column of a character cell.\<close>

lemma arity_unat: "arity b \<noteq> 0 \<Longrightarrow> unat b \<in> {32, 33, 34, 38, 39, 41, 42, 129, 141, 163, 168, 211, 213, 217, 218, 219}"
  by (auto simp: arity_def two_byte_commands_def split: if_splits)

lemma oled_command_alone:
  assumes "settled s" and "unat b \<notin> {32, 33, 34, 38, 39, 41, 42, 46, 47, 129, 141, 163, 168, 211, 213, 217, 218, 219}"
  shows "oled_command b s =
     (if 0xB0 \<le> b \<and> b \<le> 0xB7 then s\<lparr>page := unat b - 0xB0\<rparr>
      else if b \<le> 0x0F then s\<lparr>col := col s div 16 * 16 + unat b\<rparr>
      else if 0x10 \<le> b \<and> b \<le> 0x1F then s\<lparr>col := (unat b - 16) * 16 + col s mod 16\<rparr>
      else s)"
proof -
  have "arity b = 0" using assms(2) arity_unat [of b] by blast
  moreover have "b \<noteq> 0x20 \<and> b \<noteq> 0x21 \<and> b \<noteq> 0x22 \<and> b \<noteq> 0x2E \<and> b \<noteq> 0x2F" using assms(2) by auto
  moreover have "s\<lparr>partial := []\<rparr> = s" "addressing s = 2" "partial s = []" using assms(1) by (simp_all add: settled_def)
  ultimately show ?thesis by (simp add: oled_command_def oled_execute_def Let_def)
qed

lemma oled_command_page:
  "0xB0 \<le> unat b \<Longrightarrow> unat b \<le> 0xB7 \<Longrightarrow> settled s \<Longrightarrow>
    oled_command b s = s\<lparr>page := unat b - 0xB0\<rparr>"
  by (subst oled_command_alone) (auto simp: word_le_nat_alt)

lemma oled_command_low:
  "unat b < 16 \<Longrightarrow> settled s \<Longrightarrow> oled_command b s = s\<lparr>col := col s div 16 * 16 + unat b\<rparr>"
  by (subst oled_command_alone) (auto simp: word_le_nat_alt)

lemma oled_command_high:
  "16 \<le> unat b \<Longrightarrow> unat b < 32 \<Longrightarrow> settled s \<Longrightarrow>
    oled_command b s = s\<lparr>col := (unat b - 16) * 16 + col s mod 16\<rparr>"
  by (subst oled_command_alone) (auto simp: word_le_nat_alt)

lemma settled_updates [simp]:
  "settled (s\<lparr>page := p\<rparr>) = settled s" "settled (s\<lparr>col := c\<rparr>) = settled s"
  by (simp_all add: settled_def)

lemma unat_u8_of_u32: "unat (x :: u32) < 256 \<Longrightarrow> unat (ucast x :: u8) = unat x"
  by (simp add: unsigned_ucast_eq take_bit_eq_mod)

lemma nibble: "(x :: u32) AND 0x0f = take_bit 4 x"
  by (simp add: take_bit_eq_mask mask_eq_exp_minus_1)

lemma oled_page:
  assumes "row < 8" and "settled s"
  shows "oled_command (ucast (0xb0 + row :: u32)) s = s\<lparr>page := unat row\<rparr>"
proof -
  have "unat row < 8" using assms(1) by (simp add: word_less_nat_alt)
  then have "unat (0xb0 + row) = 0xb0 + unat row" by (simp add: unat_word_ariths)
  with \<open>unat row < 8\<close> have "unat (ucast (0xb0 + row) :: u8) = 0xb0 + unat row"
    by (simp add: unat_u8_of_u32)
  with \<open>unat row < 8\<close> assms(2) show ?thesis by (simp add: oled_command_page)
qed

lemma oled_column:
  assumes "column < 16" and "settled s"
  shows "oled_command (ucast (0x10 + (drop_bit 4 (8 * column) AND 0x0f) :: u32))
      (oled_command (ucast (0x00 + (8 * column AND 0x0f) :: u32)) s) =
    s\<lparr>col := 8 * unat column\<rparr>"
proof -
  let ?c = "8 * unat column"
  have c: "?c < 128" using assms(1) by (simp add: word_less_nat_alt)
  then have u: "unat (8 * column) = ?c" by (simp add: unat_word_ariths)
  have l: "unat (8 * column AND 0x0f) = ?c mod 16"
    by (simp add: nibble unsigned_take_bit_eq u take_bit_eq_mod [of 4 ?c])
  have d: "unat (drop_bit 4 (8 * column) AND 0x0f) = ?c div 16"
    using c by (simp add: nibble unsigned_take_bit_eq unat_drop_bit_eq u take_bit_nat_eq_self drop_bit_eq_div [of 4 ?c])
  then have "unat (0x10 + (drop_bit 4 (8 * column) AND 0x0f)) = 16 + ?c div 16"
    using c by (simp add: unat_word_ariths)
  with c have h: "unat (ucast (0x10 + (drop_bit 4 (8 * column) AND 0x0f)) :: u8) = 16 + ?c div 16"
    by (simp add: unat_u8_of_u32)
  have l8: "unat (ucast (0x00 + (8 * column AND 0x0f)) :: u8) = ?c mod 16"
    using l by (simp add: unat_u8_of_u32)
  have "oled_command (ucast (0x00 + (8 * column AND 0x0f) :: u32)) s =
      s\<lparr>col := col s div 16 * 16 + ?c mod 16\<rparr>"
    using assms(2) l8 oled_command_low [of "ucast (0x00 + (8 * column AND 0x0f))" s] by simp
  moreover have "oled_command (ucast (0x10 + (drop_bit 4 (8 * column) AND 0x0f) :: u32)) t =
      t\<lparr>col := ?c div 16 * 16 + col t mod 16\<rparr>" if "settled t" for t
    using that h c oled_command_high [of "ucast (0x10 + (drop_bit 4 (8 * column) AND 0x0f))" t] by simp
  moreover have "unat column div 2 * 16 + 8 * unat column mod 16 = 8 * unat column" by presburger
  ultimately show ?thesis using assms(2) by simp
qed

lemma oled_position:
  assumes "column < 16" and "row < 8" and "settled s"
  shows "oled_command (ucast (0x10 + (drop_bit 4 (8 * column) AND 0x0f) :: u32))
      (oled_command (ucast (0x00 + (8 * column AND 0x0f) :: u32))
        (oled_command (ucast (0xb0 + row :: u32)) s)) =
    s\<lparr>page := unat row, col := 8 * unat column\<rparr>"
  using oled_page [OF assms(2,3)] oled_column [OF assms(1), of "s\<lparr>page := unat row\<rparr>"] assms(3)
  by simp

lemma shows_text_snoc:
  assumes "shows_text s r c str" and "shows_char s r (c + length str) ch"
  shows "shows_text s r c (str @ [ch])"
  unfolding shows_text_def
proof (intro allI impI)
  fix i
  assume "i < length (str @ [ch])"
  then consider "i < length str" | "i = length str" by force
  then show "shows_char s r (c + i) ((str @ [ch]) ! i)"
    using assms by cases (simp_all add: shows_text_def nth_append)
qed

section \<open>The interface of the bus\<close>

text \<open>
  What \<open>ssd1306.c\<close> relies on: every two-byte write to the bus reaches the controller and is answered
  with 2.  \<open>ready\<close> is the provider's invariant and \<open>rest\<close> everything of its world that the display
  does not touch.
\<close>

locale oled_bus =
  fixes os :: "('w, call) os"
    and screen :: "'w \<Rightarrow> oled"
    and ready :: "'w \<Rightarrow> bool"
    and rest :: "'w \<Rightarrow> 'r"
    and sfd :: int
  assumes bus_write: "ready w \<Longrightarrow> length bs = 2 \<Longrightarrow>
    \<exists>s w'. os w (Write sfd bs) = ((2, s), w') \<and> ready w' \<and> rest w' = rest w \<and>
      screen w' = oled_write bs (screen w)"
begin

text \<open>\<open>draws m w d s\<close>: running \<open>m\<close> only changes the display, into \<open>s\<close>.\<close>

definition draws :: "('w, daemon, unit) prog \<Rightarrow> 'w \<Rightarrow> daemon \<Rightarrow> oled \<Rightarrow> bool" where
  "draws m w d s \<longleftrightarrow> (\<exists>w'. run_state m (w, d) = ((), (w', d)) \<and> ready w' \<and> rest w' = rest w \<and>
     screen w' = s)"

lemma drawsE:
  assumes "draws m w d s"
  obtains w' where "run_state m (w, d) = ((), (w', d))" "ready w'" "rest w' = rest w" "screen w' = s"
  using assms by (auto simp: draws_def)

lemma draws_command: "ready w \<Longrightarrow> ssd_fd d = sfd \<Longrightarrow>
    draws (send_command os b) w d (oled_command b (screen w))"
  using bus_write [of w "[byte 0, byte b]"]
  by (auto simp: draws_def send_command_def oled_write_def)

lemma draws_command_from: "ready w \<Longrightarrow> ssd_fd d = sfd \<Longrightarrow> screen w = s \<Longrightarrow>
    draws (send_command os b) w d (oled_command b s)"
  using draws_command [of w d b] by simp

lemma byte_modes: "byte 0x40 \<noteq> byte 0"
  by (simp add: byte_def char_of_eq_iff)

lemma draws_data: "ready w \<Longrightarrow> ssd_fd d = sfd \<Longrightarrow>
    draws (send_data os b) w d (oled_data b (screen w))"
  using bus_write [of w "[byte 0x40, byte b]"] byte_modes
  by (auto simp: draws_def send_data_def oled_write_def)

lemma draws_bind:
  assumes "draws m w d s"
    and "\<And>w'. ready w' \<Longrightarrow> rest w' = rest w \<Longrightarrow> screen w' = s \<Longrightarrow> draws n w' d t"
  shows "draws (m \<bind> (\<lambda>_. n)) w d t"
  using assms by (force simp: draws_def)

lemma draws_for_each:
  assumes "\<And>x w'. ready w' \<Longrightarrow> draws (body x) w' d (step x (screen w'))"
  shows "ready w \<Longrightarrow> draws (for_each xs body) w d (fold step xs (screen w))"
proof (induction xs arbitrary: w)
  case Nil
  then show ?case by (simp add: draws_def)
next
  case (Cons x xs)
  have "draws (for_each xs body) w' d (fold step xs (step x (screen w)))"
    if "ready w'" "screen w' = step x (screen w)" for w'
    using Cons.IH [OF that(1)] that(2) by simp
  with assms [OF Cons.prems] show ?case
    by (auto intro: draws_bind)
qed

lemma draws_putc:
  assumes "ready w" and "ssd_fd d = sfd"
  shows "draws (ssd1306_putc os c) w d (fold oled_data (font ! glyph_index c) (screen w))"
proof -
  have "draws (ssd1306_putc os c) w d
      (fold (\<lambda>i. oled_data (font ! glyph_index c ! i)) [0..<8] (screen w))"
    unfolding ssd1306_putc_def using assms
    by (intro draws_for_each draws_data)
  also have "fold (\<lambda>i. oled_data (font ! glyph_index c ! i)) [0..<8] =
      fold oled_data (map ((!) (font ! glyph_index c)) [0..<8])"
    by (simp add: fold_map comp_def)
  also have "map ((!) (font ! glyph_index c)) [0..<8] = font ! glyph_index c"
    by (rule nth_equalityI) simp_all
  finally show ?thesis .
qed

lemma fold_putc: "fold (\<lambda>c. fold oled_data (font ! glyph_index c)) str s = fold oled_data (glyphs str) s"
  by (induction str arbitrary: s) (simp_all add: glyphs_def)

lemma draws_puts:
  assumes "ready w" and "ssd_fd d = sfd"
  shows "draws (ssd1306_puts os str) w d (fold oled_data (glyphs (c_str str)) (screen w))"
  unfolding ssd1306_puts_def fold_putc [symmetric] using assms
  by (intro draws_for_each draws_putc)

lemma draws_set_position:
  assumes "ready w" and "ssd_fd d = sfd" and "column < 16" and "row < 8" and "settled (screen w)"
  shows "draws (ssd1306_set_position os column row) w d
    ((screen w)\<lparr>page := unat row, col := 8 * unat column\<rparr>)"
  unfolding ssd1306_set_position_def oled_position [OF assms(3-5), symmetric]
  using assms(1,2) by (auto intro!: draws_bind draws_command_from simp del: add_0)

text \<open>Positioning and printing a text that fits writes it there and changes nothing else.\<close>

lemma draws_text:
  assumes "ready w" and "ssd_fd d = sfd" and "column < 16" and "row < 8"
    and "settled (screen w)" and "NUL \<notin> set str" and "screen w = s"
  shows "draws (do { ssd1306_set_position os column row; ssd1306_puts os str }) w d
    (text_at (unat row) (unat column) str s)"
proof -
  let ?s = "s\<lparr>page := unat row, col := 8 * unat column\<rparr>"
  have "draws (ssd1306_puts os str) w' d (text_at (unat row) (unat column) str s)"
    if "ready w'" "screen w' = ?s" for w'
    using draws_puts [OF that(1) assms(2), of str] assms(6) that(2) by (simp add: text_at_def)
  moreover have "draws (ssd1306_set_position os column row) w d ?s"
    using draws_set_position [OF assms(1-5)] assms(7) by simp
  ultimately show ?thesis by (auto intro: draws_bind)
qed

lemma draws_text_then:
  assumes "ready w" and "ssd_fd d = sfd" and "row < 8" and "settled s" and "NUL \<notin> set str"
    and "screen w = s"
    and "\<And>w'. ready w' \<Longrightarrow> screen w' = text_at (unat row) 0 str s \<Longrightarrow> draws k w' d t"
  shows "draws (do { ssd1306_set_position os 0 row; ssd1306_puts os str; k }) w d t"
proof -
  have "draws (do { ssd1306_set_position os 0 row; ssd1306_puts os str }) w d
      (text_at (unat row) 0 str s)"
    using draws_text [of w d 0 row str s] assms(1-6) by simp
  from draws_bind [OF this, of k t] assms(7) show ?thesis by simp
qed

lemma draws_for_each_kept:
  assumes "\<And>x w'. x \<in> set xs \<Longrightarrow> ready w' \<Longrightarrow> P (screen w') \<Longrightarrow> draws (body x) w' d (step x (screen w'))"
    and "\<And>x s. x \<in> set xs \<Longrightarrow> P s \<Longrightarrow> P (step x s)"
  shows "ready w \<Longrightarrow> P (screen w) \<Longrightarrow> draws (for_each xs body) w d (fold step xs (screen w))"
  using assms
proof (induction xs arbitrary: w)
  case Nil
  then show ?case by (simp add: draws_def)
next
  case (Cons x xs)
  have "draws (for_each xs body) w' d (fold step xs (step x (screen w)))"
    if "ready w'" "screen w' = step x (screen w)" for w'
    using Cons.IH [OF that(1)] Cons.prems(2,3,4) that(2) by simp
  with Cons.prems(3) [of x w] Cons.prems(1,2) show ?case by (auto intro: draws_bind)
qed

end

end
