(* ===== verification/Daemon_Screen.thy ===== *)
theory Daemon_Screen
  imports Ssd1306
begin

text \<open>
  The screen module \<^verbatim>\<open>src/07_miniproj/daemon/screen.c\<close>, and what a refresh puts on the
  display, proved for any system that provides the attribute files and the display bus.
\<close>

section \<open>screen.c\<close>

definition screen_init :: "('w, call) os \<Rightarrow> ('w, daemon, unit) prog" where
  "screen_init os = do {
     _ \<leftarrow> ssd1306_init os;
     ssd1306_clear_display os;
     ssd1306_set_position os 0 0;
     ssd1306_puts os ''CSEL1a - SP.07'';
     ssd1306_set_position os 0 1;
     ssd1306_puts os ''  Demo - SW'';
     ssd1306_set_position os 0 2;
     ssd1306_puts os ''--------------'';
     ssd1306_set_position os 0 3;
     ssd1306_puts os ''Mode: Unknown'';
     ssd1306_set_position os 0 4;
     ssd1306_puts os ''--------------'';
     ssd1306_set_position os 0 5;
     ssd1306_puts os (''Temp: xx'' @ [CHR 0x27] @ ''C'');
     ssd1306_set_position os 0 6;
     ssd1306_puts os ''Freq: xxHz'' }"

text \<open>The texts of a refresh; \<open>snprintf\<close> keeps at most 19 characters of each.\<close>

definition mode_line :: "bool \<Rightarrow> string" where
  "mode_line manual = (if manual then ''Mode: Manual '' else ''Mode: Auto   '')"

definition temp_line :: "int \<Rightarrow> string" where
  "temp_line temp_mc =
     (if temp_mc \<ge> 0 then take 19 (''Temp: '' @ fmt_d (cdiv temp_mc 1000) @ [CHR 0x27] @ ''C  '')
      else ''Temp: --'' @ [CHR 0x27] @ ''C  '')"

definition freq_text :: "int \<Rightarrow> string" where
  "freq_text freq = take 19 (fmt_d freq @ ''Hz'')"

definition screen_refresh :: "('w, call) os \<Rightarrow> ('w, daemon, unit) prog" where
  "screen_refresh os = do {
     freq \<leftarrow> fan_read_frequency os;
     temp_mc \<leftarrow> fan_get_cpu_temp os;
     manual \<leftarrow> fan_is_manual_mode;
     ssd1306_set_position os 0 3;
     ssd1306_puts os (mode_line manual);
     ssd1306_set_position os 0 5;
     ssd1306_puts os (temp_line temp_mc);
     ssd1306_set_position os 0 6;
     ssd1306_puts os ''Freq: '';
     ssd1306_puts os (freq_text freq) }"

section \<open>What a refresh shows\<close>

lemma NUL_free_lines [simp]:
  "NUL \<notin> set (mode_line m)" "NUL \<notin> set (temp_line t)" "NUL \<notin> set (freq_text f)"
  using fmt_d_no_NUL
  by (auto simp: mode_line_def temp_line_def freq_text_def dest!: in_set_takeD)

lemma length_mode_line [simp]: "length (mode_line m) = 13"
  by (simp add: mode_line_def)

lemma length_fmt_d_nonneg: "0 \<le> i \<Longrightarrow> i < 10 ^ Suc k \<Longrightarrow> length (fmt_d i) \<le> Suc k"
  using length_fmt_u_le [of "nat i" k] by (simp add: fmt_d_def nat_less_iff)

lemma length_temp_line: "t < 1000000 \<Longrightarrow> length (temp_line t) \<le> 13"
proof (cases "0 \<le> t")
  case True
  assume "t < 1000000"
  with True have "length (fmt_d (t div 1000)) \<le> 3"
    using length_fmt_d_nonneg [of "t div 1000" 2] by simp
  with True show ?thesis by (simp add: temp_line_def cdiv_nonneg)
qed (simp add: temp_line_def)

lemma length_freq_text: "0 \<le> f \<Longrightarrow> f < 100000000 \<Longrightarrow> length (freq_text f) \<le> 10"
  using length_fmt_d_nonneg [of f 7] by (simp add: freq_text_def)

lemma puts_append: "NUL \<notin> set a \<Longrightarrow> NUL \<notin> set b \<Longrightarrow>
    do { ssd1306_puts os a; ssd1306_puts os b } = ssd1306_puts os (a @ b)"
  by (simp add: ssd1306_puts_def for_each_append)

text \<open>The display after a refresh, compared with the display before.\<close>

definition refreshed :: "bool \<Rightarrow> int \<Rightarrow> int \<Rightarrow> oled \<Rightarrow> oled \<Rightarrow> bool" where
  "refreshed manual temp_mc freq s t \<longleftrightarrow>
     shows_text t 3 0 (mode_line manual) \<and>
     shows_text t 5 0 (temp_line temp_mc) \<and>
     shows_text t 6 0 (''Freq: '' @ freq_text freq) \<and>
     (\<forall>c ch. 6 + length (freq_text freq) \<le> c \<longrightarrow> shows_char s 6 c ch \<longrightarrow> shows_char t 6 c ch)"

locale fan_screen =
  fan_sysfs os mode freq temp ok mfd ffd tfd +
  oled_bus os screen ok "\<lambda>w. (mode w, freq w, temp w)" sfd
  for os :: "('w, call) os" and mode and freq :: "'w \<Rightarrow> u32" and temp ok mfd ffd tfd screen sfd
begin

definition refresh_oled :: "bool \<Rightarrow> int \<Rightarrow> int \<Rightarrow> oled \<Rightarrow> oled" where
  "refresh_oled manual temp_mc f s =
     text_at 6 0 (''Freq: '' @ freq_text f)
       (text_at 5 0 (temp_line temp_mc) (text_at 3 0 (mode_line manual) s))"

lemma refresh_oled_refreshed:
  assumes "temp_mc < 1000000" and "0 \<le> f" and "f < 100000000" and "settled s"
  shows "refreshed manual temp_mc f s (refresh_oled manual temp_mc f s)"
    and "settled (refresh_oled manual temp_mc f s)"
proof -
  let ?s3 = "text_at 3 0 (mode_line manual) s"
  let ?s5 = "text_at 5 0 (temp_line temp_mc) ?s3"
  let ?line = "''Freq: '' @ freq_text f"
  let ?s6 = "text_at 6 0 ?line ?s5"
  have len: "0 + length (mode_line manual) \<le> 16" "0 + length (temp_line temp_mc) \<le> 16"
    "0 + length ?line \<le> 16"
    using length_temp_line [OF assms(1)] length_freq_text [OF assms(2,3)] by simp_all
  have st: "settled ?s3" "settled ?s5" using assms(4) by simp_all
  note t3 = text_at [OF len(1) assms(4), of 3] and t5 = text_at [OF len(2) st(1), of 5]
    and t6 = text_at [OF len(3) st(2), of 6]
  have "shows_text ?s6 3 0 (mode_line manual)"
    by (rule same_outside_text [OF t6(2)], rule same_outside_text [OF t5(2) t3(1)]) simp_all
  moreover have "shows_text ?s6 5 0 (temp_line temp_mc)"
    by (rule same_outside_text [OF t6(2) t5(1)]) simp
  moreover have "shows_char ?s6 6 c ch" if "6 + length (freq_text f) \<le> c" "shows_char s 6 c ch" for c ch
  proof -
    have "shows_char ?s5 6 c ch"
      by (rule same_outside_shows [OF t5(2)], rule same_outside_shows [OF t3(2) that(2)]) simp_all
    from same_outside_shows [OF t6(2) this] that(1) show ?thesis by simp
  qed
  ultimately show "refreshed manual temp_mc f s (refresh_oled manual temp_mc f s)"
    using t6(1) by (simp add: refreshed_def refresh_oled_def)
  show "settled (refresh_oled manual temp_mc f s)"
    using assms(4) by (simp add: refresh_oled_def)
qed

lemma run_screen_refresh:
  assumes "synced w d" and "ssd_fd d = sfd" and "settled (screen w)"
    and "freq w < 100000000" and "\<And>t. temp w = Some t \<Longrightarrow> t < 1000000"
  obtains w' where "run_state (screen_refresh os) (w, d) = ((), (w', d))" and "synced w' d"
    and "mode w' = mode w" and "freq w' = freq w" and "temp w' = temp w"
    and "refreshed (mode w) (case temp w of Some t \<Rightarrow> t | None \<Rightarrow> -1) (uint (freq w)) (screen w) (screen w')"
    and "settled (screen w')"
proof -
  let ?t = "case temp w of Some t \<Rightarrow> t | None \<Rightarrow> -1" and ?f = "uint (freq w)"
  let ?draw = "do {
     ssd1306_set_position os 0 3; ssd1306_puts os (mode_line (mode w));
     ssd1306_set_position os 0 5; ssd1306_puts os (temp_line ?t);
     ssd1306_set_position os 0 6; ssd1306_puts os (''Freq: '' @ freq_text ?f) }"
  have w: "ok w" "fds d" "fan_manual_mode d = mode w" using assms(1) by (auto simp: synced_def)
  have f: "0 \<le> ?f" "?f < 100000000" using assms(4) by (simp_all add: word_less_def)
  have t: "?t < 1000000" using assms(5) by (cases "temp w") auto
  have len: "length (temp_line ?t) \<le> 16" "length (freq_text ?f) \<le> 10"
    using length_temp_line [OF t] length_freq_text [OF f] by simp_all
  have refresh: "run_state (screen_refresh os) (w, d) = run_state ?draw (w, d)"
    using w f by (simp add: screen_refresh_def run_read_frequency run_get_cpu_temp
        fan_is_manual_mode_def s32_range_def puts_append)
  have "draws ?draw w d (refresh_oled (mode w) ?t ?f (screen w))"
    unfolding refresh_oled_def using w(1) assms(2,3) len
    by (intro draws_text_then draws_text [of _ d 0 6, simplified]) (simp_all add: text_at)
  then obtain w' where w': "run_state ?draw (w, d) = ((), (w', d))" "ok w'"
      "mode w' = mode w" "freq w' = freq w" "temp w' = temp w"
      "screen w' = refresh_oled (mode w) ?t ?f (screen w)"
    by (auto elim: drawsE)
  have "synced w' d" using assms(1) w' by (auto simp: synced_def)
  with that refresh w' refresh_oled_refreshed [OF t f assms(3), of "mode w"]
  show thesis by simp
qed

end

end
