(* ===== verification/Daemon_Gpios.thy ===== *)
theory Daemon_Gpios
  imports Daemon_Fan
begin

text \<open>
  The GPIO module \<^verbatim>\<open>src/07_miniproj/daemon/gpios.c\<close>: export and configuration of the power LED
  and the three buttons over sysfs, the LED and the button reads.
\<close>

section \<open>gpios.h\<close>

definition GPIO_EXPORT :: string where "GPIO_EXPORT = ''/sys/class/gpio/export''"
definition GPIO_UNEXPORT :: string where "GPIO_UNEXPORT = ''/sys/class/gpio/unexport''"
definition GPIO_DIR :: string where "GPIO_DIR = ''/sys/class/gpio''"

definition BUTTON_GPIOS :: "int list" where "BUTTON_GPIOS = [0, 2, 3]"

abbreviation (input) NUM_BUTTONS :: nat where "NUM_BUTTONS \<equiv> 3"
abbreviation (input) BUTTON3_GPIO :: int where "BUTTON3_GPIO \<equiv> 3"
abbreviation (input) POWER_LED_GPIO :: int where "POWER_LED_GPIO \<equiv> 362"

definition gpio_path :: "int \<Rightarrow> string \<Rightarrow> string" where
  "gpio_path n attr = take 63 (GPIO_DIR @ ''/gpio'' @ fmt_d n @ ''/'' @ attr)"

section \<open>gpios.c\<close>

text \<open>\<open>snprintf(value, sizeof(value), "%d", n); write(f, value, strlen(value))\<close>.\<close>

definition write_number :: "('w, call) os \<Rightarrow> int \<Rightarrow> int \<Rightarrow> ('w, 'g, unit) prog" where
  "write_number os f n = do { _ \<leftarrow> sysi os (Write f (take 15 (fmt_d n))); return () }"

text \<open>\<open>f = open(path, O_WRONLY); if (f >= 0) { body; close(f); }\<close>.\<close>

definition with_file :: "('w, call) os \<Rightarrow> string \<Rightarrow> (int \<Rightarrow> ('w, 'g, unit) prog) \<Rightarrow> ('w, 'g, unit) prog" where
  "with_file os path body = do {
     f \<leftarrow> sysi os (Open path [O_WRONLY]);
     if f \<ge> 0 then do { body f; _ \<leftarrow> sysi os (Close f); return () }
     else return () }"

definition write_text :: "('w, call) os \<Rightarrow> string \<Rightarrow> int \<Rightarrow> ('w, 'g, unit) prog" where
  "write_text os text f = do { _ \<leftarrow> sysi os (Write f text); return () }"

definition gpios_init :: "('w, call) os \<Rightarrow> ('w, daemon, unit) prog" where
  "gpios_init os = do {
     with_file os GPIO_UNEXPORT (\<lambda>f. do {
       write_number os f POWER_LED_GPIO;
       for_each [0..<NUM_BUTTONS] (\<lambda>i. write_number os f (BUTTON_GPIOS ! i)) });
     with_file os GPIO_EXPORT (\<lambda>f. do {
       write_number os f POWER_LED_GPIO;
       for_each [0..<NUM_BUTTONS] (\<lambda>i. write_number os f (BUTTON_GPIOS ! i));
       write_number os f BUTTON3_GPIO });
     with_file os (gpio_path POWER_LED_GPIO ''direction'') (write_text os ''out'');
     fd \<leftarrow> sysi os (Open (gpio_path POWER_LED_GPIO ''value'') [O_WRONLY]);
     modg (\<lambda>d. d\<lparr>led_fd := fd\<rparr>);
     for_each [0..<NUM_BUTTONS] (\<lambda>i. do {
       with_file os (gpio_path (BUTTON_GPIOS ! i) ''direction'') (write_text os ''in'');
       with_file os (gpio_path (BUTTON_GPIOS ! i) ''edge'') (write_text os ''both'');
       fd \<leftarrow> sysi os (Open (gpio_path (BUTTON_GPIOS ! i) ''value'') [O_RDONLY, O_NONBLOCK]);
       modg (\<lambda>d. d\<lparr>button_fds := (button_fds d)[i := fd]\<rparr>) });
     for_each [0..<NUM_BUTTONS] (\<lambda>i. do {
       _ \<leftarrow> sysi os (Uninit 8);
       d \<leftarrow> getg;
       _ \<leftarrow> sysi os (Lseek (button_fds d ! i) 0);
       _ \<leftarrow> sysi os (Read (button_fds d ! i) 8);
       return () }) }"

definition set_led :: "('w, call) os \<Rightarrow> bool \<Rightarrow> ('w, daemon, unit) prog" where
  "set_led os on = do {
     d \<leftarrow> getg;
     if led_fd d \<ge> 0 then do {
       _ \<leftarrow> sysi os (Write (led_fd d) (if on then ''1'' else ''0''));
       return () }
     else return () }"

text \<open>When the read fails, the tested byte is whatever the array held.\<close>

definition is_button_pressed :: "('w, call) os \<Rightarrow> int \<Rightarrow> ('w, daemon, bool) prog" where
  "is_button_pressed os fd = do {
     junk \<leftarrow> sys os (Uninit 4);
     _ \<leftarrow> sysi os (Lseek fd 0);
     r \<leftarrow> sys os (Read fd 4);
     return (overlay (rd_bytes 4 r) (sized 4 (snd junk)) ! 0 = CHR ''1'') }"

section \<open>Facts about the calls\<close>

text \<open>
  The file descriptors a history of calls leaves open: the answers of the successful opens, minus the
  closed ones.
\<close>

fun open_fds :: "call history \<Rightarrow> int list \<Rightarrow> int list" where
  "open_fds [] fds = fds"
| "open_fds ((Open _ _, r) # h) fds = open_fds h (if fst r \<ge> 0 then fst r # fds else fds)"
| "open_fds ((Close fd, _) # h) fds = open_fds h (remove1 fd fds)"
| "open_fds (_ # h) fds = open_fds h fds"

lemma open_fds_append: "open_fds (h @ h') fds = open_fds h' (open_fds h fds)"
  by (induction h fds rule: open_fds.induct) simp_all

abbreviation left_open :: "call history \<Rightarrow> int list" where
  "left_open h \<equiv> open_fds h []"

text \<open>The view of a program that opens and closes its files in pairs.\<close>

definition files :: "call history \<times> 'g \<Rightarrow> int list \<times> 'g" where
  "files s = (left_open (fst s), snd s)"

lemma keeps_write_number [keeps_intros]: "keeps files (write_number (recorder e) f n)"
  unfolding write_number_def by (intro keeps_intros) (simp add: files_def open_fds_append)

lemma keeps_write_text [keeps_intros]: "keeps files (write_text (recorder e) t f)"
  unfolding write_text_def by (intro keeps_intros) (simp add: files_def open_fds_append)

lemma wp_with_file:
  assumes "\<And>f. keeps files (body f)"
    and "\<And>h'. left_open h' = left_open h \<Longrightarrow> Q () (h', g)"
  shows "wp (with_file (recorder e) p body) (h, g) Q"
  unfolding with_file_def
  by (auto simp: wp_simps open_fds_append files_def
      intro!: wp_sysi_any keeps_wp [OF assms(1)] assms(2))

section \<open>Properties\<close>

text \<open>Whatever the environment answers, the initialisation leaves no configuration file open:
  the descriptors it has opened and not closed are the usable ones among the LED's and the three
  buttons', and it stores nothing else.\<close>

theorem gpios_init_descriptors:
  "wp (gpios_init (recorder e)) ([], initial_daemon) (\<lambda>_ (h, d).
     length (button_fds d) = 3 \<and>
     left_open h = rev (filter (\<lambda>fd. 0 \<le> fd) (led_fd d # button_fds d)) \<and>
     d = initial_daemon\<lparr>led_fd := led_fd d, button_fds := button_fds d\<rparr>)"
  unfolding gpios_init_def
  by (auto simp: wp_simps open_fds_append initial_daemon_def upt_rec
      intro!: wp_sysi_any wp_with_file keeps_intros)

end
