(* ===== verification/Fan_Protocol.thy ===== *)
theory Fan_Protocol
  imports Posix
begin

text \<open>
  The messages of \<^verbatim>\<open>src/07_miniproj/common/fan_socket.h\<close>, shared by the daemon and the
  command-line client: the commands, the two structures, and their bytes on the socket (two
  little-endian 32-bit fields each; an \<open>enum\<close> is read as unsigned).
\<close>

definition FAN_SOCKET_PATH :: string where
  "FAN_SOCKET_PATH = ''/var/run/fan-controller.sock''"

datatype fan_cmd =
    CMD_GET_MODE
  | CMD_SET_MODE
  | CMD_GET_FREQUENCY
  | CMD_SET_FREQUENCY
  | CMD_GET_TEMP

fun cmd_code :: "fan_cmd \<Rightarrow> int" where
  "cmd_code CMD_GET_MODE = 0"
| "cmd_code CMD_SET_MODE = 1"
| "cmd_code CMD_GET_FREQUENCY = 2"
| "cmd_code CMD_SET_FREQUENCY = 3"
| "cmd_code CMD_GET_TEMP = 4"

record fan_request =
  rq_cmd :: int
  rq_value :: int

record fan_response =
  rs_status :: int
  rs_value :: int

definition encode_request :: "fan_request \<Rightarrow> string" where
  "encode_request r = le32 (rq_cmd r) @ le32 (rq_value r)"

definition decode_request :: "string \<Rightarrow> fan_request" where
  "decode_request b = \<lparr>rq_cmd = int (le32_val b), rq_value = le32_int (drop 4 b)\<rparr>"

definition encode_response :: "fan_response \<Rightarrow> string" where
  "encode_response r = le32 (rs_status r) @ le32 (rs_value r)"

definition decode_response :: "string \<Rightarrow> fan_response" where
  "decode_response b = \<lparr>rs_status = le32_int b, rs_value = le32_int (drop 4 b)\<rparr>"

lemma length_encode [simp]:
  "length (encode_request r) = 8" "length (encode_response p) = 8"
  by (simp_all add: encode_request_def encode_response_def)

lemma decode_encode_response:
  "s32_range (rs_status r) \<Longrightarrow> s32_range (rs_value r) \<Longrightarrow> decode_response (encode_response r) = r"
  by (simp add: decode_response_def encode_response_def)

lemma decode_encode_request:
  "0 \<le> rq_cmd r \<Longrightarrow> rq_cmd r < 2 ^ 32 \<Longrightarrow> s32_range (rq_value r) \<Longrightarrow>
    decode_request (encode_request r) = r"
  by (simp add: decode_request_def encode_request_def)

text \<open>A full-size message overwrites the whole zeroed structure it is received into.\<close>

lemma overlay_full [simp]: "length b = n \<Longrightarrow> overlay b (replicate n NUL) = b"
  by (simp add: overlay_def)

lemma cmd_code_range: "0 \<le> cmd_code c" "cmd_code c < 2 ^ 32"
  by (cases c; simp)+

lemma cmd_code_inject [simp]: "cmd_code c = cmd_code c' \<longleftrightarrow> c = c'"
  by (cases c; cases c'; simp)

text \<open>Both directions of the socket: for every command and every 32-bit value, the daemon
  decodes the eight bytes the client encodes, and the client those of the daemon.\<close>

theorem messages_round_trip:
  assumes "s32_range v" and "s32_range status"
  shows "decode_request (encode_request \<lparr>rq_cmd = cmd_code c, rq_value = v\<rparr>) =
      \<lparr>rq_cmd = cmd_code c, rq_value = v\<rparr> \<and>
    decode_response (encode_response \<lparr>rs_status = status, rs_value = v\<rparr>) =
      \<lparr>rs_status = status, rs_value = v\<rparr> \<and>
    length (encode_request \<lparr>rq_cmd = cmd_code c, rq_value = v\<rparr>) = 8 \<and>
    length (encode_response \<lparr>rs_status = status, rs_value = v\<rparr>) = 8"
  using assms cmd_code_range [of c] by (simp add: decode_encode_request decode_encode_response)

theorem messages_round_trip_witness:
  "decode_response (encode_response \<lparr>rs_status = -34, rs_value = 0\<rparr>) = \<lparr>rs_status = -34, rs_value = 0\<rparr>"
  using messages_round_trip [of 0 "-34"] by (simp add: s32_range_def)

end
