(* ===== verification/Daemon_Socket.thy ===== *)
theory Daemon_Socket
  imports Daemon_Fan Fan_Protocol
begin

text \<open>
  The socket module \<^verbatim>\<open>src/07_miniproj/daemon/socket.c\<close>: the server socket, the requests and
  their responses.  Log messages are not modelled.
\<close>

section \<open>socket.c\<close>

definition socket_init :: "('w, call) os \<Rightarrow> ('w, daemon, int) prog" where
  "socket_init os = do {
     fd \<leftarrow> sysi os Socket;
     modg (\<lambda>d. d\<lparr>server_sock_fd := fd\<rparr>);
     if fd < 0 then return (-1) else do {
     _ \<leftarrow> sysi os (Unlink FAN_SOCKET_PATH);
     r \<leftarrow> sysi os (Bind fd FAN_SOCKET_PATH);
     if r < 0 then return (-1) else do {
     r \<leftarrow> sysi os (Listen fd 8);
     if r < 0 then return (-1) else return fd }}}"

definition socket_accept_client :: "('w, call) os \<Rightarrow> ('w, daemon, int) prog" where
  "socket_accept_client os = do {
     d \<leftarrow> getg;
     client_fd \<leftarrow> sysi os (Accept (server_sock_fd d));
     if client_fd < 0 then return (-1) else return client_fd }"

text \<open>The \<open>switch\<close> on the command of a complete request.\<close>

definition handle_request :: "('w, call) os \<Rightarrow> fan_request \<Rightarrow> ('w, daemon, fan_response) prog" where
  "handle_request os req =
     (if rq_cmd req = cmd_code CMD_GET_MODE then do {
        manual \<leftarrow> fan_is_manual_mode;
        return \<lparr>rs_status = 0, rs_value = (if manual then 1 else 0)\<rparr> }
      else if rq_cmd req = cmd_code CMD_SET_MODE then do {
        manual \<leftarrow> fan_is_manual_mode;
        (if manual \<noteq> (rq_value req \<noteq> 0) then fan_toggle_mode os else return ());
        return \<lparr>rs_status = 0, rs_value = 0\<rparr> }
      else if rq_cmd req = cmd_code CMD_GET_FREQUENCY then do {
        freq \<leftarrow> fan_read_frequency os;
        return \<lparr>rs_status = (if freq < 0 then freq else 0), rs_value = freq\<rparr> }
      else if rq_cmd req = cmd_code CMD_SET_FREQUENCY then do {
        manual \<leftarrow> fan_is_manual_mode;
        if \<not> manual then return \<lparr>rs_status = - EPERM, rs_value = 0\<rparr>
        else if rq_value req < FAN_FREQUENCY_MIN \<or> rq_value req > FAN_FREQUENCY_MAX then
          return \<lparr>rs_status = - ERANGE, rs_value = 0\<rparr>
        else do {
          fan_set_frequency os (rq_value req);
          return \<lparr>rs_status = 0, rs_value = 0\<rparr> } }
      else if rq_cmd req = cmd_code CMD_GET_TEMP then do {
        temp_mc \<leftarrow> fan_get_cpu_temp os;
        return \<lparr>rs_status = 0, rs_value = cdiv temp_mc 1000\<rparr> }
      else return \<lparr>rs_status = - ENOSYS, rs_value = 0\<rparr>)"

definition socket_handle_client :: "('w, call) os \<Rightarrow> int \<Rightarrow> ('w, daemon, unit) prog" where
  "socket_handle_client os client_fd = do {
     r \<leftarrow> sys os (Recv client_fd 8);
     let req = decode_request (overlay (rd_bytes 8 r) (replicate 8 NUL));
     resp \<leftarrow> (if fst r \<noteq> 8 then return \<lparr>rs_status = - EINVAL, rs_value = 0\<rparr>
             else handle_request os req);
     _ \<leftarrow> sysi os (Send client_fd (encode_response resp));
     _ \<leftarrow> sysi os (Close client_fd);
     return () }"

section \<open>The calls a request makes\<close>

fun attribute_call :: "call \<Rightarrow> bool" where
  "attribute_call (Lseek _ _) = True"
| "attribute_call (Read _ _) = True"
| "attribute_call (Write _ _) = True"
| "attribute_call (Uninit _) = True"
| "attribute_call _ = False"

lemma wp_read_frequency [wp_intros]:
  "(\<And>v cs. list_all (attribute_call \<circ> fst) cs \<Longrightarrow> Q v (h @ cs, d)) \<Longrightarrow>
    wp (fan_read_frequency (recorder e)) (h, d) Q"
  by (auto simp: fan_read_frequency_def wp_simps intro!: wp_sysi_any wp_sys_any)

lemma wp_get_cpu_temp [wp_intros]:
  "(\<And>v cs. list_all (attribute_call \<circ> fst) cs \<Longrightarrow> Q v (h @ cs, d)) \<Longrightarrow>
    wp (fan_get_cpu_temp (recorder e)) (h, d) Q"
  by (auto simp: fan_get_cpu_temp_def wp_simps intro!: wp_sysi_any wp_sys_any)

lemma wp_toggle_mode [wp_intros]:
  "(\<And>cs. list_all (attribute_call \<circ> fst) cs \<Longrightarrow>
      Q () (h @ cs, d\<lparr>fan_manual_mode := \<not> fan_manual_mode d\<rparr>)) \<Longrightarrow>
    wp (fan_toggle_mode (recorder e)) (h, d) Q"
  by (auto simp: fan_toggle_mode_def wp_simps intro!: wp_sysi_any wp_sys_any)

lemma wp_set_frequency [wp_intros]:
  "(\<And>cs. list_all (attribute_call \<circ> fst) cs \<Longrightarrow> Q () (h @ cs, d)) \<Longrightarrow>
    wp (fan_set_frequency (recorder e) v) (h, d) Q"
  by (auto simp: fan_set_frequency_def wp_simps intro!: wp_sysi_any wp_sys_any)

text \<open>A request touches the attribute files only, and of the daemon's state only the mode flag.\<close>

lemma wp_handle_request:
  "(\<And>resp cs m. list_all (attribute_call \<circ> fst) cs \<Longrightarrow>
      Q resp (h @ cs, d\<lparr>fan_manual_mode := m\<rparr>)) \<Longrightarrow>
    wp (handle_request (recorder e) req) (h, d) Q"
proof -
  assume Q: "\<And>resp cs m. list_all (attribute_call \<circ> fst) cs \<Longrightarrow>
      Q resp (h @ cs, d\<lparr>fan_manual_mode := m\<rparr>)"
  have Q0: "Q resp (h @ cs, d)" if "list_all (attribute_call \<circ> fst) cs" for resp cs
    using Q [OF that, of resp "fan_manual_mode d"] by simp
  show ?thesis
    using Q0 [of "[]"]
    by (auto simp: handle_request_def fan_is_manual_mode_def wp_simps intro!: wp_intros Q Q0)
qed

section \<open>The contract of a request\<close>

text \<open>
  What a request promises, in terms of the device alone: the response, and the mode and frequency
  afterwards.  A temperature that cannot be read is answered as 0 degrees, with success.
\<close>

definition request_spec ::
    "bool \<Rightarrow> u32 \<Rightarrow> int option \<Rightarrow> fan_request \<Rightarrow> fan_response \<times> bool \<times> u32" where
  "request_spec m f t req =
     (let v = rq_value req in
      if rq_cmd req = cmd_code CMD_GET_MODE then
        (\<lparr>rs_status = 0, rs_value = (if m then 1 else 0)\<rparr>, m, f)
      else if rq_cmd req = cmd_code CMD_SET_MODE then
        (\<lparr>rs_status = 0, rs_value = 0\<rparr>, v \<noteq> 0, f)
      else if rq_cmd req = cmd_code CMD_GET_FREQUENCY then
        (\<lparr>rs_status = 0, rs_value = uint f\<rparr>, m, f)
      else if rq_cmd req = cmd_code CMD_SET_FREQUENCY then
        (if \<not> m then (\<lparr>rs_status = - EPERM, rs_value = 0\<rparr>, m, f)
         else if v < FAN_FREQUENCY_MIN \<or> v > FAN_FREQUENCY_MAX then
           (\<lparr>rs_status = - ERANGE, rs_value = 0\<rparr>, m, f)
         else (\<lparr>rs_status = 0, rs_value = 0\<rparr>, m, of_int v))
      else if rq_cmd req = cmd_code CMD_GET_TEMP then
        (\<lparr>rs_status = 0, rs_value = (case t of Some t \<Rightarrow> cdiv t 1000 | None \<Rightarrow> 0)\<rparr>, m, f)
      else (\<lparr>rs_status = - ENOSYS, rs_value = 0\<rparr>, m, f))"

context fan_sysfs
begin

lemma fds_mode [simp]: "fds (d\<lparr>fan_manual_mode := m\<rparr>) = fds d"
  by (simp add: fds_def)

definition served :: "fan_request \<Rightarrow> 'w \<Rightarrow> daemon \<Rightarrow> bool" where
  "served req w d \<longleftrightarrow> (\<exists>resp w' m.
     run_state (handle_request os req) (w, d) = (resp, (w', d\<lparr>fan_manual_mode := m\<rparr>)) \<and>
     synced w' (d\<lparr>fan_manual_mode := m\<rparr>) \<and> temp w' = temp w \<and>
     (resp, mode w', freq w') = request_spec (mode w) (freq w) (temp w) req)"

lemma served_unchanged:
  assumes "synced w d" and "run_state (handle_request os req) (w, d) = (resp, (w, d))"
    and "(resp, mode w, freq w) = request_spec (mode w) (freq w) (temp w) req"
  shows "served req w d"
  unfolding served_def using assms by (intro exI [of _ resp] exI [of _ w] exI [of _ "mode w"])
    (auto simp: synced_def)

lemma served_set_mode:
  assumes "synced w d" and "rq_cmd req = cmd_code CMD_SET_MODE"
  shows "served req w d"
proof (cases "fan_manual_mode d = (rq_value req \<noteq> 0)")
  case True
  with assms show ?thesis
    by (intro served_unchanged) (auto simp: handle_request_def fan_is_manual_mode_def request_spec_def
        synced_def)
next
  case False
  obtain w' where w': "run_state (fan_toggle_mode os) (w, d) =
      ((), (w', d\<lparr>fan_manual_mode := \<not> fan_manual_mode d\<rparr>))"
    "synced w' (d\<lparr>fan_manual_mode := \<not> fan_manual_mode d\<rparr>)"
    "mode w' = (\<not> mode w)" "freq w' = freq w" "temp w' = temp w"
    by (rule run_toggle_mode [OF assms(1)])
  with False assms show ?thesis
    unfolding served_def
    by (intro exI [of _ "\<lparr>rs_status = 0, rs_value = 0\<rparr>"] exI [of _ w'] exI [of _ "\<not> fan_manual_mode d"])
      (auto simp: handle_request_def fan_is_manual_mode_def request_spec_def synced_def)
qed

lemma served_set_frequency:
  assumes "synced w d" and "rq_cmd req = cmd_code CMD_SET_FREQUENCY"
  shows "served req w d"
proof (cases "fan_manual_mode d \<and> 1 \<le> rq_value req \<and> rq_value req \<le> 100")
  case True
  have w: "ok w" "fds d" "mode w" using assms(1) True by (auto simp: synced_def)
  have r: "0 < rq_value req" "s32_range (rq_value req)" using True by (auto simp: s32_range_def)
  obtain w' where w': "run_state (fan_set_frequency os (rq_value req)) (w, d) = ((), (w', d))"
      "ok w'" "mode w' = mode w" "temp w' = temp w" "freq w' = of_int (rq_value req)"
    by (rule run_set_frequency [OF w(1,2) r]) (simp add: w(3))
  with True assms show ?thesis
    unfolding served_def
    by (intro exI [of _ "\<lparr>rs_status = 0, rs_value = 0\<rparr>"] exI [of _ w'] exI [of _ "fan_manual_mode d"])
      (auto simp: handle_request_def fan_is_manual_mode_def request_spec_def synced_def)
next
  case False
  then have "\<not> mode w \<or> rq_value req < 1 \<or> rq_value req > 100"
    using assms(1) by (auto simp: synced_def)
  with assms show ?thesis
    by (intro served_unchanged [where resp = "fst (request_spec (mode w) (freq w) (temp w) req)"])
      (auto simp: handle_request_def fan_is_manual_mode_def request_spec_def synced_def)
qed

lemma served_other:
  assumes "synced w d" and "freq w < 0x80000000"
    and "rq_cmd req \<notin> {cmd_code CMD_SET_MODE, cmd_code CMD_SET_FREQUENCY}"
  shows "served req w d"
proof -
  have w: "ok w" "fds d" "fan_manual_mode d = mode w" using assms(1) by (auto simp: synced_def)
  have f: "s32_range (uint (freq w))" using assms(2) by (simp add: word_less_def s32_range_def)
  have none: "cdiv (-1) 1000 = 0" by (simp add: cdiv_def)
  show ?thesis
    using assms w f none
    by (intro served_unchanged [where resp = "fst (request_spec (mode w) (freq w) (temp w) req)"])
      (auto simp: handle_request_def fan_is_manual_mode_def request_spec_def Let_def run_read_frequency
        run_get_cpu_temp split: option.splits)
qed

lemma request_served: "synced w d \<Longrightarrow> freq w < 0x80000000 \<Longrightarrow> served req w d"
  using served_set_mode served_set_frequency served_other by blast

end

section \<open>Properties\<close>

text \<open>C35. In any environment and for any received bytes, serving a client receives once, sends
  exactly one response of eight bytes and closes the connection last; between them it only touches
  the attribute files, and not even those when the message is not exactly one request, which is
  answered with EINVAL.\<close>

theorem one_response_per_connection:
  "wp (socket_handle_client (recorder e) fd) ([], d) (\<lambda>_ (h, d'). \<exists>r cs resp sent closed.
     h = (Recv fd 8, r) # cs @ [(Send fd (encode_response resp), sent), (Close fd, closed)] \<and>
     list_all (attribute_call \<circ> fst) cs \<and>
     (fst r = 8 \<or> cs = [] \<and> resp = \<lparr>rs_status = - EINVAL, rs_value = 0\<rparr>) \<and>
     d' = d\<lparr>fan_manual_mode := fan_manual_mode d'\<rparr>)"
  unfolding socket_handle_client_def Let_def
  by (auto simp: wp_simps intro!: wp_sysi_any wp_sys_any wp_handle_request)

end
