(* ===== verification/Daemon_Main.thy ===== *)
theory Daemon_Main
  imports Daemon_Screen Daemon_Gpios Daemon_Socket "HOL-Library.Multiset"
begin

text \<open>
  The daemon's \<^verbatim>\<open>src/07_miniproj/daemon/main.c\<close>: the event handler, the start-up and the
  event loop.  \<open>exit\<close> is the value \<open>Inl status\<close>.  The \<open>struct event\<close> objects that \<open>epoll\<close> hands
  back by address are the statics of the file, numbered in the order of their declaration.  Log
  messages are not modelled.
\<close>

section \<open>Timer and event handler\<close>

abbreviation (input) SCREEN_REFRESH_INTERVAL_MS :: int where "SCREEN_REFRESH_INTERVAL_MS \<equiv> 100"
abbreviation (input) MAX_SOCKET_CLIENTS :: nat where "MAX_SOCKET_CLIENTS \<equiv> 8"
abbreviation (input) EXIT_SUCCESS :: int where "EXIT_SUCCESS \<equiv> 0"
abbreviation (input) EXIT_FAILURE :: int where "EXIT_FAILURE \<equiv> 1"

definition create_timer :: "('w, call) os \<Rightarrow> int \<Rightarrow> ('w, daemon, int) prog" where
  "create_timer os interval_ms = do {
     tfd \<leftarrow> sysi os Timerfd_create;
     _ \<leftarrow> sysi os (Timerfd_settime tfd (0, 1)
            (cdiv interval_ms 1000, s32 (cmod interval_ms 1000 * 1000000)));
     return tfd }"

text \<open>The addresses of the event records (the buttons' are 0, 1, 2), and the record at an address.\<close>

abbreviation (input) timer_slot :: nat where "timer_slot \<equiv> 3"
abbreviation (input) socket_slot :: nat where "socket_slot \<equiv> 4"
abbreviation (input) client_slot :: "nat \<Rightarrow> nat" where "client_slot i \<equiv> 5 + i"

definition event_memory :: "daemon \<Rightarrow> event list" where
  "event_memory d = button_events d @ [timer_event d, socket_event d] @ client_events d"

definition deref :: "daemon \<Rightarrow> nat \<Rightarrow> event option" where
  "deref d a = (if a < length (event_memory d) then Some (event_memory d ! a) else None)"

text \<open>\<open>client_events[client_event_count++] = {SOCKET_CLIENT_REQUEST, fd}\<close>.\<close>

definition add_client :: "int \<Rightarrow> daemon \<Rightarrow> daemon" where
  "add_client fd d =
     d\<lparr>client_events := (client_events d)[client_event_count d :=
           \<lparr>ev_type = SOCKET_CLIENT_REQUEST, ev_fd = fd\<rparr>],
       client_event_count := client_event_count d + 1\<rparr>"

text \<open>The loop that removes the first record with the descriptor, replacing it by the last one.\<close>

definition drop_slot :: "nat \<Rightarrow> daemon \<Rightarrow> daemon" where
  "drop_slot i d =
     d\<lparr>client_events := (client_events d)[i := client_events d ! (client_event_count d - 1)],
       client_event_count := client_event_count d - 1\<rparr>"

primrec remove_from :: "nat \<Rightarrow> nat \<Rightarrow> int \<Rightarrow> daemon \<Rightarrow> daemon" where
  "remove_from 0 i fd d = d"
| "remove_from (Suc n) i fd d =
     (if ev_fd (client_events d ! i) = fd then drop_slot i d else remove_from n (Suc i) fd d)"

definition remove_client :: "int \<Rightarrow> daemon \<Rightarrow> daemon" where
  "remove_client fd d = remove_from (client_event_count d) 0 fd d"

definition process_event :: "('w, call) os \<Rightarrow> event \<Rightarrow> ('w, daemon, int) prog" where
  "process_event os ev =
     (case ev_type ev of
        BUTTON1_PRESS \<Rightarrow> do {
          pressed \<leftarrow> is_button_pressed os (ev_fd ev);
          (if pressed then do {
             set_led os True;
             manual \<leftarrow> fan_is_manual_mode;
             (if manual then fan_increase_frequency os else return ()) }
           else set_led os False);
          return 0 }
      | BUTTON2_PRESS \<Rightarrow> do {
          pressed \<leftarrow> is_button_pressed os (ev_fd ev);
          (if pressed then do {
             set_led os True;
             manual \<leftarrow> fan_is_manual_mode;
             (if manual then fan_decrease_frequency os else return ()) }
           else set_led os False);
          return 0 }
      | BUTTON3_PRESS \<Rightarrow> do {
          pressed \<leftarrow> is_button_pressed os (ev_fd ev);
          (if pressed then do { set_led os True; fan_toggle_mode os }
           else set_led os False);
          return 0 }
      | REFRESH_SCREEN \<Rightarrow> do {
          d \<leftarrow> getg;
          _ \<leftarrow> sys os (Read (screen_timer_fd d) 8);
          screen_refresh os;
          return 0 }
      | SOCKET_ACCEPT_CLIENT \<Rightarrow> do {
          client_fd \<leftarrow> socket_accept_client os;
          if client_fd < 0 then return 0
          else do {
            d \<leftarrow> getg;
            if client_event_count d \<ge> MAX_SOCKET_CLIENTS then do {
              _ \<leftarrow> sysi os (Close client_fd);
              return 0 }
            else do {
              modg (add_client client_fd);
              _ \<leftarrow> sysi os (Epoll_ctl (epoll_fd d) EPOLL_CTL_ADD client_fd [EPOLLIN, EPOLLONESHOT]
                     (client_slot (client_event_count d)));
              return 0 }}}
      | SOCKET_CLIENT_REQUEST \<Rightarrow> do {
          socket_handle_client os (ev_fd ev);
          d \<leftarrow> getg;
          _ \<leftarrow> sysi os (Epoll_ctl (epoll_fd d) EPOLL_CTL_DEL (ev_fd ev) [] 0);
          modg (remove_client (ev_fd ev));
          return 0 })"

section \<open>Daemonizing\<close>

definition daemonize :: "('w, call) os \<Rightarrow> ('w, 'g, int + unit) prog" where
  "daemonize os = do {
     pid \<leftarrow> sysi os Fork;
     if pid < 0 then return (Inl EXIT_FAILURE)
     else if pid > 0 then return (Inl EXIT_SUCCESS)
     else do {
     r \<leftarrow> sysi os Setsid;
     if r < 0 then return (Inl EXIT_FAILURE)
     else do {
     pid \<leftarrow> sysi os Fork;
     if pid < 0 then return (Inl EXIT_FAILURE)
     else if pid > 0 then return (Inl EXIT_SUCCESS)
     else do {
     r \<leftarrow> sysi os (Chdir ''/'');
     if r < 0 then return (Inl EXIT_FAILURE)
     else do {
     _ \<leftarrow> sysi os (Umask 0);
     devnull \<leftarrow> sysi os (Open ''/dev/null'' [O_RDWR]);
     if devnull < 0 then return (Inl EXIT_FAILURE)
     else do {
     _ \<leftarrow> sysi os (Dup2 devnull 0);
     _ \<leftarrow> sysi os (Dup2 devnull 1);
     _ \<leftarrow> sysi os (Dup2 devnull 2);
     (if devnull > 2 then do { _ \<leftarrow> sysi os (Close devnull); return () } else return ());
     return (Inr ()) }}}}}}"

section \<open>main\<close>

definition register_events :: "('w, call) os \<Rightarrow> ('w, daemon, unit) prog" where
  "register_events os = do {
     d \<leftarrow> getg;
     for_each [0..<3] (\<lambda>i. do {
       _ \<leftarrow> sysi os (Epoll_ctl (epoll_fd d) EPOLL_CTL_ADD (button_fds d ! i) [EPOLLPRI] i);
       return () });
     _ \<leftarrow> sysi os (Epoll_ctl (epoll_fd d) EPOLL_CTL_ADD (screen_timer_fd d) [EPOLLIN] timer_slot);
     _ \<leftarrow> sysi os (Epoll_ctl (epoll_fd d) EPOLL_CTL_ADD (ev_fd (socket_event d)) [EPOLLIN] socket_slot);
     return () }"

definition main_setup :: "('w, call) os \<Rightarrow> ('w, daemon, int + unit) prog" where
  "main_setup os = do {
     r \<leftarrow> daemonize os;
     case r of
       Inl status \<Rightarrow> return (Inl status)
     | Inr _ \<Rightarrow> do {
         gpios_init os;
         socket_server_fd \<leftarrow> socket_init os;
         fan_init os;
         screen_init os;
         fd \<leftarrow> sysi os Epoll_create1;
         modg (\<lambda>d. d\<lparr>epoll_fd := fd\<rparr>);
         tfd \<leftarrow> create_timer os SCREEN_REFRESH_INTERVAL_MS;
         modg (\<lambda>d. d\<lparr>screen_timer_fd := tfd\<rparr>);
         modg (\<lambda>d. d\<lparr>button_events :=
           [\<lparr>ev_type = BUTTON1_PRESS, ev_fd = button_fds d ! 0\<rparr>,
            \<lparr>ev_type = BUTTON2_PRESS, ev_fd = button_fds d ! 1\<rparr>,
            \<lparr>ev_type = BUTTON3_PRESS, ev_fd = button_fds d ! 2\<rparr>]\<rparr>);
         modg (\<lambda>d. d\<lparr>timer_event := \<lparr>ev_type = REFRESH_SCREEN, ev_fd = tfd\<rparr>\<rparr>);
         modg (\<lambda>d. d\<lparr>socket_event := \<lparr>ev_type = SOCKET_ACCEPT_CLIENT, ev_fd = socket_server_fd\<rparr>\<rparr>);
         register_events os;
         return (Inr ()) }}"

text \<open>
  One round of the loop: the ready events in order, each through its address.  \<open>None\<close>: an address
  that is not one of the records (the behaviour would be undefined).
\<close>

primrec dispatch :: "('w, call) os \<Rightarrow> nat list \<Rightarrow> ('w, daemon, unit option) prog" where
  "dispatch os [] = return (Some ())"
| "dispatch os (a # as) = do {
     d \<leftarrow> getg;
     case deref d a of
       None \<Rightarrow> return None
     | Some ev \<Rightarrow> do { _ \<leftarrow> process_event os ev; dispatch os as } }"

definition event_round :: "('w, call) os \<Rightarrow> ('w, daemon, unit option) prog" where
  "event_round os = do {
     d \<leftarrow> getg;
     r \<leftarrow> sys os (Epoll_wait (epoll_fd d) 10);
     dispatch os (map of_char (rd_bytes 10 r)) }"

text \<open>The endless loop, cut after \<open>n\<close> rounds.\<close>

primrec event_loop :: "('w, call) os \<Rightarrow> nat \<Rightarrow> ('w, daemon, unit option) prog" where
  "event_loop os 0 = return (Some ())"
| "event_loop os (Suc n) = do {
     r \<leftarrow> event_round os;
     case r of None \<Rightarrow> return None | Some _ \<Rightarrow> event_loop os n }"

definition main_prog :: "('w, call) os \<Rightarrow> nat \<Rightarrow> ('w, daemon, int + unit option) prog" where
  "main_prog os rounds = do {
     r \<leftarrow> main_setup os;
     case r of
       Inl status \<Rightarrow> return (Inl status)
     | Inr _ \<Rightarrow> do { r \<leftarrow> event_loop os rounds; return (Inr r) } }"

end
