(* ===== verification/Fan_Ctl.thy ===== *)
theory Fan_Ctl
  imports Fan_Protocol
begin

text \<open>
  The command-line client \<^verbatim>\<open>src/07_miniproj/application/main.c\<close>.  The result of the program is
  its exit status, or \<open>None\<close> where it passes the null pointer \<open>argv[argc]\<close> to \<open>atoi\<close>.  \<open>exit\<close> in a
  callee is the value \<open>Inl status\<close>.  \<open>strerror\<close> is a parameter.
\<close>

definition connect_to_daemon :: "('w, call) os \<Rightarrow> ('w, 'g, int + int) prog" where
  "connect_to_daemon os = do {
     fd \<leftarrow> sysi os Socket;
     r \<leftarrow> sysi os (Connect fd FAN_SOCKET_PATH);
     if r < 0 then do {
       _ \<leftarrow> sysi os (Perror ''connect'');
       return (Inl 1) }
     else return (Inr fd) }"

definition ctl_send_command ::
    "('w, call) os \<Rightarrow> fan_cmd \<Rightarrow> int \<Rightarrow> ('w, 'g, int + fan_response) prog" where
  "ctl_send_command os cmd v = do {
     c \<leftarrow> connect_to_daemon os;
     case c of
       Inl status \<Rightarrow> return (Inl status)
     | Inr fd \<Rightarrow> do {
         _ \<leftarrow> sysi os (Send fd (encode_request \<lparr>rq_cmd = cmd_code cmd, rq_value = v\<rparr>));
         r \<leftarrow> sys os (Recv fd 8);
         _ \<leftarrow> sysi os (Close fd);
         return (Inr (decode_response (overlay (rd_bytes 8 r) (replicate 8 NUL)))) }}"

definition usage :: string where
  "usage = ''Usage:'' @ [NL] @
     ''  fan-ctl get-mode'' @ [NL] @
     ''  fan-ctl set-mode <0|1>'' @ [NL] @
     ''  fan-ctl get-freq'' @ [NL] @
     ''  fan-ctl set-freq <hz>'' @ [NL] @
     ''  fan-ctl get-temp'' @ [NL]"

text \<open>The chain of \<open>strcmp\<close>: the command and its value; \<open>None\<close> for an unknown word, \<open>Some None\<close>
  where \<open>argv[2]\<close> is the null pointer.\<close>

definition parse_command :: "string list \<Rightarrow> (fan_cmd \<times> int) option option" where
  "parse_command argv =
     (let arg2 = (if length argv < 3 then None else Some (atoi (argv ! 2))) in
      if argv ! 1 = ''get-mode'' then Some (Some (CMD_GET_MODE, 0))
      else if argv ! 1 = ''set-mode'' then Some (map_option (Pair CMD_SET_MODE) arg2)
      else if argv ! 1 = ''get-freq'' then Some (Some (CMD_GET_FREQUENCY, 0))
      else if argv ! 1 = ''set-freq'' then Some (map_option (Pair CMD_SET_FREQUENCY) arg2)
      else if argv ! 1 = ''get-temp'' then Some (Some (CMD_GET_TEMP, 0))
      else None)"

definition fan_ctl_main ::
    "('w, call) os \<Rightarrow> (int \<Rightarrow> string) \<Rightarrow> string list \<Rightarrow> ('w, 'g, int option) prog" where
  "fan_ctl_main os strerror argv =
     (if length argv < 2 then do {
        _ \<leftarrow> sysi os (Eprintf usage);
        return (Some 1) }
      else case parse_command argv of
        None \<Rightarrow> do {
          _ \<leftarrow> sysi os (Eprintf (''unknown command'' @ [NL]));
          return (Some 1) }
      | Some None \<Rightarrow> return None
      | Some (Some (cmd, v)) \<Rightarrow> do {
          r \<leftarrow> ctl_send_command os cmd v;
          case r of
            Inl status \<Rightarrow> return (Some status)
          | Inr resp \<Rightarrow>
              if rs_status resp < 0 then do {
                _ \<leftarrow> sysi os (Eprintf (''Error: '' @ strerror (- rs_status resp) @ [NL]));
                return (Some 1) }
              else do {
                _ \<leftarrow> sysi os (Printf (fmt_d (rs_value resp) @ [NL]));
                return (Some 0) } })"

end
