(* ===== verification/Fan_System.thy ===== *)
theory Fan_System
  imports Fan_Driver Daemon_Main Fan_Ctl
begin

text \<open>
  The parts of the mini-project put together.  \<open>fan_os\<close> is an operating system whose descriptors 3,
  4 and 5 are the attributes \<open>manual_mode\<close>, \<open>frequency\<close> and \<open>cpu_temp\<close> of one device of the driver
  (a read calls the attribute's \<open>show\<close>, a write its \<open>store\<close> with the written bytes, as sysfs does),
  6 the display, 7 the LED and 8 to 10 the buttons, and which serves one socket message at a time.
  The interpretations discharge the laws that the daemon relies on from the driver's definitions;
  \<open>ctl_os\<close> runs the daemon's request handler behind the client's socket.
\<close>

section \<open>The world of the daemon\<close>

record fan_world =
  dev :: fan_dev
  kern :: kernel
  oled :: oled
  led :: bool
  keys :: "bool list"
  inbox :: string
  outbox :: string

definition attr_read :: "nat \<Rightarrow> string \<Rightarrow> ret" where
  "attr_read n s = (int (length (take n s)), take n s)"

definition fan_read :: "fan_world \<Rightarrow> int \<Rightarrow> nat \<Rightarrow> ret" where
  "fan_read w fd n =
     (if fd = 3 then attr_read n (manual_mode_show (dev w))
      else if fd = 4 then attr_read n (frequency_show (dev w))
      else if fd = 5 then
        (case cpu_temp_show (kern w) of (r, s) \<Rightarrow> if r < 0 then (-1, []) else attr_read n s)
      else if 8 \<le> fd \<and> fd < 8 + int (length (keys w)) then
        attr_read n (if keys w ! nat (fd - 8) then ''1'' @ [NL] else ''0'' @ [NL])
      else (-1, []))"

definition fan_write :: "fan_world \<Rightarrow> int \<Rightarrow> string \<Rightarrow> ret \<times> fan_world" where
  "fan_write w fd buf =
     (if fd = 3 then
        (case manual_mode_store (kern w) buf (length buf) (dev w) of
           (r, fc) \<Rightarrow> ((if r < 0 then -1 else r, []), w\<lparr>dev := fc\<rparr>))
      else if fd = 4 then
        (case frequency_store (kern w) buf (length buf) (dev w) of
           None \<Rightarrow> ((-1, []), w)
         | Some (r, fc) \<Rightarrow> ((if r < 0 then -1 else r, []), w\<lparr>dev := fc\<rparr>))
      else if fd = 6 then ((int (length buf), []), w\<lparr>oled := oled_write buf (oled w)\<rparr>)
      else if fd = 7 then ((int (length buf), []), w\<lparr>led := (buf = ''1'')\<rparr>)
      else ((-1, []), w))"

definition fan_os :: "(fan_world, call) os" where
  "fan_os w c =
     (case c of
        Read fd n \<Rightarrow> (fan_read w fd n, w)
      | Write fd buf \<Rightarrow> fan_write w fd buf
      | Recv fd n \<Rightarrow> (attr_read n (inbox w), w)
      | Send fd buf \<Rightarrow> ((int (length buf), []), w\<lparr>outbox := buf\<rparr>)
      | _ \<Rightarrow> ((0, []), w))"

lemmas fan_os_defs = fan_os_def fan_read_def fan_write_def

text \<open>
  The documented behaviour of the kernel services on the texts the daemon writes: \<open>kstrtobool\<close> on
  the two mode texts, \<open>kstrtou32\<close> on a NUL-terminated decimal, and error codes that are negative
  with readings that are 32-bit numbers.
\<close>

definition kernel_ok :: "kernel \<Rightarrow> bool" where
  "kernel_ok k \<longleftrightarrow>
     kstrtobool k ''1'' = (0, True) \<and> kstrtobool k ''0'' = (0, False) \<and>
     (\<forall>s v. c_str s = fmt_d v \<and> 0 \<le> v \<and> v < 2 ^ 32 \<longrightarrow> kstrtou32 k s 10 = (0, of_int v)) \<and>
     fst (thermal_zone_get_temp k) \<le> 0 \<and> s32_range (snd (thermal_zone_get_temp k))"

definition world_temp :: "fan_world \<Rightarrow> int option" where
  "world_temp w = (case thermal_zone_get_temp (kern w) of (r, t) \<Rightarrow> if r = 0 then Some t else None)"

definition world_ok :: "fan_world \<Rightarrow> bool" where
  "world_ok w \<longleftrightarrow> kernel_ok (kern w) \<and> fan_inv (dev w)"

lemma attr_read_all: "length s \<le> n \<Longrightarrow> attr_read n s = (int (length s), s)"
  by (simp add: attr_read_def)

lemma mode_text: "take 1 (manual_mode_show fc) = (if manual_mode fc then ''1'' else ''0'')"
  by (simp add: manual_mode_show_def fmt_d_def fmt_u.simps)

lemma read_mode_text: "attr_read 1 (manual_mode_show fc) = (1, if manual_mode fc then ''1'' else ''0'')"
  unfolding attr_read_def mode_text by simp

lemma frequency_text: "attr_read 19 (frequency_show fc) =
    (int (length (fmt_u (unat (frequency fc)) @ [NL])), fmt_u (unat (frequency fc)) @ [NL])"
  using length_fmt_u32 [OF unat_u32_bound, of "frequency fc"]
  by (subst attr_read_all) (simp_all add: frequency_show_def)

lemma world_write_mode:
  assumes "world_ok w"
  shows "\<exists>r w'. fan_os w (Write 3 (if b then ''1'' else ''0'')) = (r, w') \<and> world_ok w' \<and>
    manual_mode (dev w') = b \<and> frequency (dev w') = frequency (dev w) \<and> world_temp w' = world_temp w"
  using assms
  by (auto simp: fan_os_defs world_ok_def kernel_ok_def manual_mode_store_def world_temp_def fan_inv_def)

lemma world_write_frequency:
  assumes "world_ok w" and "c_str buf = fmt_d v" and "0 < v" and "s32_range v"
  shows "\<exists>r w'. fan_os w (Write 4 buf) = (r, w') \<and> world_ok w' \<and>
    manual_mode (dev w') = manual_mode (dev w) \<and> world_temp w' = world_temp w \<and>
    frequency (dev w') = (if manual_mode (dev w) then of_int v else frequency (dev w))"
proof -
  let ?k = "kern w"
  have p: "kstrtou32 ?k buf 10 = (0, of_int v)"
    using assms by (simp add: world_ok_def kernel_ok_def s32_range_def)
  have u: "uint (of_int v :: u32) = v"
    using assms(3,4) by (simp add: s32_range_def uint_word_of_int)
  then have nz: "(of_int v :: u32) \<noteq> 0" "(of_int v :: u32) \<noteq> 0x80000000"
    using assms(3,4) by (auto simp: s32_range_def)
  show ?thesis
  proof (cases "manual_mode (dev w)")
    case False
    with p have "frequency_store ?k buf (length buf) (dev w) = Some (- EPERM, dev w)"
      by (simp add: frequency_store_def)
    with False assms(1) show ?thesis by (simp add: fan_os_defs)
  next
    case True
    with p nz obtain r fc where fs: "frequency_store ?k buf (length buf) (dev w) = Some (r, fc)"
        "frequency fc = of_int v" "manual_mode fc"
      by (cases "half_period_ms (of_int v)") (auto simp: fan_defs half_period_None_iff)
    have "fan_inv fc" using frequency_store_inv [OF _ fs(1)] assms(1) by (simp add: world_ok_def)
    with True fs assms(1) show ?thesis by (simp add: fan_os_defs world_ok_def world_temp_def)
  qed
qed

interpretation attrs: fan_sysfs fan_os "\<lambda>w. manual_mode (dev w)" "\<lambda>w. frequency (dev w)"
  world_temp world_ok 3 4 5
proof (unfold_locales, goal_cases)
  case (3 w)
  show ?case using read_mode_text [of "dev w"] by (simp add: fan_os_defs)
next
  case (4 w)
  show ?case by (simp add: fan_os_defs frequency_text)
next
  case (5 w t)
  then have "s32_range t" "thermal_zone_get_temp (kern w) = (0, t)"
    by (auto simp: world_ok_def kernel_ok_def world_temp_def split: prod.splits if_splits)
  with length_fmt_d [of t] show ?case
    by (simp add: fan_os_defs cpu_temp_show_def attr_read_all)
next
  case (6 w)
  then obtain r t where "thermal_zone_get_temp (kern w) = (r, t)" "r < 0"
    by (auto simp: world_ok_def kernel_ok_def world_temp_def split: prod.splits if_splits)
  then show ?case by (simp add: fan_os_defs cpu_temp_show_def)
next
  case (7 w b)
  then show ?case by (rule world_write_mode)
next
  case (8 w buf v)
  then show ?case by (rule world_write_frequency)
qed (auto simp: fan_os_defs)


interpretation display: fan_screen fan_os "\<lambda>w. manual_mode (dev w)" "\<lambda>w. frequency (dev w)"
  world_temp world_ok 3 4 5 oled 6
proof (unfold_locales, goal_cases)
  case (1 w bs)
  then show ?case by (simp add: fan_os_defs world_ok_def world_temp_def)
qed

section \<open>The daemon on the driver\<close>

text \<open>The daemon has the attributes open and its copy of the mode is the device's.\<close>

definition in_step :: "fan_world \<Rightarrow> daemon \<Rightarrow> bool" where
  "in_step w d \<longleftrightarrow> world_ok w \<and> fan_manual_fd d = 3 \<and> fan_freq_fd d = 4 \<and> fan_temp_fd d = 5 \<and>
     fan_manual_mode d = manual_mode (dev w)"

lemma in_step_synced: "in_step w d \<longleftrightarrow> attrs.synced w d"
  by (auto simp: in_step_def attrs.synced_def attrs.fds_def)

lemma in_stepD:
  "in_step w d \<Longrightarrow> world_ok w \<and> attrs.fds d \<and> fan_manual_mode d = manual_mode (dev w)"
  by (simp add: in_step_def attrs.fds_def)

lemma world_ok_led [simp]:
  "world_ok (w\<lparr>led := b\<rparr>) = world_ok w" "in_step (w\<lparr>led := b\<rparr>) d = in_step w d"
  by (simp_all add: world_ok_def in_step_def)

lemma run_is_button_pressed:
  assumes "i < length (keys w)"
  shows "run_state (is_button_pressed fan_os (8 + int i)) (w, d) = (keys w ! i, (w, d))"
  using assms by (simp add: is_button_pressed_def fan_os_defs attr_read_def overlay_def)

lemma run_set_led:
  assumes "led_fd d = 7"
  shows "run_state (set_led fan_os on) (w, d) = ((), (w\<lparr>led := on\<rparr>, d))"
  using assms by (simp add: set_led_def fan_os_defs)

definition button_spec :: "event_type \<Rightarrow> bool \<Rightarrow> bool \<Rightarrow> u32 \<Rightarrow> bool \<times> u32" where
  "button_spec ty pressed m f =
     (if \<not> pressed then (m, f)
      else case ty of
        BUTTON1_PRESS \<Rightarrow> (m, if m then of_int (min 100 (uint f + 1)) else f)
      | BUTTON2_PRESS \<Rightarrow> (m, if m then of_int (max 1 (uint f - 1)) else f)
      | BUTTON3_PRESS \<Rightarrow> (\<not> m, f)
      | _ \<Rightarrow> (m, f))"

section \<open>A sample system\<close>

lemma kernel_ok_sample: "fst temp \<le> 0 \<Longrightarrow> s32_range (snd temp) \<Longrightarrow> kernel_ok (sample_kernel temp t)"
proof -
  assume a: "fst temp \<le> 0" "s32_range (snd temp)"
  have "kstrtou32 (sample_kernel temp t) s 10 = (0, of_int v)"
    if "c_str s = fmt_d v" "0 \<le> v" "v < 2 ^ 32" for s v
  proof -
    have c: "c_str s = fmt_u (nat v)" using that by (simp add: fmt_d_def)
    moreover have "list_all is_digit (fmt_u (nat v))"
      using fmt_u_digits by (auto simp: list_all_iff)
    moreover have "digits_val (fmt_u (nat v)) = nat v"
      using digits_val_fmt_u [of "[]"] by simp
    ultimately show ?thesis using that by (simp add: sample_kernel_def nat_less_iff)
  qed
  with a show ?thesis by (simp add: kernel_ok_def sample_kernel_def c_str_def)
qed

definition sample_world :: fan_world where
  "sample_world = \<lparr>dev = loaded_dev\<lparr>manual_mode := True\<rparr>, kern = sample_kernel (0, 38500) 1010,
     oled = reset_oled, led = False,
     keys = [True, True, False], inbox = [], outbox = []\<rparr>"

definition sample_daemon :: daemon where
  "sample_daemon = initial_daemon\<lparr>fan_manual_mode := True, fan_manual_fd := 3, fan_freq_fd := 4,
     fan_temp_fd := 5, ssd_fd := 6, led_fd := 7, button_fds := [8, 9, 10]\<rparr>"

lemma sample_in_step: "in_step sample_world sample_daemon"
proof -
  have "kernel_ok (kern sample_world)"
    unfolding sample_world_def by (simp add: kernel_ok_sample s32_range_def)
  then show ?thesis
    by (simp add: in_step_def world_ok_def sample_world_def sample_daemon_def initial_daemon_def
        fan_inv_def loaded_dev_def)
qed

section \<open>Properties of the buttons\<close>

text \<open>C4. End to end, from a button event to the driver: button 1 raises the frequency by one up to
  100, button 2 lowers it down to 1, both in manual mode only; button 3 switches the mode; a release
  changes nothing; and the daemon's copy of the mode stays the device's.  The frequency of the device is
  below 2^31 - 1, and nothing else enters the driver meanwhile.\<close>

theorem button_drives_device:
  assumes "in_step w d" and "led_fd d = 7" and "i < length (keys w)" and "ev_fd ev = 8 + int i"
    and "ev_type ev \<in> {BUTTON1_PRESS, BUTTON2_PRESS, BUTTON3_PRESS}"
    and "frequency (dev w) < 0x7FFFFFFF"
  shows "\<exists>w' d'. run_state (process_event fan_os ev) (w, d) = (0, (w', d')) \<and> in_step w' d' \<and>
    (manual_mode (dev w'), frequency (dev w')) =
      button_spec (ev_type ev) (keys w ! i) (manual_mode (dev w)) (frequency (dev w))"
proof -
  let ?w = "w\<lparr>led := True\<rparr>"
  note pressed = run_is_button_pressed [OF assms(3)] run_set_led [OF assms(2)]
  have w: "world_ok ?w" "attrs.fds d" "attrs.synced ?w d" "fan_manual_mode d = manual_mode (dev w)"
    using in_stepD [OF assms(1)] assms(1) in_step_synced [of ?w d] by simp_all
  have f: "frequency (dev ?w) < 0x7FFFFFFF" "frequency (dev ?w) < 0x80000000"
    using assms(6) by (simp_all add: word_less_def)
  consider "\<not> keys w ! i \<or> (\<not> manual_mode (dev w) \<and> ev_type ev \<noteq> BUTTON3_PRESS)"
    | "keys w ! i" "manual_mode (dev w)" "ev_type ev = BUTTON1_PRESS"
    | "keys w ! i" "manual_mode (dev w)" "ev_type ev = BUTTON2_PRESS"
    | "keys w ! i" "ev_type ev = BUTTON3_PRESS"
    using assms(5) by auto
  then show ?thesis
  proof cases
    case 1
    then show ?thesis using assms(1,4,5) w(4)
      by (auto simp: process_event_def pressed fan_is_manual_mode_def button_spec_def)
  next
    case 2
    obtain w' where "run_state (fan_increase_frequency fan_os) (?w, d) = ((), (w', d))" "world_ok w'"
        "manual_mode (dev w') = manual_mode (dev w)"
        "frequency (dev w') = of_int (min 100 (uint (frequency (dev w)) + 1))"
      using attrs.run_increase_frequency [OF w(1,2) f(1)] 2 by auto
    with 2 show ?thesis using assms(1,4) w(4)
      by (auto simp: process_event_def pressed fan_is_manual_mode_def button_spec_def in_step_def)
  next
    case 3
    obtain w' where "run_state (fan_decrease_frequency fan_os) (?w, d) = ((), (w', d))" "world_ok w'"
        "manual_mode (dev w') = manual_mode (dev w)"
        "frequency (dev w') = of_int (max 1 (uint (frequency (dev w)) - 1))"
      using attrs.run_decrease_frequency [OF w(1,2) f(2)] 3 by auto
    with 3 show ?thesis using assms(1,4) w(4)
      by (auto simp: process_event_def pressed fan_is_manual_mode_def button_spec_def in_step_def)
  next
    case 4
    obtain w' where "run_state (fan_toggle_mode fan_os) (?w, d) =
          ((), (w', d\<lparr>fan_manual_mode := \<not> fan_manual_mode d\<rparr>))"
        "attrs.synced w' (d\<lparr>fan_manual_mode := \<not> fan_manual_mode d\<rparr>)"
        "manual_mode (dev w') = (\<not> manual_mode (dev ?w))" "frequency (dev w') = frequency (dev ?w)"
      by (rule attrs.run_toggle_mode [OF w(3)])
    with 4 show ?thesis using assms(4)
      by (auto simp: process_event_def pressed button_spec_def in_step_synced)
  qed
qed

theorem button_drives_device_witness:
  "\<exists>w' d'. run_state (process_event fan_os \<lparr>ev_type = BUTTON1_PRESS, ev_fd = 8\<rparr>)
      (sample_world, sample_daemon) = (0, (w', d')) \<and> frequency (dev w') = 3"
  using button_drives_device [OF sample_in_step, of 0 "\<lparr>ev_type = BUTTON1_PRESS, ev_fd = 8\<rparr>"]
  by (auto simp: sample_world_def sample_daemon_def loaded_dev_def button_spec_def)

section \<open>Properties of the screen\<close>

text \<open>C5. End to end, from a refresh to the glyphs of the display: row 3 shows the driver's mode,
  row 5 the temperature in degrees (dashes when the sensor fails), row 6 the driver's frequency, and
  the driver is unchanged.  The cells of row 6 right of the new text keep what they showed.  The display
  waits for a command in its page addressing mode, without scrolling; the frequency is below 10^8 and
  the temperature below 1000 degrees, so that the texts fit.\<close>

theorem refresh_shows_device:
  assumes "in_step w d" and "ssd_fd d = 6" and "settled (oled w)"
    and "frequency (dev w) < 100000000" and "\<And>t. world_temp w = Some t \<Longrightarrow> t < 1000000"
  shows "\<exists>w'. run_state (process_event fan_os \<lparr>ev_type = REFRESH_SCREEN, ev_fd = screen_timer_fd d\<rparr>) (w, d) =
      (0, (w', d)) \<and> in_step w' d \<and> manual_mode (dev w') = manual_mode (dev w) \<and>
    frequency (dev w') = frequency (dev w) \<and>
    shows_text (oled w') 3 0 (mode_line (manual_mode (dev w))) \<and>
    shows_text (oled w') 5 0 (temp_line (case world_temp w of Some t \<Rightarrow> t | None \<Rightarrow> -1)) \<and>
    shows_text (oled w') 6 0 (''Freq: '' @ freq_text (uint (frequency (dev w)))) \<and>
    (\<forall>c ch. 6 + length (freq_text (uint (frequency (dev w)))) \<le> c \<longrightarrow> shows_char (oled w) 6 c ch \<longrightarrow>
      shows_char (oled w') 6 c ch)"
proof -
  have s: "attrs.synced w d" using assms(1) by (simp add: in_step_synced)
  obtain w' where w': "run_state (screen_refresh fan_os) (w, d) = ((), (w', d))" "attrs.synced w' d"
    "manual_mode (dev w') = manual_mode (dev w)" "frequency (dev w') = frequency (dev w)"
    "refreshed (manual_mode (dev w)) (case world_temp w of Some t \<Rightarrow> t | None \<Rightarrow> -1)
       (uint (frequency (dev w))) (oled w) (oled w')"
    by (rule display.run_screen_refresh [OF s assms(2-5)])
  then have "run_state (process_event fan_os \<lparr>ev_type = REFRESH_SCREEN, ev_fd = screen_timer_fd d\<rparr>) (w, d) =
      (0, (w', d))"
    by (simp add: process_event_def fan_os_def)
  with w' show ?thesis by (auto simp: in_step_synced refreshed_def)
qed

theorem refresh_shows_device_witness:
  "\<exists>w'. run_state (process_event fan_os \<lparr>ev_type = REFRESH_SCREEN, ev_fd = -1\<rparr>)
      (sample_world, sample_daemon) = (0, (w', sample_daemon)) \<and>
    shows_text (oled w') 3 0 ''Mode: Manual '' \<and>
    shows_text (oled w') 5 0 (''Temp: 38'' @ [CHR 0x27] @ ''C  '') \<and>
    shows_text (oled w') 6 0 ''Freq: 2Hz''"
proof -
  have t: "world_temp sample_world = Some 38500"
    by (simp add: world_temp_def sample_world_def sample_kernel_def)
  have tl: "temp_line 38500 = ''Temp: 38'' @ [CHR 0x27] @ ''C  ''"
    by (simp add: temp_line_def cdiv_def fmt_d_def fmt_u.simps)
  have fl: "freq_text 2 = ''2Hz''" by (simp add: freq_text_def fmt_d_def fmt_u.simps)
  have "settled (oled sample_world)" "ssd_fd sample_daemon = 6" "screen_timer_fd sample_daemon = -1"
    "manual_mode (dev sample_world)" "frequency (dev sample_world) = 2"
    by (simp_all add: sample_world_def sample_daemon_def initial_daemon_def loaded_dev_def)
  with refresh_shows_device [OF sample_in_step] t tl fl show ?thesis
    by (auto simp: mode_line_def)
qed

text \<open>A frequency text that gets shorter leaves its last character behind: when the row shows
  100 Hz and the frequency is 99, a refresh makes it show \<open>99Hzz\<close>.\<close>

theorem refresh_leaves_tail:
  assumes "in_step w d" and "ssd_fd d = 6" and "settled (oled w)"
    and "frequency (dev w) = 99" and "\<And>t. world_temp w = Some t \<Longrightarrow> t < 1000000"
    and "shows_text (oled w) 6 0 ''Freq: 100Hz''"
  shows "\<exists>w'. run_state (screen_refresh fan_os) (w, d) = ((), (w', d)) \<and>
    shows_text (oled w') 6 0 ''Freq: 99Hzz''"
proof -
  have s: "attrs.synced w d" using assms(1) by (simp add: in_step_synced)
  have f: "frequency (dev w) < 100000000" by (simp add: assms(4) word_less_def)
  have ft: "freq_text (uint (frequency (dev w))) = ''99Hz''"
    by (simp add: assms(4) freq_text_def fmt_d_def fmt_u.simps)
  obtain w' where w': "run_state (screen_refresh fan_os) (w, d) = ((), (w', d))"
    "refreshed (manual_mode (dev w)) (case world_temp w of Some t \<Rightarrow> t | None \<Rightarrow> -1)
       (uint (frequency (dev w))) (oled w) (oled w')"
    by (rule display.run_screen_refresh [OF s assms(2,3) f assms(5)])
  have "shows_char (oled w) 6 10 (CHR ''z'')"
    using assms(6) by (simp add: shows_text_def) (drule spec [of _ 10], simp)
  with w'(2) have "shows_char (oled w') 6 10 (CHR ''z'')" by (simp add: refreshed_def ft)
  moreover have "shows_text (oled w') 6 0 ''Freq: 99Hz''" using w'(2) by (simp add: refreshed_def ft)
  ultimately have "shows_text (oled w') 6 0 (''Freq: 99Hz'' @ ''z'')"
    by (intro shows_text_snoc) (simp_all add: eval_nat_numeral)
  with w'(1) show ?thesis by auto
qed

text \<open>The sample system at 99 Hz, its display showing the text of 100 Hz.\<close>

definition tail_world :: fan_world where
  "tail_world = sample_world\<lparr>dev := loaded_dev\<lparr>manual_mode := True, frequency := 99\<rparr>,
     oled := text_at 6 0 ''Freq: 100Hz'' (oled sample_world)\<rparr>"

theorem refresh_leaves_tail_witness:
  "\<exists>w'. run_state (screen_refresh fan_os) (tail_world, sample_daemon) = ((), (w', sample_daemon)) \<and>
    shows_text (oled w') 6 0 ''Freq: 99Hzz''"
proof (rule refresh_leaves_tail)
  have len: "0 + length ''Freq: 100Hz'' \<le> 16" by simp
  show "in_step tail_world sample_daemon"
    using sample_in_step
    by (simp add: in_step_def world_ok_def tail_world_def sample_world_def fan_inv_def loaded_dev_def)
  show "shows_text (oled tail_world) 6 0 ''Freq: 100Hz''"
    using text_at(1) [OF len settled_reset] by (simp add: tail_world_def sample_world_def)
  show "settled (oled tail_world)"
    by (simp add: tail_world_def sample_world_def)
  show "t < 1000000" if "world_temp tail_world = Some t" for t
    using that by (simp add: world_temp_def tail_world_def sample_world_def sample_kernel_def)
qed (simp_all add: tail_world_def sample_daemon_def)

end
