(* ===== verification/Fan_Session.thy ===== *)
theory Fan_Session
  imports Fan_System
begin

text \<open>
  The whole mini-project in one run: the client of \<^verbatim>\<open>application/main.c\<close> whose messages are
  served by the daemon of \<^verbatim>\<open>daemon/socket.c\<close>, which works on the driver of
  \<^verbatim>\<open>fan_driver/skeleton.c\<close>.
\<close>

section \<open>The client and the daemon over the socket\<close>

text \<open>
  The system as the client sees it: the message it sends arrives in the daemon, whose handler serves
  it on descriptor 20 before the client's receive returns with the response.  \<open>stdout\<close> collects what
  the client prints.
\<close>

record session =
  fan :: fan_world
  daemon_vars :: daemon
  stdout :: string

definition ctl_os :: "(session, call) os" where
  "ctl_os s c =
     (case c of
        Send fd buf \<Rightarrow> ((int (length buf), []), s\<lparr>fan := (fan s)\<lparr>inbox := buf\<rparr>\<rparr>)
      | Recv fd n \<Rightarrow>
          (case run_state (socket_handle_client fan_os 20) (fan s, daemon_vars s) of
             (_, (w, d)) \<Rightarrow> (attr_read n (outbox w), s\<lparr>fan := w, daemon_vars := d\<rparr>))
      | Printf str \<Rightarrow> ((int (length str), []), s\<lparr>stdout := stdout s @ str\<rparr>)
      | _ \<Rightarrow> ((3, []), s))"

lemma world_ok_mail [simp]:
  "world_ok (w\<lparr>inbox := b\<rparr>) = world_ok w" "world_ok (w\<lparr>outbox := b\<rparr>) = world_ok w"
  "in_step (w\<lparr>inbox := b\<rparr>) d = in_step w d" "in_step (w\<lparr>outbox := b\<rparr>) d = in_step w d"
  "world_temp (w\<lparr>inbox := b\<rparr>) = world_temp w" "world_temp (w\<lparr>outbox := b\<rparr>) = world_temp w"
  by (simp_all add: world_ok_def in_step_def world_temp_def)

text \<open>One request of eight bytes, served.\<close>

lemma run_handle_client:
  assumes "in_step w d" and "frequency (dev w) < 0x80000000" and "inbox w = encode_request req"
    and "0 \<le> rq_cmd req" and "rq_cmd req < 2 ^ 32" and "s32_range (rq_value req)"
  obtains w' d' resp where "run_state (socket_handle_client fan_os fd) (w, d) = ((), (w', d'))"
    and "in_step w' d'" and "world_temp w' = world_temp w" and "outbox w' = encode_response resp"
    and "(resp, manual_mode (dev w'), frequency (dev w')) =
      request_spec (manual_mode (dev w)) (frequency (dev w)) (world_temp w) req"
proof -
  have "attrs.synced w d" using assms(1) by (simp add: in_step_synced)
  from attrs.request_served [OF this assms(2), of req] obtain resp w' m where r:
      "run_state (handle_request fan_os req) (w, d) = (resp, (w', d\<lparr>fan_manual_mode := m\<rparr>))"
      "in_step w' (d\<lparr>fan_manual_mode := m\<rparr>)" "world_temp w' = world_temp w"
      "(resp, manual_mode (dev w'), frequency (dev w')) =
        request_spec (manual_mode (dev w)) (frequency (dev w)) (world_temp w) req"
    by (auto simp: attrs.served_def in_step_synced)
  have "fan_os w (Recv fd 8) = ((8, encode_request req), w)"
    by (simp add: fan_os_def attr_read_def assms(3))
  with r(1) have "run_state (socket_handle_client fan_os fd) (w, d) =
      ((), (w'\<lparr>outbox := encode_response resp\<rparr>, d\<lparr>fan_manual_mode := m\<rparr>))"
    using decode_encode_request [OF assms(4-6)]
    by (simp add: socket_handle_client_def Let_def) (simp add: fan_os_def)
  with r that show thesis by simp
qed

lemma cdiv_s32: "s32_range t \<Longrightarrow> s32_range (cdiv t 1000)"
proof -
  assume "s32_range t"
  then have "\<bar>t\<bar> div 1000 \<le> 2147483647" "0 \<le> \<bar>t\<bar> div 1000" by (auto simp: s32_range_def)
  then show ?thesis by (cases t "0 :: int" rule: linorder_cases) (auto simp: cdiv_def s32_range_def)
qed

lemma world_temp_range: "world_ok w \<Longrightarrow> world_temp w = Some t \<Longrightarrow> s32_range t"
  by (auto simp: world_ok_def kernel_ok_def world_temp_def split: prod.splits if_splits)

lemma request_spec_range:
  assumes "f < 0x80000000" and "\<And>t. temp = Some t \<Longrightarrow> s32_range t"
    and "(resp, m', f') = request_spec m f temp req"
  shows "s32_range (rs_status resp) \<and> s32_range (rs_value resp)"
proof -
  have f: "s32_range (uint f)" using assms(1) by (simp add: word_less_def s32_range_def)
  have z: "s32_range 0" "s32_range 1" "s32_range (-1)" "s32_range (-34)" "s32_range (-38)"
    by (simp_all add: s32_range_def)
  show ?thesis
    using assms(2,3) f z cdiv_s32
    by (auto simp: request_spec_def Let_def split: if_splits option.splits)
qed

lemma s32_range_atoi: "s32_range (atoi s)"
  by (simp add: atoi_def s32_in_range)

lemma parse_command_range: "parse_command argv = Some (Some (cmd, v)) \<Longrightarrow> s32_range v"
  by (auto simp: parse_command_def Let_def s32_range_atoi split: if_splits) (simp_all add: s32_range_def)

text \<open>C1. End to end, from the command line to the driver: a valid \<open>fan-ctl\<close> command has on the
  device exactly the effect of the request's contract, prints the answered value and succeeds, or
  fails when the contract's status is an error; the daemon stays in step with the device.  The
  frequency of the device is below 2^31, which only a direct write of the attribute can exceed, and
  nothing else enters the driver meanwhile.\<close>

theorem fan_ctl_end_to_end:
  assumes "in_step (fan s) (daemon_vars s)" and "frequency (dev (fan s)) < 0x80000000"
    and "2 \<le> length argv" and "parse_command argv = Some (Some (cmd, v))"
    and "(resp, m, f) = request_spec (manual_mode (dev (fan s))) (frequency (dev (fan s)))
      (world_temp (fan s)) \<lparr>rq_cmd = cmd_code cmd, rq_value = v\<rparr>"
  shows "\<exists>s'. run_state (fan_ctl_main ctl_os strerror argv) (s, ()) =
      (Some (if rs_status resp < 0 then 1 else 0), (s', ())) \<and>
    in_step (fan s') (daemon_vars s') \<and> manual_mode (dev (fan s')) = m \<and> frequency (dev (fan s')) = f \<and>
    stdout s' = (if rs_status resp < 0 then stdout s else stdout s @ fmt_d (rs_value resp) @ [NL])"
proof -
  let ?req = "\<lparr>rq_cmd = cmd_code cmd, rq_value = v\<rparr>"
  let ?w = "(fan s)\<lparr>inbox := encode_request ?req\<rparr>"
  have ok: "world_ok (fan s)" using assms(1) by (simp add: in_step_def)
  have r: "0 \<le> rq_cmd ?req" "rq_cmd ?req < 2 ^ 32" "s32_range (rq_value ?req)"
    using cmd_code_range [of cmd] parse_command_range [OF assms(4)] by simp_all
  have w: "in_step ?w (daemon_vars s)" "frequency (dev ?w) < 0x80000000" using assms(1,2) by simp_all
  obtain w' d' where w': "run_state (socket_handle_client fan_os 20) (?w, daemon_vars s) = ((), (w', d'))"
      "in_step w' d'" "outbox w' = encode_response resp" "manual_mode (dev w') = m" "frequency (dev w') = f"
    by (rule run_handle_client [OF w _ r, of 20]) (auto simp: assms(5) [symmetric])
  have resp: "decode_response (encode_response resp) = resp"
    using request_spec_range [OF assms(2) world_temp_range [OF ok] assms(5)]
    by (intro decode_encode_response) simp_all
  have send: "run_state (ctl_send_command ctl_os cmd v) (s, ()) =
      (Inr resp, (s\<lparr>fan := w', daemon_vars := d'\<rparr>, ()))"
    using w' resp
    by (simp add: ctl_send_command_def connect_to_daemon_def ctl_os_def attr_read_def)
  show ?thesis
    using assms(3,4) send w'
    by (simp add: fan_ctl_main_def ctl_os_def)
qed

text \<open>\<open>fan-ctl set-freq 50\<close> on the sample system.\<close>

definition sample_session :: session where
  "sample_session = \<lparr>fan = sample_world, daemon_vars = sample_daemon, stdout = []\<rparr>"

theorem fan_ctl_end_to_end_witness:
  "\<exists>s'. run_state (fan_ctl_main ctl_os (\<lambda>_. []) [''fan-ctl'', ''set-freq'', ''50'']) (sample_session, ()) =
      (Some 0, (s', ())) \<and> frequency (dev (fan s')) = 50 \<and> stdout s' = ''0'' @ [NL]"
proof -
  have p: "parse_command [''fan-ctl'', ''set-freq'', ''50''] = Some (Some (CMD_SET_FREQUENCY, 50))"
    by (simp add: parse_command_def atoi_def strtol_def strtol_unbounded_def is_space_def is_digit_def
        digits_val_def digit_val_def s32_range_def)
  have w: "manual_mode (dev sample_world)" "frequency (dev sample_world) = 2"
    by (simp_all add: sample_world_def loaded_dev_def)
  have spec: "(\<lparr>rs_status = 0, rs_value = 0\<rparr>, True, 50) =
      request_spec True 2 (world_temp sample_world) \<lparr>rq_cmd = cmd_code CMD_SET_FREQUENCY, rq_value = 50\<rparr>"
    by (simp add: request_spec_def)
  show ?thesis
    using fan_ctl_end_to_end [of sample_session "[''fan-ctl'', ''set-freq'', ''50'']" CMD_SET_FREQUENCY 50
        "\<lparr>rs_status = 0, rs_value = 0\<rparr>" True 50 "\<lambda>_. []"] sample_in_step p w spec
    by (auto simp: sample_session_def fmt_d_def fmt_u.simps)
qed

end
