(* ===== verification/Daemon_Clients.thy ===== *)
theory Daemon_Clients
  imports Daemon_Main
begin

text \<open>
  The connections of the daemon: which calls each part of the program can make, the accounting of
  accepted connections, and its invariant over the runs of the event loop in any environment.
\<close>

section \<open>Programs that leave the connections alone\<close>

fun session_call :: "call \<Rightarrow> bool" where
  "session_call (Accept _) = True"
| "session_call (Close _) = True"
| "session_call _ = False"

fun accept_call :: "call \<Rightarrow> bool" where
  "accept_call (Accept _) = True"
| "accept_call _ = False"

definition quiet :: "(call \<Rightarrow> bool) \<Rightarrow> bool" where
  "quiet p \<longleftrightarrow> (\<forall>c. p c \<longrightarrow> session_call c)"

lemma quietD: "quiet p \<Longrightarrow> \<not> session_call c \<Longrightarrow> \<not> p c"
  by (auto simp: quiet_def)

text \<open>The selected calls of the history, and the client table.\<close>

definition sessions ::
    "(call \<Rightarrow> bool) \<Rightarrow> call history \<times> daemon \<Rightarrow> call history \<times> event list \<times> nat" where
  "sessions p s = (filter (p \<circ> fst) (fst s), client_events (snd s), client_event_count (snd s))"

lemma sessions_call [simp]:
  "\<not> p c \<Longrightarrow> sessions p (h @ [(c, a)], d) = sessions p (h, d)"
  by (simp add: sessions_def)

lemma keeps_quiet_sysi [keeps_intros]:
  "\<not> p c \<Longrightarrow> keeps (sessions p) (sysi (recorder e) c)"
  by (intro keeps_sysi) simp

lemma keeps_quiet_sys [keeps_intros]:
  "\<not> p c \<Longrightarrow> keeps (sessions p) (sys (recorder e) c)"
  by (intro keeps_sys) simp


text \<open>The operations of the daemon that neither accept nor close, callees first.\<close>

lemma sessions_bus [keeps_intros]:
  assumes "quiet p"
  shows
    "keeps (sessions p) (send_command (recorder e) b)"
    "keeps (sessions p) (send_data (recorder e) b)"
    "keeps (sessions p) (set_led (recorder e) on)"
    "keeps (sessions p) (is_button_pressed (recorder e) fd)"
  using assms unfolding send_command_def send_data_def set_led_def is_button_pressed_def Let_def
  by (intro keeps_intros; simp add: quietD sessions_def)+

lemma sessions_fan [keeps_intros]:
  assumes "quiet p"
  shows
    "keeps (sessions p) (fan_init (recorder e))"
    "keeps (sessions p) (fan_get_cpu_temp (recorder e))"
    "keeps (sessions p) (fan_read_frequency (recorder e))"
    "keeps (sessions p) (fan_toggle_mode (recorder e))"
    "keeps (sessions p) (fan_set_frequency (recorder e) v)"
    "keeps (sessions p) (socket_init (recorder e))"
    "keeps (sessions p) (create_timer (recorder e) ms)"
    "keeps (sessions p) (register_events (recorder e))"
  using assms unfolding fan_init_def fan_get_cpu_temp_def fan_read_frequency_def fan_toggle_mode_def fan_set_frequency_def socket_init_def create_timer_def register_events_def Let_def
  by (intro keeps_intros; simp add: quietD sessions_def)+

lemma sessions_text [keeps_intros]:
  assumes "quiet p"
  shows
    "keeps (sessions p) (ssd1306_set_position (recorder e) c r)"
    "keeps (sessions p) (ssd1306_putc (recorder e) ch)"
    "keeps (sessions p) (fan_increase_frequency (recorder e))"
    "keeps (sessions p) (fan_decrease_frequency (recorder e))"
  using assms unfolding ssd1306_set_position_def ssd1306_putc_def fan_increase_frequency_def fan_decrease_frequency_def Let_def
  by (intro keeps_intros; simp add: quietD sessions_def)+

lemma sessions_manual_mode [keeps_intros]: "keeps (sessions p) fan_is_manual_mode"
  unfolding fan_is_manual_mode_def by (intro keeps_intros)

lemma sessions_puts [keeps_intros]:
  assumes "quiet p"
  shows
    "keeps (sessions p) (ssd1306_puts (recorder e) str)"
    "keeps (sessions p) (handle_request (recorder e) req)"
    "keeps (sessions p) (ssd1306_clear_display (recorder e))"
  using assms unfolding ssd1306_puts_def handle_request_def ssd1306_clear_display_def Let_def
  by (intro keeps_intros; simp add: quietD sessions_def)+

lemma sessions_screen [keeps_intros]:
  assumes "quiet p"
  shows
    "keeps (sessions p) (ssd1306_init (recorder e))"
    "keeps (sessions p) (screen_refresh (recorder e))"
  using assms unfolding ssd1306_init_def screen_refresh_def Let_def
  by (intro keeps_intros; simp add: quietD sessions_def)+

lemma sessions_screen_init [keeps_intros]:
  assumes "quiet p"
  shows
    "keeps (sessions p) (screen_init (recorder e))"
  using assms unfolding screen_init_def Let_def
  by (intro keeps_intros; simp add: quietD sessions_def)+

lemma quiet_session_call [simp]: "quiet session_call"
  by (simp add: quiet_def)

lemma quiet_accept_call [simp]: "quiet accept_call"
  unfolding quiet_def by (metis accept_call.elims(2) session_call.simps(1))

text \<open>Before the event loop, descriptors are closed but no connection is accepted.\<close>

lemma accepts_with_file [keeps_intros]:
  "(\<And>f. keeps (sessions accept_call) (body f)) \<Longrightarrow>
    keeps (sessions accept_call) (with_file (recorder e) path body)"
  unfolding with_file_def by (intro keeps_intros) simp_all

lemma accepts_main_setup: "keeps (sessions accept_call) (main_setup (recorder e))"
proof -
  have gpios: "keeps (sessions accept_call) (gpios_init (recorder e))"
    unfolding gpios_init_def write_number_def write_text_def
    by (intro keeps_intros) (simp_all add: sessions_def)
  have daemonize: "keeps (sessions accept_call) (daemonize (recorder e))"
    unfolding daemonize_def by (intro keeps_intros) simp_all
  have branch: "keeps P (case r of Inl s \<Rightarrow> return (Inl s) | Inr u \<Rightarrow> m)" if "keeps P m"
    for P :: "call history \<times> daemon \<Rightarrow> call history \<times> event list \<times> nat"
      and m :: "(call history \<times> daemon, int + unit) state" and r :: "int + unit"
    using that by (cases r) (simp_all add: keeps_return)
  show ?thesis
    unfolding main_setup_def
    by (intro keeps_bind daemonize branch gpios) (intro keeps_intros; simp add: sessions_def)+
qed

section \<open>The accounting of connections\<close>

text \<open>The connections a history has accepted and not closed.\<close>

fun track_client :: "call \<times> ret \<Rightarrow> int list \<Rightarrow> int list" where
  "track_client (Accept _, r) cs = (if fst r \<ge> 0 then fst r # cs else cs)"
| "track_client (Close fd, _) cs = remove1 fd cs"
| "track_client _ cs = cs"

definition open_clients :: "call history \<Rightarrow> int list" where
  "open_clients h = foldl (\<lambda>cs cr. track_client cr cs) [] h"

lemma open_clients_snoc [simp]: "open_clients (h @ [cr]) = track_client cr (open_clients h)"
  by (simp add: open_clients_def)

lemma track_client_quiet: "\<not> session_call (fst cr) \<Longrightarrow> track_client cr cs = cs"
  by (cases "(cr, cs)" rule: track_client.cases) auto

lemma open_clients_filter: "open_clients (filter (session_call \<circ> fst) h) = open_clients h"
  by (induction h rule: rev_induct)
     (simp_all add: track_client_quiet open_clients_snoc [simplified])

lemma no_accepts: "filter (accept_call \<circ> fst) h = [] \<Longrightarrow> open_clients h = []"
proof (induction h rule: rev_induct)
  case (snoc cr h)
  then show ?case by (cases "(cr, [] :: int list)" rule: track_client.cases) auto
qed (simp add: open_clients_def)

text \<open>The descriptors in the client table.\<close>

definition client_fds :: "daemon \<Rightarrow> int list" where
  "client_fds d = map ev_fd (take (client_event_count d) (client_events d))"

lemma mset_drop_slot:
  assumes "i < length xs"
  shows "mset (butlast (xs[i := last xs])) = mset xs - {#xs ! i#}"
proof -
  from assms obtain ys z where xs: "xs = ys @ [z]" by (cases xs rule: rev_cases) auto
  show ?thesis
  proof (cases "i = length ys")
    case False
    with assms xs have "i < length ys" by simp
    with xs show ?thesis
      by (simp add: list_update_append nth_append mset_update)
  qed (simp add: xs)
qed

lemma remove_from_cases:
  "i + n = client_event_count d \<Longrightarrow>
    (\<exists>j < client_event_count d. ev_fd (client_events d ! j) = fd \<and> remove_from n i fd d = drop_slot j d) \<or>
    remove_from n i fd d = d \<and> (\<forall>j. i \<le> j \<longrightarrow> j < client_event_count d \<longrightarrow> ev_fd (client_events d ! j) \<noteq> fd)"
proof (induction n arbitrary: i)
  case (Suc n)
  show ?case
  proof (cases "ev_fd (client_events d ! i) = fd")
    case False
    with Suc.IH [of "Suc i"] Suc.prems show ?thesis
      by (auto simp: Suc_le_eq) (metis le_neq_implies_less)
  next
    case True
    with Suc.prems show ?thesis by (auto intro!: exI [of _ i])
  qed
qed simp

definition client_inv :: "call history \<times> daemon \<Rightarrow> bool" where
  "client_inv s \<longleftrightarrow> (case s of (h, d) \<Rightarrow>
     length (client_events d) = MAX_SOCKET_CLIENTS \<and> client_event_count d \<le> MAX_SOCKET_CLIENTS \<and>
     mset (client_fds d) = mset (open_clients h) \<and>
     (\<forall>i < client_event_count d. ev_type (client_events d ! i) = SOCKET_CLIENT_REQUEST))"

lemma client_inv_sessions:
  assumes "sessions session_call s' = sessions session_call s"
  shows "client_inv s' \<longleftrightarrow> client_inv s"
proof -
  have "open_clients (fst s') = open_clients (fst s)"
    using assms open_clients_filter [of "fst s'"] open_clients_filter [of "fst s"]
    by (simp add: sessions_def)
  with assms show ?thesis
    by (cases s; cases s') (simp add: client_inv_def client_fds_def sessions_def)
qed

text \<open>Removing a descriptor keeps the invariant when its connection has just been closed.\<close>

lemma client_inv_drop:
  assumes "client_inv (h, d)" and "j < client_event_count d"
  shows "client_inv (h @ [(Close (ev_fd (client_events d ! j)), a)], drop_slot j d)"
proof -
  define xs where "xs = take (client_event_count d) (client_events d)"
  have xs: "length xs = client_event_count d" "xs ! j = client_events d ! j" "j < length xs"
    using assms by (auto simp: client_inv_def xs_def)
  then have "xs \<noteq> []" by auto
  from last_conv_nth [OF this] xs have last: "last xs = client_events d ! (client_event_count d - 1)"
    by (simp add: xs_def)
  have "client_fds (drop_slot j d) = map ev_fd (butlast (xs[j := last xs]))"
    using xs(1) by (simp add: client_fds_def drop_slot_def xs_def [symmetric] last butlast_conv_take
        take_update_swap) (simp add: xs_def take_update_swap min_def)
  then have "mset (client_fds (drop_slot j d)) = image_mset ev_fd (mset xs - {#xs ! j#})"
    using mset_drop_slot [OF xs(3)] by simp
  also have "\<dots> = mset (map ev_fd xs) - {#ev_fd (xs ! j)#}"
    using xs(3) by (simp add: image_mset_Diff)
  finally have "mset (client_fds (drop_slot j d)) = mset (client_fds d) - {#ev_fd (client_events d ! j)#}"
    using xs(2) by (simp add: client_fds_def xs_def)
  then show ?thesis
    using assms by (auto simp: client_inv_def drop_slot_def nth_list_update)
qed

lemma client_inv_remove:
  assumes "client_inv (h, d)"
  shows "client_inv (h @ [(Close fd, a)], remove_client fd d)"
proof -
  from remove_from_cases [of 0 "client_event_count d" d fd] consider
      (found) j where "j < client_event_count d" "ev_fd (client_events d ! j) = fd"
        "remove_client fd d = drop_slot j d"
    | (absent) "remove_client fd d = d" "\<forall>j < client_event_count d. ev_fd (client_events d ! j) \<noteq> fd"
    by (auto simp: remove_client_def)
  then show ?thesis
  proof cases
    case found
    with client_inv_drop [OF assms, of j a] show ?thesis by simp
  next
    case absent
    then have "fd \<notin> set (client_fds d)"
      using assms by (fastforce simp: client_fds_def client_inv_def in_set_conv_nth)
    then have "mset (client_fds d) - {#fd#} = mset (client_fds d)"
      by (simp add: diff_single_trivial)
    with assms absent show ?thesis by (simp add: client_inv_def)
  qed
qed

lemma client_inv_add:
  assumes "client_inv (h, d)" and "client_event_count d < 8" and "0 \<le> fst a"
  shows "client_inv (h @ [(Accept fd, a)], add_client (fst a) d)"
  using assms
  by (auto simp: client_inv_def add_client_def client_fds_def nth_list_update take_Suc_conv_app_nth
      less_Suc_eq)

section \<open>The invariant of the event loop\<close>

lemma client_inv_keeps:
  "keeps (sessions session_call) m \<Longrightarrow> client_inv s \<Longrightarrow> wp m s (\<lambda>_. client_inv)"
  by (erule keeps_wp) (auto dest: client_inv_sessions)

lemma client_inv_call:
  "\<not> session_call c \<Longrightarrow> client_inv (h @ [(c, a)], d) \<longleftrightarrow> client_inv (h, d)"
  by (intro client_inv_sessions) simp

lemma client_inv_accept:
  assumes "client_inv s" and "ev_type ev = SOCKET_ACCEPT_CLIENT"
  shows "wp (process_event (recorder e) ev) s (\<lambda>_. client_inv)"
proof (cases s)
  case (Pair h d)
  have refused: "client_inv (h @ [(Accept fd, c, bs), (Close c, b)], d)" if "\<not> c < 0" for fd c bs b
    using assms(1) that open_clients_snoc [of "h @ [(Accept fd, c, bs)]" "(Close c, b)"]
    by (simp add: Pair client_inv_def)
  have failed: "client_inv (h @ [(Accept fd, c, bs)], d)" if "c < 0" for fd c bs
    using assms(1) that by (simp add: Pair client_inv_def)
  have added: "client_inv (h @ [(Accept fd, c, bs), (Epoll_ctl ep op c fl u, b)], add_client c d)"
    if "\<not> c < 0" "\<not> 8 \<le> client_event_count d" for fd c bs ep op fl u b
    using client_inv_add [of h d "(c, bs)" fd] assms(1) that
      client_inv_call [of "Epoll_ctl ep op c fl u" "h @ [(Accept fd, c, bs)]" b] by (simp add: Pair)
  show ?thesis
    using assms(2)
    by (auto simp: Pair process_event_def socket_accept_client_def wp_simps
        intro!: wp_sysi_any refused failed added)
qed

text \<open>Serving a client closes its connection, and only that.\<close>

lemma wp_socket_handle_client:
  assumes Q: "\<And>h' d' a. sessions session_call (h', d') = sessions session_call (h, d) \<Longrightarrow>
    Q () (h' @ [(Close fd, a)], d')"
  shows "wp (socket_handle_client (recorder e) fd) (h, d) Q"
proof -
  have keep: "keeps (sessions session_call)
      (if b then return resp else handle_request (recorder e) req)" for b resp req
    by (intro keeps_intros) simp
  have finish: "wp (do { _ \<leftarrow> sysi (recorder e) (Send fd x); _ \<leftarrow> sysi (recorder e) (Close fd); return () }) s' Q"
    if "sessions session_call s' = sessions session_call (h @ [(Recv fd n, a)], d)" for s' x n a
    using that Q [of "fst s' @ [(Send fd x, b)]" "snd s'" for b]
    by (cases s') (auto simp: wp_simps intro!: wp_sysi_any)
  show ?thesis
    unfolding socket_handle_client_def Let_def wp_bind [of "sys _ _"] wp_bind [of "If _ _ _"]
    by (intro wp_sys_any keeps_wp [OF keep] finish)
qed

lemma client_inv_request:
  assumes "client_inv s" and "ev_type ev = SOCKET_CLIENT_REQUEST"
  shows "wp (process_event (recorder e) ev) s (\<lambda>_. client_inv)"
proof (cases s)
  case (Pair h d)
  have closed: "client_inv (h' @ [(Close fd, a), (Epoll_ctl ep op fd fl u, b)], remove_client fd d')"
    if "sessions session_call (h', d') = sessions session_call (h, d)"
    for h' d' a b fd ep op fl u
  proof -
    have "client_inv (h', d')" using client_inv_sessions [OF that] assms(1) by (simp add: Pair)
    from client_inv_remove [OF this, of fd a] show ?thesis
      using client_inv_call [of "Epoll_ctl ep op fd fl u" "h' @ [(Close fd, a)]" b] by simp
  qed
  show ?thesis
    using assms(2) unfolding Pair process_event_def
    by (auto simp: wp_simps intro!: wp_sysi_any wp_socket_handle_client closed)
qed

lemma client_inv_process_event:
  assumes "client_inv s"
  shows "wp (process_event (recorder e) ev) s (\<lambda>_. client_inv)"
proof -
  have fan_events: "keeps (sessions session_call) (process_event (recorder e) ev)"
    if "ev_type ev \<notin> {SOCKET_ACCEPT_CLIENT, SOCKET_CLIENT_REQUEST}"
    using that unfolding process_event_def
    by (cases "ev_type ev") (simp_all, (intro keeps_intros; simp)+)
  then show ?thesis
    using client_inv_accept [OF assms] client_inv_request [OF assms] client_inv_keeps [OF _ assms]
    by blast
qed

section \<open>Runs of the daemon\<close>

text \<open>
  A run starts where the start-up has succeeded in some environment; each step handles the event at
  some address, or waits, with any answers.
\<close>

inductive daemon_start :: "call history \<times> daemon \<Rightarrow> bool" where
  "run_state (main_setup (recorder e)) ([], initial_daemon) = (Inr (), s) \<Longrightarrow> daemon_start s"

inductive daemon_step :: "call history \<times> daemon \<Rightarrow> call history \<times> daemon \<Rightarrow> bool" where
  wait_step: "daemon_step (h, d) (h @ [(Epoll_wait ep n, a)], d)"
| event_step: "deref d addr = Some ev \<Longrightarrow> run_state (process_event (recorder e) ev) (h, d) = (r, t) \<Longrightarrow>
    daemon_step (h, d) t"

inductive_cases daemon_stepE: "daemon_step s t"

lemma start_client_inv: "daemon_start s \<Longrightarrow> client_inv s"
proof (erule daemon_start.cases)
  fix e t
  assume "s = t" and run: "run_state (main_setup (recorder e)) ([], initial_daemon) = (Inr (), t)"
  have "wp (main_setup (recorder e)) ([], initial_daemon)
      (\<lambda>_ t. sessions accept_call t = sessions accept_call ([], initial_daemon))"
    by (rule keeps_wp [OF accepts_main_setup])
  with run have "sessions accept_call t = sessions accept_call ([], initial_daemon)"
    by (simp add: wp_def)
  then show "client_inv s"
    unfolding \<open>s = t\<close>
    by (cases t) (simp add: sessions_def client_inv_def client_fds_def initial_daemon_def no_accepts)
qed

lemma run_client_inv:
  "client_inv s \<Longrightarrow> run_state (process_event (recorder e) ev) s = (r, t) \<Longrightarrow> client_inv t"
  using client_inv_process_event [of s e ev] by (simp add: wp_def)

lemma step_client_inv: "client_inv s \<Longrightarrow> daemon_step s t \<Longrightarrow> client_inv t"
  by (erule daemon_stepE) (auto simp: client_inv_call intro: run_client_inv)

lemma step_steps: "daemon_step s t \<Longrightarrow> daemon_step\<^sup>*\<^sup>* t u \<Longrightarrow> daemon_step\<^sup>*\<^sup>* s u"
  by (rule converse_rtranclp_into_rtranclp)

interpretation clients: kept_invariant daemon_start daemon_step client_inv
  by unfold_locales (fact start_client_inv, fact step_client_inv)

lemma process_event_steps:
  assumes "deref (snd s) addr = Some ev"
    and "\<And>r t. daemon_step s t \<Longrightarrow> Q r t"
  shows "wp (process_event (recorder e) ev) s Q"
  using assms by (cases s) (auto simp: wp_def intro: event_step split: prod.splits)

lemma dispatch_steps: "wp (dispatch (recorder e) addrs) s (\<lambda>_ t. daemon_step\<^sup>*\<^sup>* s t)"
proof (induction addrs arbitrary: s)
  case (Cons a addrs)
  obtain h d where s: "s = (h, d)" by (cases s)
  have IH: "wp (dispatch (recorder e) addrs) t (\<lambda>_ u. daemon_step\<^sup>*\<^sup>* (h, d) u)"
    if "daemon_step (h, d) t" for t
    using Cons.IH [of t] by (rule wp_mono) (rule step_steps [OF that])
  show ?case
  proof (cases "deref d a")
    case (Some ev)
    then show ?thesis
      using process_event_steps [of s a ev, OF _ IH] by (simp add: s wp_bind wp_getg del: recorder_simp)
  qed (simp add: s wp_simps)
qed (simp add: wp_simps)

lemma round_steps: "wp (event_round (recorder e)) s (\<lambda>_ t. daemon_step\<^sup>*\<^sup>* s t)"
proof (cases s)
  case (Pair h d)
  show ?thesis
    unfolding Pair event_round_def wp_bind wp_getg
  proof (rule wp_sys_any)
    fix a
    show "wp (dispatch (recorder e) (map of_char (rd_bytes 10 a)))
        (h @ [(Epoll_wait (epoll_fd d) 10, a)], d) (\<lambda>_ t. daemon_step\<^sup>*\<^sup>* (h, d) t)"
      by (rule wp_mono [OF dispatch_steps], rule step_steps, rule wait_step)
  qed
qed

lemma loop_steps: "wp (event_loop (recorder e) n) s (\<lambda>_ t. daemon_step\<^sup>*\<^sup>* s t)"
proof (induction n arbitrary: s)
  case (Suc n)
  have "wp (case r of None \<Rightarrow> return None | Some _ \<Rightarrow> event_loop (recorder e) n) t
      (\<lambda>_ u. daemon_step\<^sup>*\<^sup>* s u)" if "daemon_step\<^sup>*\<^sup>* s t" for r t
  proof (cases r)
    case (Some u)
    then show ?thesis using rtranclp_trans [OF that] by (simp, intro wp_mono [OF Suc.IH])
  qed (simp add: that wp_return)
  then show ?case
    unfolding event_loop.simps wp_bind by (rule wp_mono [OF round_steps])
qed (simp add: wp_simps)

section \<open>The interest list\<close>

lemma deref_client:
  "length (button_events d) = 3 \<Longrightarrow> i < length (client_events d) \<Longrightarrow>
    deref d (client_slot i) = Some (client_events d ! i)"
  by (simp add: deref_def event_memory_def nth_append)

lemma deref_socket: "length (button_events d) = 3 \<Longrightarrow> deref d socket_slot = Some (socket_event d)"
  by (simp add: deref_def event_memory_def nth_append)

definition registers :: "int \<Rightarrow> call \<times> ret \<Rightarrow> bool" where
  "registers fd cr \<longleftrightarrow> (\<exists>ep op fl u. fst cr = Epoll_ctl ep op fd fl u)"

lemma registers_simps [simp]:
  "registers fd (Epoll_ctl ep op fd' fl u, r) \<longleftrightarrow> fd' = fd"
  "\<not> registers fd (Accept s, r)" "\<not> registers fd (Recv a n, r)" "\<not> registers fd (Send a b, r)"
  "\<not> registers fd (Close a, r)"
  by (auto simp: registers_def)

lemma attribute_not_registers: "attribute_call (fst cr) \<Longrightarrow> \<not> registers fd cr"
  by (cases cr) (auto simp: registers_def)

lemma attributes_not_register:
  "list_all (attribute_call \<circ> fst) cs \<Longrightarrow> \<not> (\<exists>cr \<in> set cs. registers fd cr)"
  by (auto simp: list_all_iff dest: attribute_not_registers)

text \<open>The whole effect of a request event on the daemon and on the interest list.\<close>

lemma wp_request_event:
  assumes "ev_type ev = SOCKET_CLIENT_REQUEST"
    and Q: "\<And>cs m r. \<forall>cr \<in> set cs. registers fd cr \<longrightarrow> fd = ev_fd ev \<Longrightarrow>
      Q r (h @ cs, remove_client (ev_fd ev) (d\<lparr>fan_manual_mode := m\<rparr>))"
  shows "wp (process_event (recorder e) ev) (h, d) Q"
proof -
  have step: "Q 0 (h @ (Recv f n, r) # cs @ [(Send f x, r1), (Close f, r2), (Epoll_ctl ep op f fl u, r3)],
      remove_client f (d\<lparr>fan_manual_mode := m\<rparr>))"
    if "list_all (attribute_call \<circ> fst) cs" and "f = ev_fd ev" for n r cs x r1 r2 r3 ep op fl u m f
    using that attributes_not_register [OF that(1)] by (auto intro!: Q)
  show ?thesis
    using assms(1) step [of "[]" "ev_fd ev" _ _ _ _ _ _ _ _ _ _ "fan_manual_mode d"]
    unfolding process_event_def socket_handle_client_def Let_def
    by (auto simp: wp_simps intro!: wp_sysi_any wp_sys_any wp_handle_request step)
qed

section \<open>Properties\<close>

text \<open>C2. In any environment and after any number of rounds of the event loop, the connections that
  were accepted and not yet closed are exactly those in the client table, which never exceeds its
  eight slots: no connection is leaked, closed twice or overwritten.\<close>

theorem clients_accounted:
  "wp (main_prog (recorder e) rounds) ([], initial_daemon) (\<lambda>r (h, d).
     (\<exists>status. r = Inl status) \<or>
     (client_event_count d \<le> 8 \<and> mset (client_fds d) = mset (open_clients h)))"
proof -
  obtain r s where run: "run_state (main_setup (recorder e)) ([], initial_daemon) = (r, s)"
    by (rule prod.exhaust)
  show ?thesis
  proof (cases r)
    case (Inr u)
    then have start: "daemon_start s" using run by (auto intro: daemon_start.intros)
    have "wp (event_loop (recorder e) rounds) s (\<lambda>_. client_inv)"
      by (rule wp_mono [OF loop_steps]) (rule clients.reachable_inv [OF start])
    with run Inr show ?thesis
      by (auto simp: main_prog_def wp_def client_inv_def split: prod.splits)
  qed (simp add: main_prog_def wp_def run)
qed

text \<open>C21. The table's compaction leaves a stale address.  With clients \<open>a\<close> and \<open>b\<close> in slots 0 and 1,
  serving \<open>a\<close> moves \<open>b\<close>'s record to slot 0 and the next connection takes slot 1, but the interest
  list is not touched for \<open>b\<close>: the address it reports when \<open>b\<close> is ready is now the record of the new
  connection.\<close>

theorem stale_client_address:
  assumes "client_events d = \<lparr>ev_type = SOCKET_CLIENT_REQUEST, ev_fd = a\<rparr> #
                             \<lparr>ev_type = SOCKET_CLIENT_REQUEST, ev_fd = b\<rparr> # rest"
    and "client_event_count d = 2" and "length (button_events d) = 3"
    and "ev_type (socket_event d) = SOCKET_ACCEPT_CLIENT"
    and "\<And>h. fst (e h (Accept (server_sock_fd d))) = c" and "0 \<le> c"
    and "a \<noteq> b" and "c \<noteq> b"
  shows "deref d (client_slot 1) = Some \<lparr>ev_type = SOCKET_CLIENT_REQUEST, ev_fd = b\<rparr> \<and>
    wp (dispatch (recorder e) [client_slot 0, socket_slot]) (h, d) (\<lambda>r (h', d').
      r = Some () \<and>
      deref d' (client_slot 1) = Some \<lparr>ev_type = SOCKET_CLIENT_REQUEST, ev_fd = c\<rparr> \<and>
      \<not> (\<exists>cr \<in> set (drop (length h) h'). registers b cr))"
proof
  let ?ra = "\<lparr>ev_type = SOCKET_CLIENT_REQUEST, ev_fd = a\<rparr>"
  show "deref d (client_slot 1) = Some \<lparr>ev_type = SOCKET_CLIENT_REQUEST, ev_fd = b\<rparr>"
    using assms(1,3) deref_client [of d 1] by simp
  have d0: "deref d (client_slot 0) = Some ?ra"
    using assms(1,3) deref_client [of d 0] by simp
  have accept: "wp (dispatch (recorder e) [socket_slot]) (h @ cs, remove_client a (d\<lparr>fan_manual_mode := m\<rparr>))
     (\<lambda>r (h', d'). r = Some () \<and>
      deref d' (client_slot 1) = Some \<lparr>ev_type = SOCKET_CLIENT_REQUEST, ev_fd = c\<rparr> \<and>
      \<not> (\<exists>cr \<in> set (drop (length h) h'). registers b cr))"
    if "\<forall>cr \<in> set cs. registers b cr \<longrightarrow> b = a" for cs m
    using assms that
    by (auto simp: wp_simps deref_socket process_event_def socket_accept_client_def wp_sysi
        remove_client_def drop_slot_def add_client_def eval_nat_numeral deref_def event_memory_def nth_append)
  have "wp (process_event (recorder e) ?ra) (h, d)
    (\<lambda>_ s'. wp (dispatch (recorder e) [socket_slot]) s' (\<lambda>r (h', d'). r = Some () \<and>
      deref d' (client_slot 1) = Some \<lparr>ev_type = SOCKET_CLIENT_REQUEST, ev_fd = c\<rparr> \<and>
      \<not> (\<exists>cr \<in> set (drop (length h) h'). registers b cr)))"
  proof (rule wp_request_event [where fd = b], goal_cases)
    case (2 cs m r)
    then have "\<forall>cr \<in> set cs. registers b cr \<longrightarrow> b = a" by simp
    from accept [OF this, of m] show ?case by simp
  qed simp
  with d0 show "wp (dispatch (recorder e) [client_slot 0, socket_slot]) (h, d) (\<lambda>r (h', d').
      r = Some () \<and>
      deref d' (client_slot 1) = Some \<lparr>ev_type = SOCKET_CLIENT_REQUEST, ev_fd = c\<rparr> \<and>
      \<not> (\<exists>cr \<in> set (drop (length h) h'). registers b cr))"
    by (simp add: wp_bind wp_getg del: recorder_simp)
qed

definition two_clients :: daemon where
  "two_clients = initial_daemon\<lparr>
     client_events := [\<lparr>ev_type = SOCKET_CLIENT_REQUEST, ev_fd = 10\<rparr>,
        \<lparr>ev_type = SOCKET_CLIENT_REQUEST, ev_fd = 11\<rparr>] @ replicate 6 zero_event,
     client_event_count := 2,
     socket_event := \<lparr>ev_type = SOCKET_ACCEPT_CLIENT, ev_fd = 4\<rparr>\<rparr>"

text \<open>Clients 10 and 11 are connected, the next connection is 12.\<close>

theorem stale_client_address_witness:
  "deref two_clients (client_slot 1) = Some \<lparr>ev_type = SOCKET_CLIENT_REQUEST, ev_fd = 11\<rparr> \<and>
   wp (dispatch (recorder (\<lambda>h c. (12, []))) [client_slot 0, socket_slot]) ([], two_clients)
     (\<lambda>r (h', d'). r = Some () \<and>
        deref d' (client_slot 1) = Some \<lparr>ev_type = SOCKET_CLIENT_REQUEST, ev_fd = 12\<rparr> \<and>
        \<not> (\<exists>cr \<in> set (drop (length ([] :: call history)) h'). registers 11 cr))"
  by (rule stale_client_address [where a = 10 and rest = "replicate 6 zero_event"])
     (simp_all add: two_clients_def initial_daemon_def)

end
