(* ===== verification/Kmodule.thy ===== *)
theory Kmodule
  imports Csel_Prelude "HOL-Library.Multiset"
begin

text \<open>
  What the kernel modules share: the kernel services they call, as data, with the accounting of the
  resources that a history of calls holds; device numbers; and the reading of a byte stream through
  a \<open>read\<close> operation with a file position.
\<close>

section \<open>Kernel services\<close>

text \<open>
  Pointers are numbers, 0 is \<open>NULL\<close>, and an error pointer is its negative \<open>PTR_ERR\<close>.  The bytes of
  the answer to an allocation are the indeterminate contents of the block.  Character devices are
  named by their index in the module; a thread is named by the pointer of its task, a device by the
  resource that registered it.  \<open>Next_child\<close> is one step of the walk over the children of a node of the
  device tree: it takes a reference to the next child and drops the one to the previous child.  The
  memory of \<open>devm_kzalloc\<close> belongs to the device and is given back by the kernel, not by the module.
\<close>

datatype resource =
    Memory int
  | Region
  | Class int
  | Cdev nat
  | Node nat
  | Attribute string
  | Misc string
  | Pin nat
  | Irq int nat
  | Mapping int
  | Thread int
  | Child_ref string
  | Platform_driver string
  | Platform_device string nat
  | Proc_entry int string
  | Io_region nat
  | Attached resource string

text \<open>What is attached to a device (its attributes, the interrupts it manages) goes with the device: it
  is live as long as the device is held.\<close>

fun owner_held :: "resource multiset \<Rightarrow> resource \<Rightarrow> bool" where
  "owner_held m (Attached d s) \<longleftrightarrow> d \<in># m"
| "owner_held m r \<longleftrightarrow> True"

definition live :: "resource multiset \<Rightarrow> resource multiset" where
  "live m = filter_mset (owner_held m) m"

lemma live_empty [simp]: "live {#} = {#}"
  by (simp add: live_def)

datatype dcall =
    Next_child "string option" "string option"
  | Devm_kzalloc string
  | Dev_create_file resource string
  | Dev_remove_file resource string
  | Devm_request_irq resource int string
  | Platform_driver_register string
  | Platform_driver_unregister string
  | Platform_device_register string nat
  | Platform_device_unregister string nat
  | Proc_mkdir string
  | Proc_create int string
  | Remove_proc_entry int string
  | Request_mem_region nat nat
  | Release_mem_region nat nat
  | Remap_pfn_range nat nat nat

datatype mcall =
    Kmalloc nat
  | Kmalloc_array nat string
  | Kfree int
  | Alloc_chrdev_region string nat nat
  | Unregister_chrdev_region nat nat
  | Class_create string
  | Class_destroy int
  | Cdev_init nat
  | Cdev_add nat nat
  | Cdev_del nat
  | Device_create int nat string
  | Device_destroy int nat
  | Device_create_file string
  | Device_remove_file string
  | Misc_register string
  | Misc_deregister string
  | Pin_request nat string
  | Pin_direction_input nat
  | Pin_to_irq nat
  | Pin_free nat
  | Request_irq int string nat
  | Request_irq_shared int string nat
  | Free_irq int nat
  | Ioremap nat nat
  | Iounmap int
  | Ioread32 int
  | Kthread_run string
  | Kthread_stop int
  | Kthread_should_stop
  | Ssleep nat
  | Printk string
  | Copy_to_user string
  | Copy_from_user nat
  | Device dcall

text \<open>How one call changes the resources held; a release of something not held changes nothing.\<close>

fun device_effect :: "dcall \<Rightarrow> int \<Rightarrow> resource multiset \<Rightarrow> resource multiset" where
  "device_effect (Next_child c d) r m =
     (case d of None \<Rightarrow> id | Some x \<Rightarrow> add_mset (Child_ref x))
       (m - (case c of None \<Rightarrow> {#} | Some x \<Rightarrow> {#Child_ref x#}))"
| "device_effect (Dev_create_file d s) r m = (if r = 0 then add_mset (Attached d s) m else m)"
| "device_effect (Dev_remove_file d s) r m = m - {#Attached d s#}"
| "device_effect (Devm_request_irq d i s) r m = (if r = 0 then add_mset (Attached d s) m else m)"
| "device_effect (Platform_driver_register s) r m = (if r = 0 then add_mset (Platform_driver s) m else m)"
| "device_effect (Platform_driver_unregister s) r m = m - {#Platform_driver s#}"
| "device_effect (Platform_device_register s i) r m =
     (if r = 0 then add_mset (Platform_device s i) m else m)"
| "device_effect (Platform_device_unregister s i) r m = m - {#Platform_device s i#}"
| "device_effect (Proc_mkdir s) r m = (if r = 0 then m else add_mset (Proc_entry 0 s) m)"
| "device_effect (Proc_create d s) r m = (if r = 0 then m else add_mset (Proc_entry d s) m)"
| "device_effect (Remove_proc_entry d s) r m = m - {#Proc_entry d s#}"
| "device_effect (Request_mem_region a n) r m = (if r = 0 then m else add_mset (Io_region a) m)"
| "device_effect (Release_mem_region a n) r m = m - {#Io_region a#}"
| "device_effect _ r m = m"

fun resource_effect :: "mcall \<times> ret \<Rightarrow> resource multiset \<Rightarrow> resource multiset" where
  "resource_effect (Kmalloc n, r) m = (if fst r = 0 then m else add_mset (Memory (fst r)) m)"
| "resource_effect (Kmalloc_array n s, r) m = (if fst r = 0 then m else add_mset (Memory (fst r)) m)"
| "resource_effect (Kfree p, r) m = m - {#Memory p#}"
| "resource_effect (Alloc_chrdev_region s b n, r) m = (if fst r < 0 then m else add_mset Region m)"
| "resource_effect (Unregister_chrdev_region d n, r) m = m - {#Region#}"
| "resource_effect (Class_create s, r) m = (if fst r < 0 then m else add_mset (Class (fst r)) m)"
| "resource_effect (Class_destroy c, r) m = m - {#Class c#}"
| "resource_effect (Cdev_add i d, r) m = (if fst r = 0 then add_mset (Cdev i) m else m)"
| "resource_effect (Cdev_del i, r) m = m - {#Cdev i#}"
| "resource_effect (Device_create c d s, r) m = (if fst r < 0 then m else add_mset (Node d) m)"
| "resource_effect (Device_destroy c d, r) m = m - {#Node d#}"
| "resource_effect (Device_create_file s, r) m = (if fst r = 0 then add_mset (Attribute s) m else m)"
| "resource_effect (Device_remove_file s, r) m = m - {#Attribute s#}"
| "resource_effect (Misc_register s, r) m = (if fst r = 0 then add_mset (Misc s) m else m)"
| "resource_effect (Misc_deregister s, r) m = m - {#Misc s#}"
| "resource_effect (Pin_request p s, r) m = (if fst r = 0 then add_mset (Pin p) m else m)"
| "resource_effect (Pin_free p, r) m = m - {#Pin p#}"
| "resource_effect (Request_irq i s h, r) m = (if fst r = 0 then add_mset (Irq i h) m else m)"
| "resource_effect (Request_irq_shared i s h, r) m = (if fst r = 0 then add_mset (Irq i h) m else m)"
| "resource_effect (Free_irq i h, r) m = m - {#Irq i h#}"
| "resource_effect (Ioremap a n, r) m = (if fst r = 0 then m else add_mset (Mapping (fst r)) m)"
| "resource_effect (Iounmap p, r) m = m - {#Mapping p#}"
| "resource_effect (Kthread_run s, r) m = (if fst r < 0 then m else add_mset (Thread (fst r)) m)"
| "resource_effect (Kthread_stop t, r) m = m - {#Thread t#}"
| "resource_effect (Device d, r) m = device_effect d (fst r) m"
| "resource_effect (_, _) m = m"

definition resources :: "mcall history \<Rightarrow> resource multiset" where
  "resources h = foldl (\<lambda>m cr. resource_effect cr m) {#} h"

lemma resources_Nil [simp]: "resources [] = {#}"
  by (simp add: resources_def)

lemma resources_snoc [simp]: "resources (h @ [cr]) = resource_effect cr (resources h)"
  by (simp add: resources_def)

lemma resources_snoc2 [simp]:
  "resources (h @ [a, b]) = resource_effect b (resource_effect a (resources h))"
  by (simp add: resources_def)

lemma resources_snoc3 [simp]:
  "resources (h @ [a, b, c]) = resource_effect c (resource_effect b (resource_effect a (resources h)))"
  by (simp add: resources_def)

lemma resources_short [simp]:
  "resources [a] = resource_effect a {#}"
  "resources [a, b] = resource_effect b (resource_effect a {#})"
  by (simp_all add: resources_def)

lemma resources_snocs:
  "resources (h @ cr # cs) = resources ((h @ [cr]) @ cs)"
  by simp

text \<open>The resource a call gives back, and the calls of a history that gave back something the module
  did not hold at that moment.\<close>

fun device_released :: "dcall \<Rightarrow> resource option" where
  "device_released (Dev_remove_file d s) = Some (Attached d s)"
| "device_released (Platform_driver_unregister s) = Some (Platform_driver s)"
| "device_released (Platform_device_unregister s i) = Some (Platform_device s i)"
| "device_released (Remove_proc_entry d s) = Some (Proc_entry d s)"
| "device_released (Release_mem_region a n) = Some (Io_region a)"
| "device_released _ = None"

fun released :: "mcall \<Rightarrow> resource option" where
  "released (Kfree p) = (if p = 0 then None else Some (Memory p))"
| "released (Unregister_chrdev_region d n) = Some Region"
| "released (Class_destroy c) = Some (Class c)"
| "released (Cdev_del i) = Some (Cdev i)"
| "released (Device_destroy c d) = Some (Node d)"
| "released (Device_remove_file s) = Some (Attribute s)"
| "released (Misc_deregister s) = Some (Misc s)"
| "released (Pin_free p) = Some (Pin p)"
| "released (Free_irq i h) = Some (Irq i h)"
| "released (Iounmap p) = Some (Mapping p)"
| "released (Kthread_stop t) = Some (Thread t)"
| "released (Device d) = device_released d"
| "released _ = None"

definition unheld :: "mcall \<Rightarrow> resource multiset \<Rightarrow> resource list" where
  "unheld c m = (case released c of None \<Rightarrow> [] | Some r \<Rightarrow> if r \<in># m then [] else [r])"

primrec unheld_from :: "resource multiset \<Rightarrow> mcall history \<Rightarrow> resource list" where
  "unheld_from m [] = []"
| "unheld_from m (cr # h) = unheld (fst cr) m @ unheld_from (resource_effect cr m) h"

definition unheld_releases :: "mcall history \<Rightarrow> resource list" where
  "unheld_releases h = unheld_from {#} h"

lemma unheld_releases_Nil [simp]: "unheld_releases [] = []"
  by (simp add: unheld_releases_def)

lemma unheld_from_snoc:
  "unheld_from m (h @ [cr]) = unheld_from m h @ unheld (fst cr) (foldl (\<lambda>m cr. resource_effect cr m) m h)"
  by (induction h arbitrary: m) simp_all

lemma unheld_releases_snoc [simp]:
  "unheld_releases (h @ [cr]) = unheld_releases h @ unheld (fst cr) (resources h)"
  by (simp add: unheld_releases_def unheld_from_snoc resources_def)

lemma unheld_releases_snocs [simp]:
  "unheld_releases (h @ [a, b]) = unheld_releases (h @ [a]) @ unheld (fst b) (resources (h @ [a]))"
  "unheld_releases (h @ [a, b, c]) = unheld_releases (h @ [a, b]) @ unheld (fst c) (resources (h @ [a, b]))"
  using unheld_releases_snoc [of "h @ [a]" b] unheld_releases_snoc [of "h @ [a, b]" c]
  by (simp_all del: unheld_releases_snoc)

text \<open>One call seen through the accounting only; \<open>a\<close> is the number it answered.\<close>

lemma wp_call_accounted:
  assumes "\<And>a bs h'. a = fst (e h c) \<Longrightarrow> resources h' = resource_effect (c, (a, bs)) (resources h) \<Longrightarrow>
    unheld_releases h' = unheld_releases h @ unheld c (resources h) \<Longrightarrow> Q a (h', g)"
  shows "wp (sysi (recorder e) c) (h, g) Q"
  by (rule wp_call, rule assms [of "fst (e h c)" _ "snd (e h c)"]) simp_all

lemma wp_exec_accounted:
  assumes "\<And>a bs h'. a = fst (e h c) \<Longrightarrow> resources h' = resource_effect (c, (a, bs)) (resources h) \<Longrightarrow>
    unheld_releases h' = unheld_releases h @ unheld c (resources h) \<Longrightarrow> Q () (h', g)"
  shows "wp (exec (recorder e) c) (h, g) Q"
  unfolding exec_def wp_bind wp_return by (rule wp_call_accounted) (rule assms)

lemma wp_sys_accounted:
  assumes "\<And>h'. resources h' = resource_effect (c, e h c) (resources h) \<Longrightarrow>
    unheld_releases h' = unheld_releases h @ unheld c (resources h) \<Longrightarrow> Q (e h c) (h', g)"
  shows "wp (sys (recorder e) c) (h, g) Q"
  by (rule wp_call_bytes, rule assms) simp_all

text \<open>Releasing a list of resources, one call each.\<close>

lemma wp_release_list:
  assumes effect: "\<And>x r m. resource_effect (c x, r) m = m - {#res x#}"
    and Q: "\<And>h'. resources h' = resources h - mset (map res xs) \<Longrightarrow> Q () (h', g)"
  shows "wp (for_each xs (\<lambda>x. do { _ \<leftarrow> sysi (recorder e) (c x); return () })) (h, g) Q"
  using Q
proof (induction xs arbitrary: h)
  case Nil
  then show ?case by (simp add: wp_simps)
next
  case (Cons x xs)
  show ?case
    unfolding wp_for_each_Cons wp_bind wp_return
    by (rule wp_sysi_any, rule Cons.IH) (simp add: Cons.prems effect)
qed

text \<open>A failing \<open>copy_from_user\<close> that could not copy \<open>k\<close> bytes has stored the others, and zeroes
  for the rest.\<close>

definition copied_in :: "nat \<Rightarrow> string \<Rightarrow> string" where
  "copied_in k s = take (length s - k) s @ replicate (min (length s) k) NUL"

lemma length_copied_in [simp]: "length (copied_in k s) = length s"
  by (simp add: copied_in_def)

lemma copied_in_0 [simp]: "copied_in 0 s = s"
  by (simp add: copied_in_def)

lemma copied_in_zeroes: "0 < k \<Longrightarrow> s \<noteq> [] \<Longrightarrow> NUL \<in> set (copied_in k s)"
  by (simp add: copied_in_def)

definition kfree :: "('w, mcall) os \<Rightarrow> int \<Rightarrow> ('w, 'g, unit) prog" where
  "kfree os p = do { _ \<leftarrow> sysi os (Kfree p); return () }"

lemma wp_kfree: "(\<And>h'. resources h' = resources h - {#Memory p#} \<Longrightarrow> Q () (h', g)) \<Longrightarrow>
    wp (kfree (recorder e) p) (h, g) Q"
  by (auto simp: kfree_def wp_simps intro!: wp_sysi_any)

text \<open>\<open>strlen\<close> on a block: \<open>None\<close> when it runs past the end.\<close>

definition strlen :: "string \<Rightarrow> nat option" where
  "strlen s = (if NUL \<in> set s then Some (length (c_str s)) else None)"

lemma strlen_Some: "NUL \<in> set s \<Longrightarrow> strlen s = Some (length (c_str s))"
  by (simp add: strlen_def)

text \<open>\<open>kstrtol\<close> in base 10: a sign, digits, at most one newline; the error or the number.\<close>

definition kstrtol :: "string \<Rightarrow> int + int" where
  "kstrtol s =
     (let neg = (s \<noteq> [] \<and> hd s = CHR ''-'');
          ds = (if s \<noteq> [] \<and> hd s \<in> {CHR ''-'', CHR ''+''} then tl s else s);
          n = int (digits_val ds);
          v = (if neg then - n else n)
      in if n \<ge> 2 ^ 64 then Inl (- ERANGE)
         else if takeWhile is_digit ds = [] \<or> dropWhile is_digit ds \<notin> {[], [NL]} then Inl (- EINVAL)
         else if v < - (2 ^ 63) \<or> 2 ^ 63 \<le> v then Inl (- ERANGE)
         else Inr v)"

lemma kstrtol_fmt_d:
  assumes "- (2 ^ 63) \<le> i" and "i < 2 ^ 63"
  shows "kstrtol (fmt_d i @ [NL]) = Inr i"
proof -
  have nl: "\<not> is_digit NL" by (simp add: is_digit_def)
  have d: "takeWhile is_digit (fmt_u n @ [NL]) = fmt_u n" "dropWhile is_digit (fmt_u n @ [NL]) = [NL]" for n
    using fmt_u_digits [of _ n] nl by (simp_all add: takeWhile_append2 dropWhile_append2)
  have v: "digits_val (fmt_u n @ [NL]) = n" for n
    by (rule digits_val_fmt_u) (simp add: nl)
  have h: "hd (fmt_u n) \<noteq> CHR ''-'' \<and> hd (fmt_u n) \<noteq> CHR ''+''" for n
    using is_digit_not_special [OF fmt_u_digits [OF hd_in_set [OF fmt_u_not_Nil]]] by blast
  show ?thesis
    using assms h [of "nat i"] by (auto simp: kstrtol_def fmt_d_def Let_def d v)
qed

section \<open>Device numbers\<close>

definition MAJOR :: "nat \<Rightarrow> nat" where "MAJOR d = drop_bit 20 d"
definition MINOR :: "nat \<Rightarrow> nat" where "MINOR d = take_bit 20 d"
definition MKDEV :: "nat \<Rightarrow> nat \<Rightarrow> nat" where "MKDEV ma mi = push_bit 20 ma OR mi"

lemma MKDEV_self [simp]: "MKDEV (MAJOR d) (MINOR d) = d"
proof -
  have "push_bit 20 (drop_bit 20 d) OR take_bit 20 d = d"
    by (rule bit_eqI) (auto simp: bit_simps)
  then show ?thesis by (simp add: MKDEV_def MAJOR_def MINOR_def)
qed

lemma MINOR_MKDEV: "mi < 2 ^ 20 \<Longrightarrow> MINOR (MKDEV ma mi) = mi"
proof -
  assume "mi < 2 ^ 20"
  then have "take_bit 20 mi = mi" by (simp add: take_bit_nat_eq_self)
  moreover have "take_bit 20 (push_bit 20 ma OR mi) = take_bit 20 mi"
    by (rule bit_eqI) (auto simp: bit_simps)
  ultimately show ?thesis by (simp add: MINOR_def MKDEV_def)
qed

section \<open>Reading a stream\<close>

text \<open>
  A user of a character device: \<open>read\<close> in chunks until it returns 0, from a file position.  \<open>fuel\<close>
  bounds the number of reads; \<open>None\<close> when it runs out or a read fails.
\<close>

primrec read_to_end ::
    "nat \<Rightarrow> (nat \<Rightarrow> nat \<Rightarrow> int \<times> string \<times> nat) \<Rightarrow> nat \<Rightarrow> nat \<Rightarrow> string option" where
  "read_to_end 0 rd chunk off = None"
| "read_to_end (Suc fuel) rd chunk off =
     (case rd chunk off of (n, bytes, off') \<Rightarrow>
        if n = 0 then Some []
        else if n < 0 then None
        else map_option ((@) bytes) (read_to_end fuel rd chunk off'))"

locale text_stream =
  fixes rd :: "'s \<Rightarrow> nat \<Rightarrow> nat \<Rightarrow> int \<times> string \<times> nat"
    and contents :: "'s \<Rightarrow> string"
    and ok :: "'s \<Rightarrow> bool"
  assumes rd_within: "ok s \<Longrightarrow> off \<le> length (contents s) \<Longrightarrow> rd s chunk off =
    (let n = min chunk (length (contents s) - off) in
       (int n, take n (drop off (contents s)), off + n))"
begin

text \<open>Reading in chunks of any positive size delivers the rest of the contents and ends.\<close>

lemma read_rest:
  assumes "ok s" and "0 < chunk"
  shows "off \<le> length (contents s) \<Longrightarrow> length (contents s) - off < fuel \<Longrightarrow>
    read_to_end fuel (rd s) chunk off = Some (drop off (contents s))"
proof (induction fuel arbitrary: off)
  case (Suc fuel)
  define n where "n = min chunk (length (contents s) - off)"
  have r: "rd s chunk off = (int n, take n (drop off (contents s)), off + n)"
    using rd_within [OF assms(1) Suc.prems(1)] by (simp add: n_def Let_def)
  show ?case
  proof (cases "n = 0")
    case True
    then have "length (contents s) \<le> off" using assms(2) by (auto simp: n_def)
    with True r show ?thesis by simp
  next
    case False
    then have "off + n \<le> length (contents s)" "length (contents s) - (off + n) < fuel"
      using Suc.prems by (auto simp: n_def)
    from Suc.IH [OF this] have "read_to_end fuel (rd s) chunk (off + n) =
        Some (drop n (drop off (contents s)))" by (simp add: add.commute)
    with False r show ?thesis by (simp del: drop_drop)
  qed
qed simp

end

text \<open>The stronger interface also answers past the end, with nothing.\<close>

locale byte_stream =
  fixes rd :: "'s \<Rightarrow> nat \<Rightarrow> nat \<Rightarrow> int \<times> string \<times> nat"
    and contents :: "'s \<Rightarrow> string"
    and ok :: "'s \<Rightarrow> bool"
  assumes rd: "ok s \<Longrightarrow> rd s chunk off =
    (let n = min chunk (length (contents s) - off) in
       (int n, take n (drop off (contents s)), off + n))"

sublocale byte_stream \<subseteq> texts: text_stream rd contents ok
  by unfold_locales (rule rd)

context byte_stream
begin

lemma read_to_end:
  assumes "ok s" and "0 < chunk" and "length (contents s) - off < fuel"
  shows "read_to_end fuel (rd s) chunk off = Some (drop off (contents s))"
proof (cases "off \<le> length (contents s)")
  case True
  then show ?thesis using assms by (intro texts.read_rest)
next
  case False
  with rd [OF assms(1)] assms(3) show ?thesis by (cases fuel) simp_all
qed

end

end
