(* ===== verification/Chardev.thy ===== *)
theory Chardev
  imports Kmodule
begin

text \<open>
  The character driver \<^verbatim>\<open>src/03_drivers/exercise02_to_03/skeleton.c\<close>: a configurable number of
  devices, each with a buffer of 256 bytes; loading with its clean-up paths, unloading, and the file
  operations.  Log messages are not modelled.
\<close>

section \<open>Statics\<close>

record skeleton_device =
  sd_name :: string
  sd_dev :: nat

text \<open>
  \<open>devices_ptr\<close>, \<open>buffers_ptr\<close> and \<open>class_ptr\<close> are the pointers \<open>skeleton_devices\<close>,
  \<open>skeleton_buffers\<close> and \<open>skeleton_class\<close>; \<open>devices\<close> and \<open>buffers\<close> what the first two point to, and
  \<open>blocks\<close> the bytes of the buffers.
\<close>

record chardev =
  devices_number :: int
  devices_ptr :: int
  devices :: "skeleton_device list"
  buffers_ptr :: int
  buffers :: "int list"
  blocks :: "string list"
  class_ptr :: int

definition unloaded :: "int \<Rightarrow> chardev" where
  "unloaded n = \<lparr>devices_number = n, devices_ptr = 0, devices = [], buffers_ptr = 0, buffers = [],
     blocks = [], class_ptr = 0\<rparr>"

abbreviation (input) SKELETON_BUFFER_SIZE :: nat where "SKELETON_BUFFER_SIZE \<equiv> 256"

section \<open>File operations\<close>

text \<open>The private data of an open file is the index of its buffer; \<open>f_mode\<close> only selects a message.\<close>

definition skeleton_open :: "chardev \<Rightarrow> nat \<Rightarrow> int \<times> nat option" where
  "skeleton_open d iminor =
     (let idx = int iminor - int (MINOR (sd_dev (devices d ! 0))) in
      if idx < 0 \<or> idx \<ge> devices_number d then (- ENODEV, None)
      else (0, Some (nat idx)))"

definition skeleton_release :: "chardev \<Rightarrow> int" where
  "skeleton_release d = 0"

definition strnlen :: "string \<Rightarrow> nat \<Rightarrow> nat" where
  "strnlen s n = length (c_str (take n s))"

text \<open>
  \<open>fault s\<close> is what \<open>copy_to_user\<close> and \<open>copy_from_user\<close> return for the bytes \<open>s\<close>: how many they
  could not copy.  File positions are not negative (the kernel refuses them).  The result of a read
  is the return value, the bytes stored and the new position.
\<close>

definition skeleton_read ::
    "(string \<Rightarrow> nat) \<Rightarrow> string option \<Rightarrow> nat \<Rightarrow> nat \<Rightarrow> int \<times> string \<times> nat" where
  "skeleton_read fault private_data sz off =
     (case private_data of
        None \<Rightarrow> (0, [], off)
      | Some data \<Rightarrow>
          let len = strnlen data SKELETON_BUFFER_SIZE in
          if off \<ge> len then (0, [], off)
          else
            let sz = (if sz > len - off then len - off else sz);
                bytes = take sz (drop off data)
            in if fault bytes \<noteq> 0 then (- EFAULT, [], off)
               else (int sz, bytes, off + sz))"

text \<open>\<open>buf\<close> is the user's buffer, of \<open>count\<close> bytes; the result is the return value, the device
  buffer and the new position.\<close>

definition skeleton_write ::
    "(string \<Rightarrow> nat) \<Rightarrow> string option \<Rightarrow> string \<Rightarrow> nat \<Rightarrow> int \<times> string option \<times> nat" where
  "skeleton_write fault private_data buf off =
     (case private_data of
        None \<Rightarrow> (- ENODEV, None, off)
      | Some data \<Rightarrow>
          let bytes_to_copy = min (length buf) (SKELETON_BUFFER_SIZE - 1);
              src = take bytes_to_copy buf;
              data' = overlay (copied_in (fault src) src) data
          in if fault src \<noteq> 0 then (- EFAULT, Some data', off)
             else (int bytes_to_copy, Some (data'[bytes_to_copy := NUL]), 0))"

section \<open>Loading\<close>

text \<open>The repeated parts of the clean-up: the first \<open>n\<close> buffers, and the two tables.\<close>

definition free_buffers :: "('w, mcall) os \<Rightarrow> nat \<Rightarrow> ('w, chardev, unit) prog" where
  "free_buffers os n = do { d \<leftarrow> getg; for_each (take n (buffers d)) (kfree os) }"

definition free_tables :: "('w, mcall) os \<Rightarrow> ('w, chardev, unit) prog" where
  "free_tables os = do {
     d \<leftarrow> getg;
     kfree os (buffers_ptr d);
     modg (\<lambda>d. d\<lparr>buffers_ptr := 0\<rparr>);
     kfree os (devices_ptr d);
     modg (\<lambda>d. d\<lparr>devices_ptr := 0\<rparr>) }"

text \<open>The loop that allocates the buffers, from buffer \<open>i\<close> on, \<open>n\<close> more.\<close>

primrec alloc_buffers :: "nat \<Rightarrow> ('w, mcall) os \<Rightarrow> nat \<Rightarrow> ('w, chardev, int) prog" where
  "alloc_buffers 0 os i = return 0"
| "alloc_buffers (Suc n) os i = do {
     r \<leftarrow> sys os (Kmalloc SKELETON_BUFFER_SIZE);
     modg (\<lambda>d. d\<lparr>buffers := take i (buffers d) @ [fst r]\<rparr>);
     if fst r = 0 then do {
       free_buffers os i;
       free_tables os;
       return (- ENOMEM) }
     else do {
       modg (\<lambda>d. d\<lparr>blocks := take i (blocks d) @ [(sized SKELETON_BUFFER_SIZE (snd r))[0 := NUL]]\<rparr>);
       alloc_buffers n os (Suc i) } }"

text \<open>The device number that \<open>alloc_chrdev_region\<close> stores comes with its answer.\<close>

definition stored_dev :: "ret \<Rightarrow> nat" where
  "stored_dev r = foldr (\<lambda>c v. of_char c + 256 * v) (take 4 (snd r)) 0"

definition device_dev :: "chardev \<Rightarrow> nat \<Rightarrow> nat" where
  "device_dev d i = sd_dev (devices d ! i)"

definition number_of :: "chardev \<Rightarrow> nat" where
  "number_of d = nat (devices_number d)"

definition unregister_region :: "('w, mcall) os \<Rightarrow> ('w, chardev, unit) prog" where
  "unregister_region os = do {
     d \<leftarrow> getg;
     _ \<leftarrow> sysi os (Unregister_chrdev_region (device_dev d 0) (number_of d));
     return () }"

definition destroy_class :: "('w, mcall) os \<Rightarrow> ('w, chardev, unit) prog" where
  "destroy_class os = do {
     d \<leftarrow> getg;
     _ \<leftarrow> sysi os (Class_destroy (class_ptr d));
     modg (\<lambda>d. d\<lparr>class_ptr := 0\<rparr>) }"

definition cdev_del :: "('w, mcall) os \<Rightarrow> nat \<Rightarrow> ('w, 'g, unit) prog" where
  "cdev_del os i = do { _ \<leftarrow> sysi os (Cdev_del i); return () }"

definition device_destroy :: "('w, mcall) os \<Rightarrow> nat \<Rightarrow> ('w, chardev, unit) prog" where
  "device_destroy os i = do {
     d \<leftarrow> getg;
     _ \<leftarrow> sysi os (Device_destroy (class_ptr d) (device_dev d i));
     return () }"

text \<open>The loop that adds the devices, from device \<open>i\<close> on, \<open>n\<close> more.\<close>

primrec add_devices :: "nat \<Rightarrow> ('w, mcall) os \<Rightarrow> nat \<Rightarrow> ('w, chardev, int) prog" where
  "add_devices 0 os i = return 0"
| "add_devices (Suc n) os i = do {
     modg (\<lambda>d. d\<lparr>devices := (devices d)[i :=
       \<lparr>sd_name = take 19 (''skeleton'' @ fmt_u i),
        sd_dev = MKDEV (MAJOR (device_dev d 0)) (MINOR (device_dev d 0) + i)\<rparr>]\<rparr>);
     d \<leftarrow> getg;
     _ \<leftarrow> sysi os (Cdev_init i);
     status \<leftarrow> sysi os (Cdev_add i (device_dev d i));
     if status \<noteq> 0 then do {
       for_each [0..<i] (cdev_del os);
       unregister_region os;
       free_buffers os (number_of d);
       free_tables os;
       destroy_class os;
       return status }
     else do {
       p \<leftarrow> sysi os (Device_create (class_ptr d) (device_dev d i) (sd_name (devices d ! i)));
       if p < 0 then do {
         cdev_del os i;
         for_each [0..<i] (\<lambda>j. do { device_destroy os j; cdev_del os j });
         destroy_class os;
         unregister_region os;
         free_buffers os (number_of d);
         free_tables os;
         return (- ENOMEM) }
       else add_devices n os (Suc i) } }"

definition skeleton_init :: "('w, mcall) os \<Rightarrow> ('w, chardev, int) prog" where
  "skeleton_init os = do {
     d \<leftarrow> getg;
     if devices_number d \<le> 0 then return (- EINVAL) else do {
     let n = number_of d;
     p \<leftarrow> sysi os (Kmalloc_array n ''struct skeleton_device'');
     modg (\<lambda>d. d\<lparr>devices_ptr := p, devices := replicate n \<lparr>sd_name = [], sd_dev = 0\<rparr>\<rparr>);
     if p = 0 then return (- ENOMEM) else do {
     b \<leftarrow> sysi os (Kmalloc_array n ''char *'');
     modg (\<lambda>d. d\<lparr>buffers_ptr := b\<rparr>);
     if b = 0 then do {
       kfree os p;
       modg (\<lambda>d. d\<lparr>devices_ptr := 0\<rparr>);
       return (- ENOMEM) } else do {
     status \<leftarrow> alloc_buffers n os 0;
     if status \<noteq> 0 then return status else do {
     r \<leftarrow> sys os (Alloc_chrdev_region ''skeleton'' 0 n);
     modg (\<lambda>d. d\<lparr>devices := (devices d)[0 := (devices d ! 0)\<lparr>sd_dev := stored_dev r\<rparr>]\<rparr>);
     if fst r < 0 then do {
       free_buffers os n;
       free_tables os;
       return (fst r) } else do {
     c \<leftarrow> sysi os (Class_create ''skeleton'');
     modg (\<lambda>d. d\<lparr>class_ptr := c\<rparr>);
     if c < 0 then do {
       modg (\<lambda>d. d\<lparr>class_ptr := 0\<rparr>);
       unregister_region os;
       free_buffers os n;
       free_tables os;
       return c } else
     add_devices n os 0 }}}}}}"

definition skeleton_exit :: "('w, mcall) os \<Rightarrow> ('w, chardev, unit) prog" where
  "skeleton_exit os = do {
     d \<leftarrow> getg;
     (if class_ptr d \<noteq> 0 \<and> devices_ptr d \<noteq> 0 then do {
        for_each [0..<number_of d] (device_destroy os);
        destroy_class os }
      else return ());
     (if devices_ptr d \<noteq> 0 then do {
        for_each [0..<number_of d] (cdev_del os);
        unregister_region os;
        kfree os (devices_ptr d);
        modg (\<lambda>d. d\<lparr>devices_ptr := 0\<rparr>) }
      else return ());
     (if buffers_ptr d \<noteq> 0 then do {
        free_buffers os (number_of d);
        kfree os (buffers_ptr d);
        modg (\<lambda>d. d\<lparr>buffers_ptr := 0\<rparr>) }
      else return ()) }"

section \<open>Resources\<close>

lemma wp_free_buffers:
  "(\<And>h'. resources h' = resources h - mset (map Memory (take n (buffers d))) \<Longrightarrow> Q () (h', d)) \<Longrightarrow>
    wp (free_buffers (recorder e) n) (h, d) Q"
  unfolding free_buffers_def kfree_def wp_bind [of getg] wp_getg
  by (rule wp_release_list [where res = Memory]) simp_all

lemma wp_free_tables:
  "(\<And>h'. resources h' = resources h - {#Memory (buffers_ptr d)#} - {#Memory (devices_ptr d)#} \<Longrightarrow>
      Q () (h', d\<lparr>buffers_ptr := 0, devices_ptr := 0\<rparr>)) \<Longrightarrow>
    wp (free_tables (recorder e)) (h, d) Q"
  unfolding free_tables_def wp_bind wp_getg
  by (intro wp_kfree) (simp add: wp_modg wp_bind, intro wp_kfree, simp add: wp_modg)

lemma wp_unregister_region:
  "(\<And>h'. resources h' = resources h - {#Region#} \<Longrightarrow> Q () (h', d)) \<Longrightarrow>
    wp (unregister_region (recorder e)) (h, d) Q"
  by (auto simp: unregister_region_def wp_simps intro!: wp_sysi_any)

lemma wp_destroy_class:
  "(\<And>h'. resources h' = resources h - {#Class (class_ptr d)#} \<Longrightarrow> Q () (h', d\<lparr>class_ptr := 0\<rparr>)) \<Longrightarrow>
    wp (destroy_class (recorder e)) (h, d) Q"
  by (auto simp: destroy_class_def wp_simps intro!: wp_sysi_any)

lemma wp_cdev_del:
  "(\<And>h'. resources h' = resources h - {#Cdev i#} \<Longrightarrow> Q () (h', d)) \<Longrightarrow>
    wp (cdev_del (recorder e) i) (h, d) Q"
  by (auto simp: cdev_del_def wp_simps intro!: wp_sysi_any)

lemma wp_cdev_dels:
  "(\<And>h'. resources h' = resources h - mset (map Cdev xs) \<Longrightarrow> Q () (h', d)) \<Longrightarrow>
    wp (for_each xs (cdev_del (recorder e))) (h, d) Q"
  unfolding cdev_del_def by (rule wp_release_list [where res = Cdev]) simp_all

lemma wp_device_destroy:
  "(\<And>h'. resources h' = resources h - {#Node (device_dev d i)#} \<Longrightarrow> Q () (h', d)) \<Longrightarrow>
    wp (device_destroy (recorder e) i) (h, d) Q"
  by (auto simp: device_destroy_def wp_simps intro!: wp_sysi_any)

lemma wp_device_destroys:
  "(\<And>h'. resources h' = resources h - mset (map (\<lambda>i. Node (device_dev d i)) xs) \<Longrightarrow> Q () (h', d)) \<Longrightarrow>
    wp (for_each xs (device_destroy (recorder e))) (h, d) Q"
proof (induction xs arbitrary: h)
  case (Cons x xs)
  show ?case
    unfolding wp_for_each_Cons by (rule wp_device_destroy, rule Cons.IH) (simp add: Cons.prems)
qed (simp add: wp_simps)

lemma wp_remove_devices:
  "(\<And>h'. resources h' = resources h - mset (map (\<lambda>i. Node (device_dev d i)) xs) - mset (map Cdev xs) \<Longrightarrow>
      Q () (h', d)) \<Longrightarrow>
    wp (for_each xs (\<lambda>j. do { device_destroy (recorder e) j; cdev_del (recorder e) j })) (h, d) Q"
proof (induction xs arbitrary: h)
  case (Cons x xs)
  show ?case
    unfolding wp_for_each_Cons wp_bind
    by (rule wp_device_destroy, rule wp_cdev_del, rule Cons.IH) (simp add: Cons.prems)
qed (simp add: wp_simps)

lemmas wp_cleanup = wp_kfree wp_free_buffers wp_free_tables wp_unregister_region wp_destroy_class
  wp_cdev_del wp_cdev_dels wp_device_destroys wp_remove_devices

text \<open>Nothing of the module is left but, perhaps, device nodes.\<close>

definition only_nodes :: "mcall history \<Rightarrow> chardev \<Rightarrow> bool" where
  "only_nodes h d \<longleftrightarrow> set_mset (resources h) \<subseteq> range Node \<and>
     devices_ptr d = 0 \<and> buffers_ptr d = 0 \<and> class_ptr d = 0"

definition tables :: "chardev \<Rightarrow> resource multiset" where
  "tables d = {#Memory (devices_ptr d), Memory (buffers_ptr d)#}"

definition memory :: "nat \<Rightarrow> chardev \<Rightarrow> resource multiset" where
  "memory i d = tables d + mset (map Memory (take i (buffers d)))"

definition added :: "nat \<Rightarrow> chardev \<Rightarrow> resource multiset" where
  "added i d = mset (map Cdev [0..<i]) + mset (map (\<lambda>j. Node (device_dev d j)) [0..<i])"

lemma wp_alloc_buffers:
  assumes "resources h = memory i d" and "length (buffers d) = i" and "class_ptr d = 0"
    and finish: "\<And>h' d'. resources h' = memory (i + n) d' \<Longrightarrow> length (buffers d') = i + n \<Longrightarrow>
      devices_number d' = devices_number d \<Longrightarrow> devices d' = devices d \<Longrightarrow> class_ptr d' = 0 \<Longrightarrow>
      devices_ptr d' = devices_ptr d \<Longrightarrow> buffers_ptr d' = buffers_ptr d \<Longrightarrow> Q 0 (h', d')"
    and fails: "\<And>h' d'. only_nodes h' d' \<Longrightarrow> Q (- ENOMEM) (h', d')"
  shows "wp (alloc_buffers n (recorder e) i) (h, d) Q"
  using assms
proof (induction n arbitrary: h i d)
  case 0
  then show ?case by (simp add: wp_simps)
next
  case (Suc n)
  show ?case
    unfolding alloc_buffers.simps wp_bind
  proof (rule wp_sys_any, unfold wp_modg wp_if, split if_split, intro conjI impI)
    fix a :: ret
    assume "fst a = 0"
    then show "wp (do { free_buffers (recorder e) i; free_tables (recorder e); return (- ENOMEM) })
        (h @ [(Kmalloc 256, a)], d\<lparr>buffers := take i (buffers d) @ [fst a]\<rparr>) Q"
      using Suc.prems(1-3)
      by (auto simp: wp_bind wp_return only_nodes_def memory_def tables_def
          intro!: wp_free_buffers wp_free_tables Suc.prems(5))
  next
    fix a :: ret
    assume "fst a \<noteq> 0"
    then show "wp (do { modg (\<lambda>d. d\<lparr>blocks := take i (blocks d) @ [(sized 256 (snd a))[0 := NUL]]\<rparr>);
          alloc_buffers n (recorder e) (Suc i) })
        (h @ [(Kmalloc 256, a)], d\<lparr>buffers := take i (buffers d) @ [fst a]\<rparr>) Q"
      unfolding wp_bind wp_modg
      using Suc.prems(1-3)
      by (intro Suc.IH) (auto simp: memory_def tables_def intro!: Suc.prems(4,5))
  qed
qed

definition loading :: "nat \<Rightarrow> mcall history \<Rightarrow> chardev \<Rightarrow> bool" where
  "loading i h d \<longleftrightarrow>
     resources h = memory (number_of d) d + {#Region, Class (class_ptr d)#} + added i d \<and>
     length (buffers d) = number_of d \<and> length (devices d) = number_of d"

text \<open>Naming a device does not change the numbers of the devices before it.\<close>

definition named :: "nat \<Rightarrow> chardev \<Rightarrow> chardev" where
  "named i d = d\<lparr>devices := (devices d)[i :=
       \<lparr>sd_name = take 19 (''skeleton'' @ fmt_u i),
        sd_dev = MKDEV (MAJOR (device_dev d 0)) (MINOR (device_dev d 0) + i)\<rparr>]\<rparr>"

lemma loading_named:
  assumes "loading i h d" and "i < number_of d"
  shows "loading i h (named i d)" and "number_of (named i d) = number_of d"
proof -
  have "device_dev (named i d) j = device_dev d j" if "j < i" for j
    using that by (simp add: named_def device_dev_def)
  then have "map (\<lambda>j. Node (device_dev (named i d) j)) [0..<i] = map (\<lambda>j. Node (device_dev d j)) [0..<i]"
    by (intro map_cong) simp_all
  then have "added i (named i d) = added i d" unfolding added_def by (rule arg_cong)
  then show "loading i h (named i d)" "number_of (named i d) = number_of d"
    using assms by (simp_all add: loading_def named_def memory_def tables_def number_of_def)
qed

lemma nodes_only: "set_mset (mset (map (\<lambda>j. Node (f j)) xs)) \<subseteq> range Node"
  by auto

lemma wp_add_devices:
  assumes "loading i h d" and "i + n = number_of d"
    and finish: "\<And>h' d'. loading (number_of d') h' d' \<Longrightarrow> class_ptr d' = class_ptr d \<Longrightarrow>
      devices_ptr d' = devices_ptr d \<Longrightarrow> buffers_ptr d' = buffers_ptr d \<Longrightarrow> Q 0 (h', d')"
    and fails: "\<And>h' d' r. r \<noteq> 0 \<Longrightarrow> only_nodes h' d' \<Longrightarrow> Q r (h', d')"
  shows "wp (add_devices n (recorder e) i) (h, d) Q"
  using assms
proof (induction n arbitrary: h i d)
  case 0
  then show ?case by (simp add: wp_simps)
next
  case (Suc n)
  let ?d = "named i d"
  have d: "loading i h ?d" "number_of ?d = number_of d"
    using loading_named [OF Suc.prems(1)] Suc.prems(2) by auto
  have cdev_fails: "wp (do { for_each [0..<i] (cdev_del (recorder e)); unregister_region (recorder e);
       free_buffers (recorder e) (number_of ?d); free_tables (recorder e); destroy_class (recorder e);
       return status }) (h', ?d) Q"
    if "resources h' = resources h" and "status \<noteq> 0" for h' status
    unfolding wp_bind wp_return
    using d that
    by (intro wp_cleanup Suc.prems(4))
      (auto simp: only_nodes_def loading_def memory_def tables_def added_def)
  have node_fails: "wp (do { cdev_del (recorder e) i;
       for_each [0..<i] (\<lambda>j. do { device_destroy (recorder e) j; cdev_del (recorder e) j });
       destroy_class (recorder e); unregister_region (recorder e);
       free_buffers (recorder e) (number_of ?d); free_tables (recorder e); return (- ENOMEM) }) (h', ?d) Q"
    if "resources h' = add_mset (Cdev i) (resources h)" for h'
    unfolding wp_bind wp_return
    using d that
    by (intro wp_cleanup Suc.prems(4))
      (auto simp: only_nodes_def loading_def memory_def tables_def added_def)
  have next_device: "wp (add_devices n (recorder e) (Suc i)) (h', ?d) Q"
    if "resources h' = add_mset (Node (device_dev ?d i)) (add_mset (Cdev i) (resources h))" for h'
  proof (rule Suc.IH)
    show "loading (Suc i) h' ?d" using d that by (simp add: loading_def added_def)
    show "Suc i + n = number_of ?d" using Suc.prems(2) d by simp
    show "Q 0 (h'', d'')" if "loading (number_of d'') h'' d''" "class_ptr d'' = class_ptr ?d"
        "devices_ptr d'' = devices_ptr ?d" "buffers_ptr d'' = buffers_ptr ?d" for h'' d''
      using that by (intro Suc.prems(3)) (simp_all add: named_def)
  qed (rule Suc.prems(4))
  show ?case
    unfolding add_devices.simps wp_bind [of "modg _"] wp_modg wp_bind [of getg] wp_getg
      named_def [symmetric]
    by (auto simp: wp_bind wp_if intro!: wp_sysi_any cdev_fails [unfolded wp_bind] node_fails [unfolded wp_bind] next_device)
qed

lemma wp_skeleton_init:
  assumes loaded: "\<And>h d. loading (number_of d) h d \<Longrightarrow> devices_ptr d \<noteq> 0 \<Longrightarrow> buffers_ptr d \<noteq> 0 \<Longrightarrow>
      class_ptr d \<in> range (\<lambda>h. fst (e h (Class_create ''skeleton''))) \<Longrightarrow> Q 0 (h, d)"
    and fails: "\<And>r h d. r \<noteq> 0 \<Longrightarrow> only_nodes h d \<Longrightarrow> Q r (h, d)"
  shows "wp (skeleton_init (recorder e)) ([], unloaded n) Q"
proof -
  have devices: "wp (add_devices m (recorder e) 0) (h, d) Q"
    if "resources h = memory m d + {#Region, Class (class_ptr d)#}" and "number_of d = m"
      and "length (buffers d) = m" and "length (devices d) = m"
      and "devices_ptr d \<noteq> 0" and "buffers_ptr d \<noteq> 0"
      and "class_ptr d \<in> range (\<lambda>h. fst (e h (Class_create ''skeleton'')))" for m h d
  proof (rule wp_add_devices)
    show "loading 0 h d" using that by (simp add: loading_def added_def)
    show "Q 0 (h'', d'')" if "loading (number_of d'') h'' d''" "class_ptr d'' = class_ptr d"
        "devices_ptr d'' = devices_ptr d" "buffers_ptr d'' = buffers_ptr d" for h'' d''
      using that \<open>devices_ptr d \<noteq> 0\<close> \<open>buffers_ptr d \<noteq> 0\<close> \<open>class_ptr d \<in> _\<close> by (intro loaded) simp_all
  qed (simp_all add: that fails)
  show ?thesis
    unfolding skeleton_init_def
    by (auto simp: wp_bind wp_if wp_getg wp_modg wp_return Let_def unloaded_def number_of_def
        only_nodes_def memory_def tables_def
        intro!: wp_call wp_call_bytes wp_kfree wp_alloc_buffers wp_cleanup fails devices)
qed

text \<open>Unloading a loaded module releases everything.\<close>

lemma wp_skeleton_exit:
  assumes "loading (number_of d) h d" and "devices_ptr d \<noteq> 0" and "buffers_ptr d \<noteq> 0" and "class_ptr d \<noteq> 0"
    and Q: "\<And>h' d'. resources h' = {#} \<Longrightarrow> devices_ptr d' = 0 \<Longrightarrow> buffers_ptr d' = 0 \<Longrightarrow> class_ptr d' = 0 \<Longrightarrow>
      Q () (h', d')"
  shows "wp (skeleton_exit (recorder e)) (h, d) Q"
  using assms(1-4)
  by (auto simp: skeleton_exit_def wp_bind wp_if wp_getg wp_modg wp_return loading_def memory_def
      tables_def added_def number_of_def intro!: wp_cleanup Q)

section \<open>The device buffer as a stream\<close>

interpretation device_stream: byte_stream "\<lambda>data. skeleton_read (\<lambda>_. 0) (Some data)"
  "\<lambda>data. c_str (take SKELETON_BUFFER_SIZE data)" "\<lambda>data. True"
proof (unfold_locales, goal_cases)
  case (1 data chunk off)
  let ?c = "c_str (take 256 data)"
  have "take k (drop off data) = take k (drop off ?c)" if "k \<le> length ?c - off" for k
  proof -
    have "drop off ?c = take (length ?c - off) (drop off data)"
      using c_str_prefix [of 256 data] by (metis drop_take)
    with that show ?thesis by (simp add: min_def)
  qed
  then show ?case
    by (auto simp: skeleton_read_def strnlen_def Let_def min_def)
qed

section \<open>Properties\<close>

text \<open>C8. Loading and unloading are balanced in any environment: a load that fails has released all
  memory, the device region, the class and the character devices it acquired and reset its pointers
  (only device nodes can be left behind), and a load that succeeds followed by an unload leaves
  nothing at all.\<close>

theorem load_unload_balanced:
  assumes "\<And>h. fst (e h (Class_create ''skeleton'')) \<noteq> 0"
  shows "wp (do { r \<leftarrow> skeleton_init (recorder e);
         (if r = 0 then skeleton_exit (recorder e) else return ());
         return r }) ([], unloaded n) (\<lambda>r (h, d).
     set_mset (resources h) \<subseteq> range Node \<and> (r = 0 \<longrightarrow> resources h = {#}) \<and>
     devices_ptr d = 0 \<and> buffers_ptr d = 0 \<and> class_ptr d = 0)"
  unfolding wp_bind wp_if wp_return
  using assms
  by (auto simp: only_nodes_def intro!: wp_skeleton_init wp_skeleton_exit)

text \<open>An environment where everything succeeds, except that device \<open>k\<close> cannot be added.\<close>

definition cdev_fails_at :: "nat \<Rightarrow> mcall history \<Rightarrow> mcall \<Rightarrow> ret" where
  "cdev_fails_at k h c = (case c of
       Cdev_add i d \<Rightarrow> (if i = k then (-16, []) else (0, []))
     | Kmalloc n \<Rightarrow> (1, [])
     | Kmalloc_array n s \<Rightarrow> (1, [])
     | Class_create s \<Rightarrow> (1, [])
     | _ \<Rightarrow> (0, []))"

theorem load_unload_balanced_witness:
  "wp (do { r \<leftarrow> skeleton_init (recorder (cdev_fails_at 9));
         (if r = 0 then skeleton_exit (recorder (cdev_fails_at 9)) else return ());
         return r }) ([], unloaded 2) (\<lambda>r (h, d).
     set_mset (resources h) \<subseteq> range Node \<and> (r = 0 \<longrightarrow> resources h = {#}) \<and>
     devices_ptr d = 0 \<and> buffers_ptr d = 0 \<and> class_ptr d = 0)"
  by (rule load_unload_balanced) (simp add: cdev_fails_at_def)

text \<open>The clean-up after a failing \<open>cdev_add\<close> forgets the device nodes: with two devices, of
  which the second cannot be added, the load fails and the node of the first stays.\<close>

theorem failed_cdev_leaves_node:
  "wp (skeleton_init (recorder (cdev_fails_at 1))) ([], unloaded 2) (\<lambda>r (h, d).
     r = -16 \<and> resources h = {#Node 0#})"
  by (simp add: skeleton_init_def unloaded_def number_of_def wp_bind wp_if wp_getg wp_modg wp_return
      wp_sysi wp_sys numeral_2_eq_2 alloc_buffers.simps add_devices.simps cdev_fails_at_def
      upt_rec wp_for_each_Cons wp_for_each_Nil cdev_del_def unregister_region_def free_buffers_def
      kfree_def free_tables_def destroy_class_def device_dev_def stored_dev_def MKDEV_def MAJOR_def
      MINOR_def)

text \<open>What is written to a device is read back from it, in chunks of any size, up to the first
  NUL and cut to the 255 bytes the buffer can hold; the read ends.\<close>

theorem written_text_reads_back:
  assumes "length data = SKELETON_BUFFER_SIZE" and "0 < chunk" and "SKELETON_BUFFER_SIZE \<le> fuel"
  shows "\<exists>data'. skeleton_write (\<lambda>_. 0) (Some data) buf off =
      (int (min (length buf) 255), Some data', 0) \<and> length data' = SKELETON_BUFFER_SIZE \<and>
    read_to_end fuel (skeleton_read (\<lambda>_. 0) (Some data')) chunk 0 = Some (c_str (take 255 buf))"
proof -
  define k where "k = min (length buf) 255"
  define data' where "data' = (overlay (take k buf) data)[k := NUL]"
  have len: "length (take k buf) = k" "k < 256" by (simp_all add: k_def)
  have w: "skeleton_write (\<lambda>_. 0) (Some data) buf off = (int k, Some data', 0)"
    by (simp add: skeleton_write_def Let_def data'_def k_def copied_in_def)
  have data': "data' = take k buf @ NUL # drop (Suc k) data"
  proof -
    have "drop k data = data ! k # drop (Suc k) data" using assms(1) len(2) by (simp add: Cons_nth_drop_Suc)
    then show ?thesis using len(1) by (simp add: data'_def overlay_def list_update_append)
  qed
  then have l: "length data' = 256" using assms(1) len by simp
  then have "c_str (take 256 data') = c_str (take k buf @ NUL # drop (Suc k) data)"
    by (simp add: data' [symmetric])
  also have "\<dots> = c_str (take k buf)" by (rule c_str_stop)
  also have "take k buf = take 255 buf" by (simp add: k_def min_def)
  finally have c: "c_str (take 256 data') = c_str (take 255 buf)" .
  have "length (c_str (take 255 buf)) \<le> length (take 255 buf)"
    unfolding c_str_def by (rule length_takeWhile_le)
  then have "length (c_str (take 256 data')) - 0 < fuel"
    unfolding c using assms(3) by simp
  from device_stream.read_to_end [OF TrueI assms(2) this] w l c show ?thesis
    by (simp add: k_def)
qed

theorem written_text_reads_back_witness:
  "\<exists>data'. skeleton_write (\<lambda>_. 0) (Some (replicate 256 NUL)) ''hello'' 3 = (5, Some data', 0) \<and>
     read_to_end 256 (skeleton_read (\<lambda>_. 0) (Some data')) 2 0 = Some ''hello''"
  using written_text_reads_back [of "replicate 256 NUL" 2 256 "''hello''" 3] by (auto simp: c_str_def)

end
