(* ===== verification/Chardev_Sysfs.thy ===== *)
theory Chardev_Sysfs
  imports Kmodule
begin

text \<open>
  The module \<^verbatim>\<open>src/03_drivers/exercise05/skeleton.c\<close>: two sysfs attributes (a number and a
  configuration record) and a character device whose buffer is reallocated by every write.  Log
  messages are not modelled.
\<close>

section \<open>Statics\<close>

text \<open>
  \<open>struct skeleton_config\<close>.  The arrays \<open>name[30]\<close> and \<open>descr[30]\<close> and the four bytes that pad the
  struct are adjacent: they are one area of 64 bytes, since \<open>%s\<close> can write past the first array.
\<close>

record skeleton_config =
  cfg_id :: int
  cfg_ref :: int
  cfg_area :: string

definition cfg_name :: "skeleton_config \<Rightarrow> string" where
  "cfg_name c = c_str (cfg_area c)"

definition cfg_descr :: "skeleton_config \<Rightarrow> string" where
  "cfg_descr c = c_str (drop 30 (cfg_area c))"

text \<open>\<open>chardev_data\<close> is the block the pointer designates, \<open>None\<close> for \<open>NULL\<close>; the class and the sysfs
  device are pointers.\<close>

record sysfs_module =
  config :: skeleton_config
  sysfs_data :: int
  chardev_data :: "(int \<times> string) option"
  dev_number :: nat
  device_class :: int
  sysfs_device :: int

definition unloaded_module :: sysfs_module where
  "unloaded_module = \<lparr>config = \<lparr>cfg_id = 0, cfg_ref = 0, cfg_area = replicate 64 NUL\<rparr>,
     sysfs_data = 0, chardev_data = None, dev_number = 0, device_class = 0, sysfs_device = 0\<rparr>"

section \<open>Attributes\<close>

text \<open>The kernel's number parser: an optional minus sign directly followed by digits.\<close>

definition parse_int :: "string \<Rightarrow> (int \<times> string) option" where
  "parse_int s = (case s of
       [] \<Rightarrow> None
     | c # cs \<Rightarrow>
        if c = CHR ''-'' then
          (if cs = [] \<or> \<not> is_digit (hd cs) then None
           else Some (- int (digits_val cs), dropWhile is_digit cs))
        else if is_digit c then Some (int (digits_val s), dropWhile is_digit s)
        else None)"

definition simple_strtol :: "string \<Rightarrow> int" where
  "simple_strtol s = (case s of
       [] \<Rightarrow> 0
     | c # cs \<Rightarrow> s64 (if c = CHR ''-'' then - int (digits_val cs) else int (digits_val s)))"

definition sysfs_show_val :: "sysfs_module \<Rightarrow> string" where
  "sysfs_show_val m = fmt_d (sysfs_data m) @ [NL]"

definition sysfs_store_val :: "string \<Rightarrow> sysfs_module \<Rightarrow> int \<times> sysfs_module" where
  "sysfs_store_val buf m = (int (length buf), m\<lparr>sysfs_data := s32 (simple_strtol (c_str buf))\<rparr>)"

definition sysfs_show_cfg :: "sysfs_module \<Rightarrow> string" where
  "sysfs_show_cfg m =
     fmt_d (cfg_id (config m)) @ '' '' @ fmt_d (cfg_ref (config m)) @ '' '' @
     cfg_name (config m) @ '' '' @ cfg_descr (config m) @ [NL]"

text \<open>The kernel's \<open>isspace\<close> takes the byte 0xA0, the no-break space of Latin-1, for white space too.\<close>

definition isspace :: "char \<Rightarrow> bool" where
  "isspace c \<longleftrightarrow> is_space c \<or> (of_char c :: nat) = 160"

text \<open>A \<open>%s\<close> conversion: white space is skipped, the characters up to the next one are the word.\<close>

definition scan_word :: "string \<Rightarrow> (string \<times> string) option" where
  "scan_word s =
     (let t = dropWhile isspace s in
      if t = [] then None
      else Some (takeWhile (\<lambda>c. \<not> isspace c) t, dropWhile (\<lambda>c. \<not> isspace c) t))"

text \<open>Storing a word and its terminator from position \<open>off\<close> on; \<open>None\<close> when it leaves the struct.\<close>

definition put_word :: "nat \<Rightarrow> string \<Rightarrow> skeleton_config \<Rightarrow> skeleton_config option" where
  "put_word off w c =
     (if off + length w + 1 \<le> 64 then
        Some (c\<lparr>cfg_area := take off (cfg_area c) @ overlay (w @ [NUL]) (drop off (cfg_area c))\<rparr>)
      else None)"

text \<open>\<open>sscanf(buf, "%d %ld %s %s", ...)\<close> stops at the first conversion that fails.\<close>

definition scan_config :: "string \<Rightarrow> skeleton_config \<Rightarrow> skeleton_config option" where
  "scan_config buf c =
     (case parse_int (dropWhile isspace buf) of
        None \<Rightarrow> Some c
      | Some (i, r1) \<Rightarrow>
          let c = c\<lparr>cfg_id := s32 i\<rparr> in
          (case parse_int (dropWhile isspace r1) of
             None \<Rightarrow> Some c
           | Some (j, r2) \<Rightarrow>
               let c = c\<lparr>cfg_ref := s64 j\<rparr> in
               (case scan_word r2 of
                  None \<Rightarrow> Some c
                | Some (w, r3) \<Rightarrow>
                    (case put_word 0 w c of
                       None \<Rightarrow> None
                     | Some c \<Rightarrow>
                         (case scan_word r3 of
                            None \<Rightarrow> Some c
                          | Some (w', _) \<Rightarrow> put_word 30 w' c)))))"

definition sysfs_store_cfg :: "string \<Rightarrow> sysfs_module \<Rightarrow> (int \<times> sysfs_module) option" where
  "sysfs_store_cfg buf m =
     map_option (\<lambda>c. (int (length buf), m\<lparr>config := c\<rparr>)) (scan_config (c_str buf) (config m))"

section \<open>Character device\<close>

definition chardev_open :: "sysfs_module \<Rightarrow> int" where
  "chardev_open m = 0"

definition chardev_release :: "sysfs_module \<Rightarrow> int" where
  "chardev_release m = 0"

definition chardev_read ::
    "(string \<Rightarrow> nat) \<Rightarrow> (int \<times> string) option \<Rightarrow> nat \<Rightarrow> nat \<Rightarrow> (int \<times> string \<times> nat) option" where
  "chardev_read fault block sz off =
     (case block of
        None \<Rightarrow> Some (0, [], off)
      | Some (_, data) \<Rightarrow>
          (case strlen data of
             None \<Rightarrow> None
           | Some len \<Rightarrow>
               if off \<ge> len then Some (0, [], off)
               else
                 let sz = (if sz > len - off then len - off else sz);
                     bytes = take sz (drop off data)
                 in if fault bytes \<noteq> 0 then Some (- EFAULT, [], off)
                    else Some (int sz, bytes, off + sz)))"

text \<open>\<open>buf\<close> is the user's buffer, of \<open>count\<close> bytes.\<close>

definition chardev_write :: "('w, mcall) os \<Rightarrow> string \<Rightarrow> ('w, sysfs_module, int) prog" where
  "chardev_write os buf = do {
     m \<leftarrow> getg;
     (case chardev_data m of
        None \<Rightarrow> return ()
      | Some (p, _) \<Rightarrow> do {
          kfree os p;
          modg (\<lambda>m. m\<lparr>chardev_data := None\<rparr>) });
     r \<leftarrow> sys os (Kmalloc (length buf + 1));
     if fst r = 0 then return (- ENOMEM)
     else do {
     k \<leftarrow> sysi os (Copy_from_user (length buf));
     let left = min (length buf) (nat k);
     let data = overlay (copied_in left buf) (sized (length buf + 1) (snd r));
     modg (\<lambda>m. m\<lparr>chardev_data := Some (fst r, data)\<rparr>);
     if left \<noteq> 0 then return (- EFAULT)
     else do {
       modg (\<lambda>m. m\<lparr>chardev_data := Some (fst r, data[length buf := NUL])\<rparr>);
       return (int (length buf)) }}}"

section \<open>Loading and unloading\<close>

definition remove_files :: "('w, mcall) os \<Rightarrow> ('w, sysfs_module, unit) prog" where
  "remove_files os = do {
     m \<leftarrow> getg;
     _ \<leftarrow> sysi os (Device_remove_file ''sysfs_data'');
     _ \<leftarrow> sysi os (Device_remove_file ''cfg'');
     _ \<leftarrow> sysi os (Device_destroy (device_class m) (dev_number m));
     return () }"

definition stored_number :: "ret \<Rightarrow> nat" where
  "stored_number r = foldr (\<lambda>c v. of_char c + 256 * v) (take 4 (snd r)) 0"

text \<open>The successive blocks of \<open>skeleton_init\<close>, each run when the status is still 0.\<close>

definition init_cdev :: "('w, mcall) os \<Rightarrow> int \<Rightarrow> ('w, sysfs_module, int) prog" where
  "init_cdev os status =
     (if status = 0 then do {
        m \<leftarrow> getg;
        _ \<leftarrow> sysi os (Cdev_init 0);
        sysi os (Cdev_add 0 (dev_number m)) }
      else return status)"

definition init_class :: "('w, mcall) os \<Rightarrow> int \<Rightarrow> ('w, sysfs_module, int) prog" where
  "init_class os status =
     (if status = 0 then do {
        c \<leftarrow> sysi os (Class_create ''ex5_device_class'');
        modg (\<lambda>m. m\<lparr>device_class := (if c < 0 then 0 else c)\<rparr>);
        return (if c < 0 then c else 0) }
      else return status)"

definition init_device :: "('w, mcall) os \<Rightarrow> int \<Rightarrow> ('w, sysfs_module, int) prog" where
  "init_device os status =
     (if status = 0 then do {
        m \<leftarrow> getg;
        p \<leftarrow> sysi os (Device_create (device_class m) (dev_number m) ''ex5_sysfs_device'');
        modg (\<lambda>m. m\<lparr>sysfs_device := (if p < 0 then 0 else p)\<rparr>);
        return (if p < 0 then p else 0) }
      else return status)"

definition init_files :: "('w, mcall) os \<Rightarrow> int \<Rightarrow> ('w, sysfs_module, int) prog" where
  "init_files os status =
     (if status = 0 then do {
        status \<leftarrow> sysi os (Device_create_file ''sysfs_data'');
        if status = 0 then sysi os (Device_create_file ''cfg'') else return status }
      else return status)"

definition init_cleanup :: "('w, mcall) os \<Rightarrow> ('w, sysfs_module, unit) prog" where
  "init_cleanup os = do {
     m \<leftarrow> getg;
     (if sysfs_device m \<noteq> 0 then do {
        remove_files os;
        modg (\<lambda>m. m\<lparr>sysfs_device := 0\<rparr>) }
      else return ());
     (if device_class m \<noteq> 0 then do {
        _ \<leftarrow> sysi os (Class_destroy (device_class m));
        modg (\<lambda>m. m\<lparr>device_class := 0\<rparr>) }
      else return ());
     _ \<leftarrow> sysi os (Cdev_del 0);
     _ \<leftarrow> sysi os (Unregister_chrdev_region (dev_number m) 1);
     return () }"

definition sysfs_init :: "('w, mcall) os \<Rightarrow> ('w, sysfs_module, int) prog" where
  "sysfs_init os = do {
     r \<leftarrow> sys os (Alloc_chrdev_region ''skeleton'' 0 1);
     modg (\<lambda>m. m\<lparr>dev_number := stored_number r\<rparr>);
     status \<leftarrow> init_cdev os (fst r);
     status \<leftarrow> init_class os status;
     status \<leftarrow> init_device os status;
     status \<leftarrow> init_files os status;
     (if status \<noteq> 0 then init_cleanup os else return ());
     return status }"

definition sysfs_exit :: "('w, mcall) os \<Rightarrow> ('w, sysfs_module, unit) prog" where
  "sysfs_exit os = do {
     m \<leftarrow> getg;
     (case chardev_data m of
        None \<Rightarrow> return ()
      | Some (p, _) \<Rightarrow> do {
          kfree os p;
          modg (\<lambda>m. m\<lparr>chardev_data := None\<rparr>) });
     _ \<leftarrow> sysi os (Cdev_del 0);
     _ \<leftarrow> sysi os (Unregister_chrdev_region (dev_number m) 1);
     (if sysfs_device m \<noteq> 0 then remove_files os else return ());
     (if device_class m \<noteq> 0 then do {
        _ \<leftarrow> sysi os (Class_destroy (device_class m));
        return () }
      else return ()) }"

section \<open>Parsing what was printed\<close>

lemma digits_then:
  assumes "rest = [] \<or> \<not> is_digit (hd rest)"
  shows "dropWhile is_digit (fmt_u n @ rest) = rest"
proof -
  have "dropWhile is_digit (fmt_u n @ rest) = dropWhile is_digit rest"
    by (rule dropWhile_append2) (rule fmt_u_digits)
  with assms show ?thesis by (cases rest) auto
qed

lemma parse_int_fmt_d:
  assumes "rest = [] \<or> \<not> is_digit (hd rest)"
  shows "parse_int (fmt_d i @ rest) = Some (i, rest)"
proof (cases "i < 0")
  case True
  obtain c cs where cs: "fmt_u (nat (- i)) = c # cs" by (cases "fmt_u (nat (- i))") auto
  then have "is_digit c" by (rule fmt_u_Cons_digit)
  with True cs digits_val_fmt_u [OF assms, of "nat (- i)"] digits_then [OF assms, of "nat (- i)"]
  show ?thesis by (simp add: fmt_d_def parse_int_def)
next
  case False
  obtain c cs where cs: "fmt_u (nat i) = c # cs" by (cases "fmt_u (nat i)") auto
  then have "is_digit c" "c \<noteq> CHR ''-''"
    using fmt_u_Cons_digit [OF cs] is_digit_not_special by auto
  with False cs digits_val_fmt_u [OF assms, of "nat i"] digits_then [OF assms, of "nat i"]
  show ?thesis by (simp add: fmt_d_def parse_int_def)
qed

lemma is_digit_not_isspace: "is_digit c \<Longrightarrow> \<not> isspace c"
  by (auto simp: isspace_def is_space_def is_digit_def)

lemma fmt_d_head: "fmt_d i = c # cs \<Longrightarrow> \<not> isspace c"
  using is_digit_not_isspace [OF fmt_u_Cons_digit, of _ c cs]
  by (auto simp: fmt_d_def isspace_def is_space_def split: if_splits)

lemma skip_space_fmt_d: "dropWhile isspace (fmt_d i @ rest) = fmt_d i @ rest"
proof -
  obtain c cs where "fmt_d i = c # cs" by (cases "fmt_d i") (auto simp: fmt_d_def split: if_splits)
  with fmt_d_head [OF this] show ?thesis by simp
qed

text \<open>A word of a configuration: not empty, no white space and no NUL.\<close>

definition word :: "string \<Rightarrow> bool" where
  "word w \<longleftrightarrow> w \<noteq> [] \<and> (\<forall>c \<in> set w. \<not> isspace c \<and> c \<noteq> NUL)"

lemma scan_word_first:
  assumes "word w" and "rest = [] \<or> isspace (hd rest)"
  shows "scan_word (CHR '' '' # w @ rest) = Some (w, rest)"
proof -
  obtain c cs where w: "w = c # cs" "\<not> isspace c" using assms(1) by (cases w) (auto simp: word_def)
  have "takeWhile (\<lambda>c. \<not> isspace c) (w @ rest) = w @ takeWhile (\<lambda>c. \<not> isspace c) rest"
    "dropWhile (\<lambda>c. \<not> isspace c) (w @ rest) = dropWhile (\<lambda>c. \<not> isspace c) rest"
    using assms(1) by (auto simp: word_def intro!: takeWhile_append2 dropWhile_append2)
  moreover have "takeWhile (\<lambda>c. \<not> isspace c) rest = []" "dropWhile (\<lambda>c. \<not> isspace c) rest = rest"
    using assms(2) by (cases rest; simp)+
  ultimately show ?thesis using w by (simp add: scan_word_def isspace_def is_space_def [of "CHR '' ''"])
qed

definition config_text :: "int \<Rightarrow> int \<Rightarrow> string \<Rightarrow> string \<Rightarrow> string" where
  "config_text i r n d = fmt_d i @ '' '' @ fmt_d r @ '' '' @ n @ '' '' @ d @ [NL]"

lemma config_text_no_NUL: "word n \<Longrightarrow> word d \<Longrightarrow> c_str (config_text i r n d) = config_text i r n d"
  using fmt_d_no_NUL [of i] fmt_d_no_NUL [of r]
  by (intro c_str_id) (auto simp: config_text_def word_def)

lemma scan_config_text:
  assumes "word n" and "word d"
  shows "scan_config (config_text i r n d) c =
    (case put_word 0 n (c\<lparr>cfg_id := s32 i, cfg_ref := s64 r\<rparr>) of
       None \<Rightarrow> None | Some c' \<Rightarrow> put_word 30 d c')"
proof -
  let ?w = "CHR '' '' # n @ CHR '' '' # d @ [NL]"
  have sp: "\<not> is_digit (CHR '' '')" "isspace (CHR '' '')" "isspace NL"
    by (simp_all add: is_digit_def isspace_def is_space_def)
  have w: "scan_word ?w = Some (n, CHR '' '' # d @ [NL])"
    by (rule scan_word_first [OF assms(1)]) (simp add: sp)
  have w': "scan_word (CHR '' '' # d @ [NL]) = Some (d, [NL])"
    by (rule scan_word_first [OF assms(2)]) (simp add: sp)
  have i: "parse_int (dropWhile isspace (config_text i r n d)) = Some (i, CHR '' '' # fmt_d r @ ?w)"
    unfolding config_text_def append_Cons append_Nil skip_space_fmt_d
    by (rule parse_int_fmt_d) (simp add: sp)
  have "dropWhile isspace (CHR '' '' # fmt_d r @ ?w) = fmt_d r @ ?w"
    by (simp only: dropWhile.simps sp if_True skip_space_fmt_d)
  then have r: "parse_int (dropWhile isspace (CHR '' '' # fmt_d r @ ?w)) = Some (r, ?w)"
    using parse_int_fmt_d [of ?w r] sp by (simp only: list.sel) simp
  show ?thesis
    unfolding scan_config_def i r w w' option.case prod.case Let_def by simp
qed

lemma c_str_word: "word w \<Longrightarrow> c_str (w @ NUL # rest) = w"
  by (rule c_str_no_NUL) (use word_def in blast)

lemma put_word_eq:
  assumes "off + length w < 64"
  shows "put_word off w c =
    Some (c\<lparr>cfg_area := take off (cfg_area c) @ w @ NUL # drop (Suc (length w) + off) (cfg_area c)\<rparr>)"
  using assms by (simp add: put_word_def overlay_def add.commute)

text \<open>The area after both words: the description from position 30 on, and before it what the name
  has left there.\<close>

definition filled :: "string \<Rightarrow> string \<Rightarrow> string \<Rightarrow> string" where
  "filled n d a = take 30 (n @ NUL # drop (Suc (length n)) a) @ d @ NUL #
     drop (Suc (length d) + 30) (n @ NUL # drop (Suc (length n)) a)"

lemma scan_config_filled:
  assumes "word n" and "word d" and "length n < 34" and "length d < 34"
  shows "scan_config (config_text i r n d) c =
    Some (c\<lparr>cfg_id := s32 i, cfg_ref := s64 r, cfg_area := filled n d (cfg_area c)\<rparr>)"
  unfolding scan_config_text [OF assms(1,2)]
  by (subst put_word_eq, use assms in simp, simp only: option.case, subst put_word_eq, use assms in simp)
    (simp add: filled_def)

lemma filled_descr:
  assumes "length a = 64" and "word d" and "length n < 34"
  shows "c_str (drop 30 (filled n d a)) = d"
proof -
  have "length (take 30 (n @ NUL # drop (Suc (length n)) a)) = 30" using assms(1,3) by simp
  then have "drop 30 (filled n d a) = d @ NUL # drop (Suc (length d) + 30) (n @ NUL # drop (Suc (length n)) a)"
    unfolding filled_def by (simp only: drop_append) simp
  then show ?thesis using c_str_word [OF assms(2)] by simp
qed

lemma filled_name:
  assumes "word n" and "length n < 30"
  shows "c_str (filled n d a) = n"
proof -
  have "take 30 (n @ NUL # drop (Suc (length n)) a) = n @ NUL # take (29 - length n) (drop (Suc (length n)) a)"
    using assms(2) by (simp add: take_Cons')
  then show ?thesis unfolding filled_def using c_str_word [OF assms(1)] by simp
qed

lemma filled_long_name:
  assumes "word n" and "word d" and "30 \<le> length n"
  shows "c_str (filled n d a) = take 30 n @ d"
proof -
  have "word (take 30 n @ d)" using assms(1,2) by (auto simp: word_def dest: in_set_takeD)
  from c_str_word [OF this] show ?thesis using assms(3) by (simp add: filled_def)
qed

lemma store_config_text:
  assumes "word n" and "word d" and "length n < 34" and "length d < 34"
    and "s32_range i" and "- (2 ^ 63) \<le> r" and "r < 2 ^ 63"
  shows "sysfs_store_cfg (config_text i r n d) m = Some (int (length (config_text i r n d)),
    m\<lparr>config := (config m)\<lparr>cfg_id := i, cfg_ref := r, cfg_area := filled n d (cfg_area (config m))\<rparr>\<rparr>)"
proof -
  have "s64 r = r" using assms(6,7) by (simp add: s64_def signed_take_bit_int_eq_self)
  then show ?thesis
    using assms(5) by (simp add: sysfs_store_cfg_def config_text_no_NUL scan_config_filled assms)
qed

section \<open>Properties of the attributes\<close>

text \<open>C23. Writing a configuration and reading it back gives the same text, for every 32-bit id,
  64-bit reference and words of at most 29 bytes (no NUL and no byte that the kernel's \<open>isspace\<close>
  takes for white space, 0xA0 included).\<close>

theorem config_round_trip:
  assumes "length (cfg_area (config m)) = 64" and "s32_range i" and "- (2 ^ 63) \<le> r" and "r < 2 ^ 63"
    and "word n" and "word d" and "length n < 30" and "length d < 30"
  shows "\<exists>m'. sysfs_store_cfg (config_text i r n d) m = Some (int (length (config_text i r n d)), m') \<and>
    sysfs_show_cfg m' = config_text i r n d \<and>
    cfg_id (config m') = i \<and> cfg_ref (config m') = r \<and> cfg_name (config m') = n \<and> cfg_descr (config m') = d"
  using assms filled_name [of n d] filled_descr [of "cfg_area (config m)" d n]
  by (simp add: store_config_text sysfs_show_cfg_def cfg_name_def cfg_descr_def)
    (simp add: config_text_def)

theorem config_round_trip_witness:
  "\<exists>m'. sysfs_store_cfg (config_text 7 (-3) ''led'' ''status'') unloaded_module =
      Some (int (length (config_text 7 (-3) ''led'' ''status'')), m') \<and>
    sysfs_show_cfg m' = config_text 7 (-3) ''led'' ''status''"
  using config_round_trip [of unloaded_module 7 "-3" "''led''" "''status''"]
  by (auto simp: unloaded_module_def s32_range_def word_def isspace_def is_space_def)

text \<open>A word with the byte 0xA0, as in the UTF-8 encoding of an accented letter (C3 A0), is cut there.\<close>

lemma no_break_space_cuts:
  "map_option (\<lambda>(n, m). (n, cfg_name (config m), cfg_descr (config m)))
     (sysfs_store_cfg (config_text 7 1 [char_of (0xC3 :: nat), char_of (0xA0 :: nat)] ''x'') unloaded_module) =
   Some (9, [char_of (0xC3 :: nat)], ''x'')"
  by code_simp

text \<open>The \<open>%s\<close> conversions are unbounded: a name of 30 to 33 characters runs into the
  description, whose text then takes the place of the name's terminator, and the attribute shows a
  name that was never written.\<close>

theorem long_name_runs_on:
  assumes "length (cfg_area (config m)) = 64" and "s32_range i" and "- (2 ^ 63) \<le> r" and "r < 2 ^ 63"
    and "word n" and "word d" and "30 \<le> length n" and "length n < 34" and "length d < 30"
  shows "\<exists>m'. sysfs_store_cfg (config_text i r n d) m = Some (int (length (config_text i r n d)), m') \<and>
    cfg_name (config m') = take 30 n @ d \<and> cfg_descr (config m') = d"
  using assms filled_long_name [of n d] filled_descr [of "cfg_area (config m)" d n]
  by (simp add: store_config_text cfg_name_def cfg_descr_def)

theorem long_name_runs_on_witness:
  "\<exists>m'. sysfs_store_cfg (config_text 1 2 (replicate 31 CHR ''a'') ''bc'') unloaded_module =
      Some (int (length (config_text 1 2 (replicate 31 CHR ''a'') ''bc'')), m') \<and>
    cfg_name (config m') = replicate 30 CHR ''a'' @ ''bc''"
  using long_name_runs_on [of unloaded_module 1 2 "replicate 31 CHR ''a''" "''bc''"]
  by (auto simp: unloaded_module_def s32_range_def word_def isspace_def is_space_def)

section \<open>The buffer of the character device\<close>

text \<open>The blocks the module holds.\<close>

definition blocks_held :: "mcall history \<Rightarrow> resource multiset" where
  "blocks_held h = filter_mset (\<lambda>r. \<exists>p. r = Memory p) (resources h)"

lemma blocks_held_simps [simp]:
  "blocks_held [] = {#}"
  "blocks_held (h @ [(Kfree p, a)]) = blocks_held h - {#Memory p#}"
  "blocks_held (h @ [(Kmalloc n, b)]) =
     (if fst b = 0 then blocks_held h else add_mset (Memory (fst b)) (blocks_held h))"
  "blocks_held (h @ [(Copy_from_user n, b)]) = blocks_held h"
  by (simp_all add: blocks_held_def filter_diff_mset)

text \<open>The pointer is null and no block is held, or it designates the only block held, which is a
  terminated string.\<close>

definition block_inv :: "mcall history \<times> sysfs_module \<Rightarrow> bool" where
  "block_inv s \<longleftrightarrow> (case chardev_data (snd s) of
       None \<Rightarrow> blocks_held (fst s) = {#}
     | Some (p, data) \<Rightarrow> blocks_held (fst s) = {#Memory p#} \<and> NUL \<in> set data)"

definition block_start :: "mcall history \<times> sysfs_module \<Rightarrow> bool" where
  "block_start s \<longleftrightarrow> chardev_data (snd s) = None \<and> blocks_held (fst s) = {#}"

inductive write_step :: "mcall history \<times> sysfs_module \<Rightarrow> mcall history \<times> sysfs_module \<Rightarrow> bool" where
  "run_state (chardev_write (recorder e) buf) s = (r, t) \<Longrightarrow> write_step s t"

lemma NUL_in_written: "0 < k \<Longrightarrow> buf \<noteq> [] \<Longrightarrow> NUL \<in> set (copied_in (min (length buf) k) buf)"
  by (rule copied_in_zeroes) simp_all

lemma NUL_at_end: "n < length data \<Longrightarrow> NUL \<in> set (data[n := NUL])"
  by (rule set_update_memI)

lemma wp_write_block:
  assumes "blocks_held h = {#}" and "chardev_data m = None"
  shows "wp (do { r \<leftarrow> sys (recorder e) (Kmalloc (length buf + 1));
     if fst r = 0 then return (- ENOMEM)
     else do {
     k \<leftarrow> sysi (recorder e) (Copy_from_user (length buf));
     let left = min (length buf) (nat k);
     let data = overlay (copied_in left buf) (sized (length buf + 1) (snd r));
     modg (\<lambda>m. m\<lparr>chardev_data := Some (fst r, data)\<rparr>);
     if left \<noteq> 0 then return (- EFAULT)
     else do {
       modg (\<lambda>m. m\<lparr>chardev_data := Some (fst r, data[length buf := NUL])\<rparr>);
       return (int (length buf)) }}}) (h, m) (\<lambda>_. block_inv)"
proof -
  have kept: "blocks_held (h @ [(Kmalloc n, b), (Copy_from_user n', a)]) = blocks_held (h @ [(Kmalloc n, b)])" for n b n' a
    using blocks_held_simps(4) [of "h @ [(Kmalloc n, b)]"] by simp
  show ?thesis
    using assms unfolding Let_def wp_bind wp_if wp_return
    by (intro wp_sys_any) (auto simp: wp_modg block_inv_def kept wp_bind wp_if wp_return overlay_def
        intro!: wp_sysi_any NUL_in_written NUL_at_end)
qed

lemma block_inv_write: "block_inv s \<Longrightarrow> wp (chardev_write (recorder e) buf) s (\<lambda>_. block_inv)"
proof (cases s)
  case (Pair h m)
  assume inv: "block_inv s"
  show ?thesis
  proof (cases "chardev_data m")
    case None
    with inv Pair have "blocks_held h = {#}" by (simp add: block_inv_def)
    from wp_write_block [OF this None] None Pair show ?thesis
      by (simp add: chardev_write_def wp_bind [of getg] wp_getg del: recorder_simp)
  next
    case (Some b)
    obtain p data where b: "b = (p, data)" by (cases b)
    with inv Pair Some have h: "blocks_held h = {#Memory p#}" by (simp add: block_inv_def)
    have "wp (do { kfree (recorder e) p; modg (\<lambda>m. m\<lparr>chardev_data := None\<rparr>) }) (h, m)
        (\<lambda>_ (h', m'). blocks_held h' = {#} \<and> chardev_data m' = None)"
      using h by (auto simp: kfree_def wp_simps intro!: wp_sysi_any)
    then show ?thesis
      unfolding Pair chardev_write_def wp_bind [of getg] wp_getg Some b option.case prod.case
      by (subst wp_bind) (erule wp_mono, erule case_prodE, simp only: prod.case, erule conjE,
        rule wp_write_block)
  qed
qed

interpretation block: kept_invariant block_start write_step block_inv
proof
  show "block_inv s" if "block_start s" for s
    using that by (simp add: block_start_def block_inv_def)
  show "block_inv t" if "block_inv s" "write_step s t" for s t
    using that(2)
  proof cases
    case (1 e buf r)
    with block_inv_write [OF that(1), of e buf] show ?thesis by (simp add: wp_def)
  qed
qed

text \<open>C10. However often the device is written and whatever the allocator and the copies answer, the
  module holds exactly the block its pointer designates and the block is a terminated string: a read
  never runs past it, even after a write that failed halfway.\<close>

theorem block_always_terminated:
  assumes "chardev_data (snd s) = None" and "blocks_held (fst s) = {#}" and "write_step\<^sup>*\<^sup>* s t"
  shows "chardev_read fault (chardev_data (snd t)) sz off \<noteq> None \<and>
    blocks_held (fst t) = (case chardev_data (snd t) of None \<Rightarrow> {#} | Some (p, _) \<Rightarrow> {#Memory p#})"
proof -
  have "block_start s" using assms(1,2) by (simp add: block_start_def)
  from block.reachable_inv [OF this assms(3)] show ?thesis
    by (auto simp: block_inv_def chardev_read_def strlen_def Let_def split: option.splits)
qed

theorem block_always_terminated_witness:
  "\<exists>t. write_step\<^sup>*\<^sup>* ([], unloaded_module) t \<and> chardev_read (\<lambda>_. 0) (chardev_data (snd t)) 10 0 \<noteq> None"
proof -
  let ?s = "([], unloaded_module)"
  let ?e = "\<lambda>h c. (case c of Kmalloc n \<Rightarrow> (5, []) | Copy_from_user n \<Rightarrow> (2, []) | _ \<Rightarrow> (0, []))"
  obtain r t where "run_state (chardev_write (recorder ?e) ''abc'') ?s = (r, t)" by (rule prod.exhaust)
  then have "write_step\<^sup>*\<^sup>* ?s t" by (blast intro: write_step.intros)
  moreover from block_always_terminated [OF _ _ this, of "\<lambda>_. 0" 10 0]
  have "chardev_read (\<lambda>_. 0) (chardev_data (snd t)) 10 0 \<noteq> None" by (simp add: unloaded_module_def)
  ultimately show ?thesis by blast
qed

text \<open>Reading the block in chunks.\<close>

interpretation block_stream: byte_stream
  "\<lambda>b sz off. case chardev_read (\<lambda>_. 0) (Some b) sz off of None \<Rightarrow> (-1, [], off) | Some r \<Rightarrow> r"
  "\<lambda>b. c_str (snd b)" "\<lambda>b. NUL \<in> set (snd b)"
proof (unfold_locales, goal_cases)
  case (1 b sz off)
  have "take k (drop off (snd b)) = take k (drop off (c_str (snd b)))"
    if "k \<le> length (c_str (snd b)) - off" for k
  proof -
    have "c_str (snd b) = take (length (c_str (snd b))) (snd b)"
      unfolding c_str_def by (rule takeWhile_eq_take)
    then have "drop off (c_str (snd b)) = take (length (c_str (snd b)) - off) (drop off (snd b))"
      by (metis drop_take)
    with that show ?thesis by (simp add: min_def)
  qed
  with 1 show ?case
    by (cases b) (auto simp: chardev_read_def strlen_def Let_def min_def)
qed

section \<open>Loading and unloading\<close>

lemma wp_remove_files:
  "(\<And>h'. resources h' = resources h - {#Attribute ''sysfs_data''#} - {#Attribute ''cfg''#} -
      {#Node (dev_number m)#} \<Longrightarrow> Q () (h', m)) \<Longrightarrow> wp (remove_files (recorder e)) (h, m) Q"
  by (auto simp: remove_files_def wp_simps intro!: wp_sysi_any)

text \<open>What the clean-up and the unload release: the resources held must be among these.\<close>

definition class_part :: "sysfs_module \<Rightarrow> resource multiset" where
  "class_part m = (if device_class m = 0 then {#} else {#Class (device_class m)#})"

definition device_part :: "sysfs_module \<Rightarrow> resource multiset" where
  "device_part m = (if sysfs_device m = 0 then {#} else {#Node (dev_number m)#})"

definition file_part :: "sysfs_module \<Rightarrow> resource multiset" where
  "file_part m = (if sysfs_device m = 0 then {#} else {#Attribute ''sysfs_data'', Attribute ''cfg''#})"

definition block_part :: "sysfs_module \<Rightarrow> resource multiset" where
  "block_part m = (case chardev_data m of None \<Rightarrow> {#} | Some (p, _) \<Rightarrow> {#Memory p#})"

definition releasable :: "mcall history \<Rightarrow> sysfs_module \<Rightarrow> bool" where
  "releasable h m \<longleftrightarrow> resources h \<subseteq>#
     {#Region, Cdev 0#} + class_part m + device_part m + file_part m + block_part m"

lemmas part_defs = class_part_def device_part_def file_part_def block_part_def

lemma wp_cleanup:
  assumes "releasable h m" and "chardev_data m = None"
    and Q: "\<And>h' m'. resources h' = {#} \<Longrightarrow> Q () (h', m')"
  shows "wp (init_cleanup (recorder e)) (h, m) Q"
  using assms(1,2) unfolding init_cleanup_def
  by (auto simp: wp_simps releasable_def part_defs Diff_eq_empty_iff_mset add_mset_commute
      intro!: wp_sysi_any wp_remove_files Q)

lemma wp_exit:
  assumes "releasable h m" and Q: "\<And>h' m'. resources h' = {#} \<Longrightarrow> Q () (h', m')"
  shows "wp (sysfs_exit (recorder e)) (h, m) Q"
  using assms(1) unfolding sysfs_exit_def
  by (auto simp: wp_simps releasable_def part_defs Diff_eq_empty_iff_mset add_mset_commute
      split: option.splits intro!: wp_sysi_any wp_remove_files wp_kfree Q)

text \<open>What the initialisation holds before each of its blocks.\<close>

definition before_cdev :: "mcall history \<Rightarrow> sysfs_module \<Rightarrow> bool" where
  "before_cdev h m \<longleftrightarrow> resources h \<subseteq># {#Region#} \<and>
     device_class m = 0 \<and> sysfs_device m = 0 \<and> chardev_data m = None"

definition before_device :: "mcall history \<Rightarrow> sysfs_module \<Rightarrow> bool" where
  "before_device h m \<longleftrightarrow> resources h \<subseteq># {#Region, Cdev 0#} + class_part m \<and>
     sysfs_device m = 0 \<and> chardev_data m = None"

definition before_files :: "mcall history \<Rightarrow> sysfs_module \<Rightarrow> bool" where
  "before_files h m \<longleftrightarrow> resources h \<subseteq># {#Region, Cdev 0#} + class_part m + device_part m \<and>
     chardev_data m = None"

definition pointers_not_null :: "(mcall history \<Rightarrow> mcall \<Rightarrow> ret) \<Rightarrow> bool" where
  "pointers_not_null e \<longleftrightarrow> (\<forall>h s c d. fst (e h (Class_create s)) \<noteq> 0 \<and> fst (e h (Device_create c d s)) \<noteq> 0)"

lemma wp_init_cdev:
  assumes "before_cdev h m"
    and "\<And>h' status. before_device h' m \<Longrightarrow> device_class m = 0 \<Longrightarrow> Q status (h', m)"
  shows "wp (init_cdev (recorder e) status) (h, m) Q"
  using assms(1)
  by (auto simp: init_cdev_def wp_simps before_cdev_def before_device_def part_defs
      add_mset_commute intro!: wp_sysi_any assms(2)) (erule subset_mset.order_trans, simp)+

lemma wp_init_class:
  assumes "before_device h m" and "device_class m = 0" and "pointers_not_null e"
    and "\<And>h' m' status. before_device h' m' \<Longrightarrow> Q status (h', m')"
  shows "wp (init_class (recorder e) status) (h, m) Q"
  using assms(1-3)
  by (auto simp: init_class_def wp_simps before_device_def part_defs pointers_not_null_def
      add_mset_commute intro!: wp_call assms(4))

lemma wp_init_device:
  assumes "before_device h m" and "pointers_not_null e"
    and "\<And>h' m' status. before_files h' m' \<Longrightarrow> status = 0 \<longrightarrow> sysfs_device m' \<noteq> 0 \<Longrightarrow> Q status (h', m')"
  shows "wp (init_device (recorder e) status) (h, m) Q"
  using assms(1,2)
  by (auto simp: init_device_def wp_simps before_device_def before_files_def part_defs pointers_not_null_def
      add_mset_commute intro!: wp_call assms(3))

lemma wp_init_files:
  assumes "before_files h m" and "status = 0 \<longrightarrow> sysfs_device m \<noteq> 0"
    and "\<And>h' status. releasable h' m \<Longrightarrow> chardev_data m = None \<Longrightarrow> Q status (h', m)"
  shows "wp (init_files (recorder e) status) (h, m) Q"
  using assms(1,2)
  by (auto simp: init_files_def wp_simps before_files_def releasable_def part_defs
      add_mset_commute intro!: wp_sysi_any assms(3)) (erule subset_mset.order_trans, simp)+

lemma wp_sysfs_init:
  assumes "resources h = {#}" and "device_class m = 0" and "sysfs_device m = 0" and "chardev_data m = None"
    and "pointers_not_null e"
    and "\<And>h' m'. releasable h' m' \<Longrightarrow> chardev_data m' = None \<Longrightarrow> Q 0 (h', m')"
    and "\<And>h' m' status. status \<noteq> 0 \<Longrightarrow> resources h' = {#} \<Longrightarrow> Q status (h', m')"
  shows "wp (sysfs_init (recorder e)) (h, m) Q"
proof -
  have ends: "wp (if status \<noteq> 0 then init_cleanup (recorder e) else return ()) (h', m')
      (\<lambda>_ s. wp (return status) s Q)" if "releasable h' m'" "chardev_data m' = None" for h' m' status
    using that assms(6) by (cases "status = 0") (auto simp: wp_return intro!: wp_cleanup assms(7))
  show ?thesis
  unfolding sysfs_init_def wp_bind
proof (rule wp_sys_any, unfold wp_modg, rule wp_init_cdev)
  show "before_cdev (h @ [(Alloc_chrdev_region ''skeleton'' 0 1, a)]) (m\<lparr>dev_number := stored_number a\<rparr>)" for a
    using assms(1-4) by (cases a) (simp add: before_cdev_def)
qed (rule wp_init_class, assumption, simp, rule assms(5), rule wp_init_device, assumption,
    rule assms(5), rule wp_init_files, assumption, assumption,
    rule ends)
qed

lemma wp_write_releasable:
  assumes "releasable h m" and "\<And>h' m' r. releasable h' m' \<Longrightarrow> Q r (h', m')"
  shows "wp (chardev_write (recorder e) buf) (h, m) Q"
  using assms(1)
  by (auto simp: chardev_write_def wp_simps Let_def releasable_def part_defs subset_eq_diff_conv add_mset_commute split: option.splits
      intro!: wp_sysi_any wp_sys_any wp_kfree assms(2))

text \<open>A life of the module: loaded, written a number of times, unloaded.\<close>

definition sysfs_life :: "('w, mcall) os \<Rightarrow> string list \<Rightarrow> ('w, sysfs_module, unit) prog" where
  "sysfs_life os bufs = do {
     status \<leftarrow> sysfs_init os;
     if status \<noteq> 0 then return ()
     else do {
       for_each bufs (\<lambda>buf. do { _ \<leftarrow> chardev_write os buf; return () });
       sysfs_exit os } }"

lemma wp_writes_releasable:
  "releasable h m \<Longrightarrow> (\<And>h' m'. releasable h' m' \<Longrightarrow> Q () (h', m')) \<Longrightarrow>
   wp (for_each bufs (\<lambda>buf. do { _ \<leftarrow> chardev_write (recorder e) buf; return () })) (h, m) Q"
proof (induction bufs arbitrary: h m)
  case (Cons b bs)
  show ?case
    unfolding wp_for_each_Cons wp_bind wp_return
    by (rule wp_write_releasable [OF Cons.prems(1)], rule Cons.IH) (use Cons.prems in auto)
qed (simp add: wp_simps)

text \<open>C9. Whatever the kernel answers, the module has released everything it obtained (region,
  device, class, node, attributes and every buffer) when a failed load returns, and when the module
  is unloaded after any number of writes.\<close>

theorem sysfs_life_balanced:
  assumes "\<forall>h s c d. fst (e h (Class_create s)) \<noteq> 0 \<and> fst (e h (Device_create c d s)) \<noteq> 0"
  shows "resources (fst (snd (run_state (sysfs_life (recorder e) bufs) ([], unloaded_module)))) = {#}"
proof -
  have "wp (sysfs_life (recorder e) bufs) ([], unloaded_module) (\<lambda>_ s. resources (fst s) = {#})"
    unfolding sysfs_life_def wp_bind
    by (rule wp_sysfs_init)
      (use assms in \<open>auto simp: unloaded_module_def pointers_not_null_def wp_simps
         intro!: wp_writes_releasable wp_exit\<close>)
  then show ?thesis by (simp add: wp_def split: prod.splits)
qed

theorem sysfs_life_balanced_witness:
  "resources (fst (snd (run_state (sysfs_life (recorder
     (\<lambda>h c. case c of Class_create s \<Rightarrow> (3, []) | Device_create p d s \<Rightarrow> (4, []) | Kmalloc n \<Rightarrow> (9, [])
        | _ \<Rightarrow> (0, []))) [''ab'', ''c'']) ([], unloaded_module)))) = {#}"
  by (rule sysfs_life_balanced) simp

text \<open>A load whose very first call fails nevertheless deletes the device that was never
  initialised and unregisters the region that was never allocated.\<close>

theorem failed_alloc_releases_unheld:
  assumes "fst (e [] (Alloc_chrdev_region ''skeleton'' 0 1)) = n" and "n < 0"
  shows "\<exists>a b dev. fst (snd (run_state (sysfs_init (recorder e)) ([], unloaded_module))) =
    [(Alloc_chrdev_region ''skeleton'' 0 1, e [] (Alloc_chrdev_region ''skeleton'' 0 1)),
     (Cdev_del 0, a), (Unregister_chrdev_region dev 1, b)]"
  using assms
  by (simp add: sysfs_init_def init_cdev_def init_class_def init_device_def init_files_def
      init_cleanup_def unloaded_module_def)

theorem failed_alloc_releases_unheld_witness:
  "\<exists>a b dev. fst (snd (run_state (sysfs_init (recorder (\<lambda>h c. (-12, [])))) ([], unloaded_module))) =
    [(Alloc_chrdev_region ''skeleton'' 0 1, (-12, [])), (Cdev_del 0, a), (Unregister_chrdev_region dev 1, b)]"
  using failed_alloc_releases_unheld [of "\<lambda>h c. (-12, [])" "-12"] by simp

end
