(* ===== verification/Switch_Driver.thy ===== *)
theory Switch_Driver
  imports Kmodule
begin

text \<open>
  The push-button driver \<^verbatim>\<open>src/03_drivers/exercise07/driver/skeleton.c\<close>: three interrupt lines that
  count presses, a miscellaneous device whose \<open>read\<close> waits for presses, and a sysfs attribute.  The
  interleaving of interrupt handlers and readers is a step relation over the places where one of them
  touches the counter or the wait queue.  Log messages are not modelled.
\<close>

section \<open>Statics and file operations\<close>

datatype switch_name = K1_Switch | K2_Switch | K3_Switch

text \<open>
  Where a call of \<open>read\<close> stands: about to look at the counter from inside \<open>wait_event_interruptible\<close>
  (\<open>Checking\<close>), asleep in the queue, or past the wait and about to take the counter.
\<close>

datatype reader = Outside | Checking | Asleep | Taking

text \<open>\<open>nb_of_interrupts\<close>, the wait queue with its readers, and the handlers between their two calls.\<close>

record switch_driver =
  nb_of_interrupts :: int
  queue :: "reader list"
  in_handler :: nat

definition wake_up :: "reader \<Rightarrow> reader" where
  "wake_up r = (if r = Asleep then Checking else r)"

definition gpio_isr_wake :: "switch_driver \<Rightarrow> switch_driver" where
  "gpio_isr_wake d = d\<lparr>queue := map wake_up (queue d)\<rparr>"

definition gpio_isr_count :: "switch_driver \<Rightarrow> switch_driver" where
  "gpio_isr_count d = d\<lparr>nb_of_interrupts := s32 (nb_of_interrupts d + 1)\<rparr>"

text \<open>A handler that nothing interrupts; which button it was only selects a message.\<close>

definition gpio_isr :: "switch_name \<Rightarrow> switch_driver \<Rightarrow> switch_driver" where
  "gpio_isr sw d = gpio_isr_count (gpio_isr_wake d)"

abbreviation (input) POLLIN :: nat where "POLLIN \<equiv> 1"
abbreviation (input) POLLRDNORM :: nat where "POLLRDNORM \<equiv> 64"

definition switch_poll :: "switch_driver \<Rightarrow> nat" where
  "switch_poll d = (if nb_of_interrupts d \<noteq> 0 then POLLIN OR POLLRDNORM else 0)"

text \<open>The end of \<open>read\<close>: the count as text.  The caller's buffer size plays no part.\<close>

definition switch_copy :: "(string \<Rightarrow> nat) \<Rightarrow> int \<Rightarrow> int \<times> string" where
  "switch_copy fault interrupts =
     (let text = fmt_d interrupts @ [NL];
          len = length text;
          bytes = take len (take 15 text @ [NUL])
      in if fault bytes \<noteq> 0 then (- EFAULT, []) else (int len, bytes))"

text \<open>
  The parts of \<open>read\<close> between two points where it can be overtaken.  A part leaves the reader
  somewhere and may return a value to the caller.
\<close>

definition read_enter ::
    "(string \<Rightarrow> nat) \<Rightarrow> bool \<Rightarrow> switch_driver \<Rightarrow> switch_driver \<times> reader \<times> (int \<times> string) option" where
  "read_enter fault nonblock d =
     (let interrupts = nb_of_interrupts d; d = d\<lparr>nb_of_interrupts := 0\<rparr> in
      if interrupts = 0 then
        (if nonblock then (d, Outside, Some (- EAGAIN, [])) else (d, Checking, None))
      else (d, Outside, Some (switch_copy fault interrupts)))"

definition read_check :: "switch_driver \<Rightarrow> reader" where
  "read_check d = (if nb_of_interrupts d \<noteq> 0 then Taking else Asleep)"

definition read_signal :: "int \<times> string" where
  "read_signal = (- ERESTARTSYS, [])"

definition read_take :: "(string \<Rightarrow> nat) \<Rightarrow> switch_driver \<Rightarrow> switch_driver \<times> (int \<times> string)" where
  "read_take fault d = (d\<lparr>nb_of_interrupts := 0\<rparr>, switch_copy fault (nb_of_interrupts d))"

definition nb_of_interrupts_show :: "switch_driver \<Rightarrow> string" where
  "nb_of_interrupts_show d = fmt_d (nb_of_interrupts d) @ [NL]"

text \<open>\<open>kstrtoint\<close>: an optional sign, digits to the end and at most one newline, in the range of \<open>int\<close>.\<close>

definition kstrtoint :: "string \<Rightarrow> int option" where
  "kstrtoint s =
     (let t = (if s \<noteq> [] \<and> last s = NL then butlast s else s);
          neg = (t \<noteq> [] \<and> hd t = CHR ''-'');
          ds = (if t \<noteq> [] \<and> hd t \<in> {CHR ''-'', CHR ''+''} then tl t else t);
          v = (if neg then - int (digits_val ds) else int (digits_val ds))
      in if ds \<noteq> [] \<and> (\<forall>c \<in> set ds. is_digit c) \<and> s32_range v then Some v else None)"

definition nb_of_interrupts_store :: "string \<Rightarrow> switch_driver \<Rightarrow> int \<times> switch_driver" where
  "nb_of_interrupts_store buf d =
     (int (length buf),
      if kstrtoint (c_str buf) = Some 0 then d\<lparr>nb_of_interrupts := 0\<rparr> else d)"

section \<open>Loading and unloading\<close>

definition K1 :: nat where "K1 = 0"
definition K2 :: nat where "K2 = 2"
definition K3 :: nat where "K3 = 3"

fun handle_of :: "switch_name \<Rightarrow> nat" where
  "handle_of K1_Switch = 0"
| "handle_of K2_Switch = 1"
| "handle_of K3_Switch = 2"

text \<open>The block that \<open>skeleton_init\<close> repeats for each button; a button that fails is left out.\<close>

definition request_button :: "('w, mcall) os \<Rightarrow> nat \<Rightarrow> string \<Rightarrow> switch_name \<Rightarrow> ('w, 'g, unit) prog" where
  "request_button os k name sw = do {
     r \<leftarrow> sysi os (Pin_request k name);
     if r = 0 then do {
       _ \<leftarrow> sysi os (Pin_direction_input k);
       irq \<leftarrow> sysi os (Pin_to_irq k);
       r \<leftarrow> sysi os (Request_irq irq name (handle_of sw));
       if r \<noteq> 0 then do { _ \<leftarrow> sysi os (Pin_free k); return () } else return () }
     else return () }"

definition switch_init :: "('w, mcall) os \<Rightarrow> ('w, 'g, int) prog" where
  "switch_init os = do {
     status \<leftarrow> sysi os (Misc_register ''switch_driver'');
     if status \<noteq> 0 then return status
     else do {
     status \<leftarrow> sysi os (Device_create_file ''nb_of_interrupts'');
     if status \<noteq> 0 then do {
       _ \<leftarrow> sysi os (Misc_deregister ''switch_driver'');
       return status }
     else do {
       request_button os K1 ''k1'' K1_Switch;
       request_button os K2 ''k2'' K2_Switch;
       request_button os K3 ''k3'' K3_Switch;
       return 0 }}}"

definition release_button :: "('w, mcall) os \<Rightarrow> nat \<Rightarrow> switch_name \<Rightarrow> ('w, 'g, unit) prog" where
  "release_button os k sw = do {
     irq \<leftarrow> sysi os (Pin_to_irq k);
     _ \<leftarrow> sysi os (Free_irq irq (handle_of sw));
     _ \<leftarrow> sysi os (Pin_free k);
     return () }"

definition switch_exit :: "('w, mcall) os \<Rightarrow> ('w, 'g, unit) prog" where
  "switch_exit os = do {
     _ \<leftarrow> sysi os (Device_remove_file ''nb_of_interrupts'');
     _ \<leftarrow> sysi os (Misc_deregister ''switch_driver'');
     release_button os K1 K1_Switch;
     release_button os K2 K2_Switch;
     release_button os K3 K3_Switch }"

section \<open>Interleavings\<close>

text \<open>The driver in use, with what an observer notes: how many handlers have run to the end, and every
  count taken with what the caller of \<open>read\<close> got for it.\<close>

record switch_run =
  drv :: switch_driver
  raised :: int
  served :: "(int \<times> (int \<times> string)) list"

definition set_reader :: "nat \<Rightarrow> reader \<Rightarrow> switch_driver \<Rightarrow> switch_driver" where
  "set_reader i r d = d\<lparr>queue := (queue d)[i := r]\<rparr>"

definition at_reader :: "switch_driver \<Rightarrow> nat \<Rightarrow> reader \<Rightarrow> bool" where
  "at_reader d i r \<longleftrightarrow> i < length (queue d) \<and> queue d ! i = r"

inductive switch_step :: "switch_run \<Rightarrow> switch_run \<Rightarrow> bool" where
  handler_wakes: "drv s = d \<Longrightarrow>
    switch_step s (s\<lparr>drv := (gpio_isr_wake d)\<lparr>in_handler := Suc (in_handler d)\<rparr>\<rparr>)"
| handler_counts: "drv s = d \<Longrightarrow> in_handler d = Suc n \<Longrightarrow>
    switch_step s (s\<lparr>drv := (gpio_isr_count d)\<lparr>in_handler := n\<rparr>, raised := raised s + 1\<rparr>)"
| enters: "drv s = d \<Longrightarrow> at_reader d i Outside \<Longrightarrow> read_enter fault nonblock d = (d', r, ret) \<Longrightarrow>
    switch_step s (s\<lparr>drv := set_reader i r d',
      served := served s @ (if nb_of_interrupts d = 0 then [] else [(nb_of_interrupts d, the ret)])\<rparr>)"
| checks: "drv s = d \<Longrightarrow> at_reader d i Checking \<Longrightarrow>
    switch_step s (s\<lparr>drv := set_reader i (read_check d) d\<rparr>)"
| signalled: "drv s = d \<Longrightarrow> at_reader d i Asleep \<Longrightarrow>
    switch_step s (s\<lparr>drv := set_reader i Outside d\<rparr>)"
| takes: "drv s = d \<Longrightarrow> at_reader d i Taking \<Longrightarrow> read_take fault d = (d', ret) \<Longrightarrow>
    switch_step s (s\<lparr>drv := set_reader i Outside d', served := served s @ [(nb_of_interrupts d, ret)]\<rparr>)"

definition switch_start :: "nat \<Rightarrow> switch_run" where
  "switch_start n = \<lparr>drv = \<lparr>nb_of_interrupts = 0, queue = replicate n Outside, in_handler = 0\<rparr>,
     raised = 0, served = []\<rparr>"

text \<open>What a caller gets for a count: the count as a line, or the fault.\<close>

definition answers :: "int \<Rightarrow> int \<times> string \<Rightarrow> bool" where
  "answers v a \<longleftrightarrow> a = (- EFAULT, []) \<or>
     a = (int (length (fmt_d v) + 1), fmt_d v @ [NL]) \<and> atoi (snd a) = v"

lemma switch_copy_answers: "s32_range v \<Longrightarrow> answers v (switch_copy fault v)"
  using length_fmt_d [of v] atoi_fmt_d [of v "[NL]"]
  by (auto simp: answers_def switch_copy_def Let_def is_digit_def)

definition counted :: "switch_run \<Rightarrow> bool" where
  "counted s \<longleftrightarrow> 0 \<le> raised s \<and> (raised s < 2 ^ 31 \<longrightarrow>
     sum_list (map fst (served s)) + nb_of_interrupts (drv s) = raised s \<and>
     0 \<le> nb_of_interrupts (drv s) \<and> (\<forall>(v, a) \<in> set (served s). 0 \<le> v \<and> answers v a))"

lemma sum_served_nonneg:
  "(\<forall>(v, a) \<in> set xs. 0 \<le> v \<and> P v a) \<Longrightarrow> (0::int) \<le> sum_list (map fst xs)"
  by (induction xs) auto

lemma counted_range:
  assumes "counted s" and "raised s < 2 ^ 31"
  shows "s32_range (nb_of_interrupts (drv s))" and "nb_of_interrupts (drv s) \<le> raised s"
  using assms sum_served_nonneg [of "served s" answers] by (auto simp: counted_def s32_range_def)

lemma counted_step: assumes "counted s" and "switch_step s t" shows "counted t"
  using assms(2)
proof cases
  case (handler_counts d n)
  have "s32 (nb_of_interrupts d + 1) = nb_of_interrupts d + 1" if "raised s + 1 < 2 ^ 31"
  proof (rule s32_id)
    from that have "raised s < 2 ^ 31" by simp
    from counted_range [OF assms(1) this] that assms(1) handler_counts(2)
    show "s32_range (nb_of_interrupts d + 1)"
      by (auto simp: s32_range_def counted_def)
  qed
  with handler_counts assms(1) show ?thesis by (auto simp: counted_def gpio_isr_count_def)
next
  case (enters d i fault nonblock d' r ret)
  with assms(1) counted_range(1) [of s] switch_copy_answers [of "nb_of_interrupts d" fault] show ?thesis
    by (cases "nb_of_interrupts d = 0") (auto simp: counted_def read_enter_def set_reader_def Let_def split: if_splits)
next
  case (takes d i fault d' ret)
  with assms(1) counted_range(1) [of s] switch_copy_answers [of "nb_of_interrupts d" fault] show ?thesis
    by (auto simp: counted_def read_take_def set_reader_def)
qed (use assms(1) in \<open>auto simp: counted_def gpio_isr_wake_def set_reader_def\<close>)

interpretation presses: kept_invariant "\<lambda>s. \<exists>n. s = switch_start n" switch_step counted
  proof
  show "counted s" if "\<exists>n. s = switch_start n" for s
    using that by (auto simp: switch_start_def counted_def)
qed (rule counted_step)

text \<open>C7. No press is counted twice or lost in the driver: for any number of readers and any
  interleaving of handlers and reads, the counts handed out and the pending count add up to the
  presses, and each caller gets its count as a line of text, or a fault.  (Up to 2^31 presses.)\<close>

theorem presses_conserved:
  assumes "switch_step\<^sup>*\<^sup>* (switch_start n) s" and "raised s < 2 ^ 31"
  shows "sum_list (map fst (served s)) + nb_of_interrupts (drv s) = raised s \<and>
    (\<forall>(v, a) \<in> set (served s). a = (- EFAULT, []) \<or> snd a = fmt_d v @ [NL] \<and> atoi (snd a) = v)"
proof -
  have "counted s" by (rule presses.reachable_inv [OF _ assms(1)]) blast
  with assms(2) show ?thesis by (fastforce simp: counted_def answers_def)
qed

text \<open>The steps of concrete runs.\<close>

lemma enters_waiting:
  assumes "at_reader (drv s) i Outside" and "nb_of_interrupts (drv s) = 0"
    and "t = s\<lparr>drv := set_reader i Checking ((drv s)\<lparr>nb_of_interrupts := 0\<rparr>)\<rparr>"
  shows "switch_step s t"
  using enters [OF refl assms(1), of "\<lambda>_. 0" False "(drv s)\<lparr>nb_of_interrupts := 0\<rparr>" Checking None] assms(2,3)
  by (simp add: read_enter_def Let_def)

lemma run_steps:
  "drv s = d \<Longrightarrow> t = s\<lparr>drv := (gpio_isr_wake d)\<lparr>in_handler := Suc (in_handler d)\<rparr>\<rparr> \<Longrightarrow> switch_step s t"
  "drv s = d \<Longrightarrow> in_handler d = Suc n \<Longrightarrow>
     t = s\<lparr>drv := (gpio_isr_count d)\<lparr>in_handler := n\<rparr>, raised := raised s + 1\<rparr> \<Longrightarrow> switch_step s t"
  "drv s = d \<Longrightarrow> at_reader d i Checking \<Longrightarrow> t = s\<lparr>drv := set_reader i (read_check d) d\<rparr> \<Longrightarrow> switch_step s t"
  "drv s = d \<Longrightarrow> at_reader d i Taking \<Longrightarrow>
     t = s\<lparr>drv := set_reader i Outside (d\<lparr>nb_of_interrupts := 0\<rparr>),
           served := served s @ [(nb_of_interrupts d, switch_copy (\<lambda>_. 0) (nb_of_interrupts d))]\<rparr> \<Longrightarrow>
     switch_step s t"
  by (auto intro: switch_step.intros simp: read_take_def)

lemmas run_defs = s32_range_def at_reader_def set_reader_def read_check_def gpio_isr_wake_def gpio_isr_count_def wake_up_def

theorem presses_conserved_witness:
  "\<exists>s. switch_step\<^sup>*\<^sup>* (switch_start 1) s \<and> raised s = 1 \<and>
    sum_list (map fst (served s)) + nb_of_interrupts (drv s) = 1"
proof -
  let ?s = "(switch_start 1)\<lparr>drv := \<lparr>nb_of_interrupts = 0, queue = [Outside], in_handler = 1\<rparr>\<rparr>"
  let ?t = "(switch_start 1)\<lparr>drv := \<lparr>nb_of_interrupts = 1, queue = [Outside], in_handler = 0\<rparr>, raised := 1\<rparr>"
  have "switch_step (switch_start 1) ?s"
    by (rule run_steps(1) [OF refl]) (simp add: switch_start_def run_defs)
  moreover have "switch_step ?s ?t"
    by (rule run_steps(2) [OF refl]) (simp_all add: switch_start_def run_defs)
  ultimately have "switch_step\<^sup>*\<^sup>* (switch_start 1) ?t" by auto
  from this presses_conserved [OF this] show ?thesis by (intro exI [of _ ?t]) simp
qed

text \<open>C22. A press can be missed by a sleeping reader: the handler wakes the queue before it counts, so
  a reader that looks at the counter in between goes back to sleep, and then sleeps with the press
  pending while \<open>poll\<close> reports data.\<close>

theorem lost_wake_up:
  "\<exists>s. switch_step\<^sup>*\<^sup>* (switch_start 1) s \<and> queue (drv s) = [Asleep] \<and> in_handler (drv s) = 0 \<and>
     nb_of_interrupts (drv s) = 1 \<and> switch_poll (drv s) \<noteq> 0"
proof -
  define st where "st q k n = \<lparr>drv = \<lparr>nb_of_interrupts = n, queue = [q], in_handler = k\<rparr>, raised = n, served = []\<rparr>"
    for q k n
  have "switch_step (switch_start 1) (st Checking 0 0)"
    by (rule enters_waiting [of _ 0]) (simp_all add: st_def switch_start_def run_defs)
  moreover have "switch_step (st Checking 0 0) (st Checking 1 0)"
    by (rule run_steps(1) [OF refl]) (simp add: st_def run_defs)
  moreover have "switch_step (st Checking 1 0) (st Asleep 1 0)"
    by (rule run_steps(3) [OF refl, of _ 0]) (simp_all add: st_def run_defs)
  moreover have "switch_step (st Asleep 1 0) (st Asleep 0 1)"
    by (rule run_steps(2) [OF refl]) (simp_all add: st_def run_defs)
  ultimately have "switch_step\<^sup>*\<^sup>* (switch_start 1) (st Asleep 0 1)" by auto
  then show ?thesis by (intro exI [of _ "st Asleep 0 1"]) (simp add: st_def switch_poll_def)
qed

text \<open>With two readers a blocking read can return the count 0: both see the press, one takes it,
  the other is served a 0 although it waited for a press.\<close>

theorem blocking_read_returns_zero:
  "\<exists>s. switch_step\<^sup>*\<^sup>* (switch_start 2) s \<and>
     served s = [(1, (2, ''1'' @ [NL])), (0, (2, ''0'' @ [NL]))]"
proof -
  define st where "st q q' k n l = \<lparr>drv = \<lparr>nb_of_interrupts = n, queue = [q, q'], in_handler = k\<rparr>, raised = n, served = l\<rparr>"
    for q q' k n l
  let ?a = "(1, (2, ''1'' @ [NL]))" and ?b = "(0, (2, ''0'' @ [NL]))"
  have texts: "switch_copy (\<lambda>_. 0) 1 = (2, ''1'' @ [NL])" "switch_copy (\<lambda>_. 0) 0 = (2, ''0'' @ [NL])"
    by (simp_all add: switch_copy_def fmt_d_def fmt_u.simps [of "Suc 0"] fmt_u.simps [of 0] numeral_2_eq_2)
  have "switch_step (switch_start 2) (st Checking Outside 0 0 [])"
    by (rule enters_waiting [of _ 0]) (simp_all add: st_def switch_start_def run_defs numeral_2_eq_2)
  moreover have "switch_step (st Checking Outside 0 0 []) (st Checking Checking 0 0 [])"
    by (rule enters_waiting [of _ 1]) (simp_all add: st_def run_defs)
  moreover have "switch_step (st Checking Checking 0 0 []) (st Checking Checking 1 0 [])"
    by (rule run_steps(1) [OF refl]) (simp add: st_def run_defs)
  moreover have "switch_step (st Checking Checking 1 0 []) (st Checking Checking 0 1 [])"
    by (rule run_steps(2) [OF refl]) (simp_all add: st_def run_defs)
  moreover have "switch_step (st Checking Checking 0 1 []) (st Taking Checking 0 1 [])"
    by (rule run_steps(3) [OF refl, of _ 0]) (simp_all add: st_def run_defs)
  moreover have "switch_step (st Taking Checking 0 1 []) (st Taking Taking 0 1 [])"
    by (rule run_steps(3) [OF refl, of _ 1]) (simp_all add: st_def run_defs)
  moreover have "switch_step (st Taking Taking 0 1 []) ((st Outside Taking 0 0 [?a])\<lparr>raised := 1\<rparr>)"
    by (rule run_steps(4) [OF refl, of _ 0]) (simp_all add: st_def run_defs texts)
  moreover have "switch_step ((st Outside Taking 0 0 [?a])\<lparr>raised := 1\<rparr>)
      ((st Outside Outside 0 0 [?a, ?b])\<lparr>raised := 1\<rparr>)"
    by (rule run_steps(4) [OF refl, of _ 1]) (simp_all add: st_def run_defs texts)
  ultimately have "switch_step\<^sup>*\<^sup>* (switch_start 2) ((st Outside Outside 0 0 [?a, ?b])\<lparr>raised := 1\<rparr>)"
    by (meson converse_rtranclp_into_rtranclp rtranclp.rtrancl_refl)
  then show ?thesis by (intro exI conjI) (auto simp: st_def)
qed

section \<open>Lines of the buttons\<close>

text \<open>What one button holds after the initialisation: nothing, or its line and its interrupt.\<close>

definition button_parts :: "(nat \<Rightarrow> int) \<Rightarrow> nat \<Rightarrow> switch_name \<Rightarrow> resource multiset set" where
  "button_parts irq k sw = {{#}, {#Pin k, Irq (irq k) (handle_of sw)#}}"

definition irqs_fixed :: "(mcall history \<Rightarrow> mcall \<Rightarrow> ret) \<Rightarrow> (nat \<Rightarrow> int) \<Rightarrow> bool" where
  "irqs_fixed e irq \<longleftrightarrow> (\<forall>h k. fst (e h (Pin_to_irq k)) = irq k)"

lemma wp_request_button:
  assumes "irqs_fixed e irq"
    and "\<And>p h'. p \<in> button_parts irq k sw \<Longrightarrow> resources h' = resources h + p \<Longrightarrow>
      unheld_releases h' = unheld_releases h \<Longrightarrow> Q () (h', g)"
  shows "wp (request_button (recorder e) k name sw) (h, g) Q"
  unfolding request_button_def wp_simps using assms(1)
  by (auto simp: irqs_fixed_def button_parts_def unheld_def wp_simps
      intro!: wp_call_accounted)
    ((rule assms(2) [of "{#}"]; simp add: button_parts_def; fail) |
     (rule assms(2) [of "{#Pin k, Irq (irq k) (handle_of sw)#}"]; simp add: button_parts_def))+

lemma wp_release_button:
  assumes "irqs_fixed e irq"
    and "\<And>h'. resources h' = resources h - {#Irq (irq k) (handle_of sw)#} - {#Pin k#} \<Longrightarrow>
      unheld_releases h' = unheld_releases h @
        (if Irq (irq k) (handle_of sw) \<in># resources h then [] else [Irq (irq k) (handle_of sw)]) @
        (if Pin k \<in># resources h then [] else [Pin k]) \<Longrightarrow> Q () (h', g)"
  shows "wp (release_button (recorder e) k sw) (h, g) Q"
  unfolding release_button_def wp_simps using assms(1)
  by (auto simp: irqs_fixed_def unheld_def in_diff_count wp_simps
      intro!: wp_call_accounted assms(2))

lemmas pins = K1_def K2_def K3_def

lemma wp_switch_init:
  assumes "irqs_fixed e irq"
    and "\<And>h' status. status \<noteq> 0 \<Longrightarrow> resources h' = {#} \<Longrightarrow> unheld_releases h' = [] \<Longrightarrow> Q status (h', g)"
    and "\<And>h' p1 p2 p3. p1 \<in> button_parts irq 0 K1_Switch \<Longrightarrow> p2 \<in> button_parts irq 2 K2_Switch \<Longrightarrow>
      p3 \<in> button_parts irq 3 K3_Switch \<Longrightarrow> unheld_releases h' = [] \<Longrightarrow>
      resources h' = {#Misc ''switch_driver'', Attribute ''nb_of_interrupts''#} + p1 + p2 + p3 \<Longrightarrow> Q 0 (h', g)"
  shows "wp (switch_init (recorder e)) ([], g) Q"
  unfolding switch_init_def wp_simps
  by (auto simp: unheld_def wp_simps pins intro!: wp_call_accounted wp_request_button [OF assms(1)])
    ((rule assms(2); simp; fail) | (rule assms(3), assumption+, simp_all))+

definition all_buttons :: "(nat \<Rightarrow> int) \<Rightarrow> resource multiset" where
  "all_buttons irq = {#Pin 0, Irq (irq 0) 0, Pin 2, Irq (irq 2) 1, Pin 3, Irq (irq 3) 2#}"

lemma wp_switch_exit:
  assumes "irqs_fixed e irq"
    and "p1 \<in> button_parts irq 0 K1_Switch" "p2 \<in> button_parts irq 2 K2_Switch" "p3 \<in> button_parts irq 3 K3_Switch"
    and "unheld_releases h = []"
    and "resources h = {#Misc ''switch_driver'', Attribute ''nb_of_interrupts''#} + p1 + p2 + p3"
    and "\<And>h'. resources h' = {#} \<Longrightarrow>
      unheld_releases h' = [] \<longleftrightarrow> all_buttons irq \<subseteq># resources h \<Longrightarrow> Q () (h', g)"
  shows "wp (switch_exit (recorder e)) (h, g) Q"
  unfolding switch_exit_def wp_simps using assms(2-6)
  by (auto simp: unheld_def wp_simps pins button_parts_def all_buttons_def insert_subset_eq_iff
      intro!: wp_call_accounted wp_release_button [OF assms(1)] assms(7))

text \<open>C24. Loading and unloading the driver: a failed load holds nothing; an unload always leaves
  nothing behind, but it releases only what the load obtained exactly when all three buttons were
  obtained - otherwise it frees lines and interrupts that are not the module's.\<close>

theorem switch_unload:
  assumes "\<forall>h k. fst (e h (Pin_to_irq k)) = irq k"
  shows "wp (switch_init (recorder e)) ([], ()) (\<lambda>status (h, u).
    if status \<noteq> 0 then resources h = {#} \<and> unheld_releases h = []
    else wp (switch_exit (recorder e)) (h, u) (\<lambda>_ (h', _).
      resources h' = {#} \<and>
      (unheld_releases h' = [] \<longleftrightarrow>
        {#Pin 0, Irq (irq 0) 0, Pin 2, Irq (irq 2) 1, Pin 3, Irq (irq 3) 2#} \<subseteq># resources h)))"
proof -
  have "irqs_fixed e irq" using assms by (simp add: irqs_fixed_def)
  note rules = wp_switch_init [OF this] wp_switch_exit [OF this, unfolded all_buttons_def]
  show ?thesis by (rule rules(1)) (auto intro!: rules(2))
qed

theorem switch_unload_witness:
  "wp (switch_init (recorder (\<lambda>h c. case c of Pin_to_irq k \<Rightarrow> (int k + 40, [])
       | Pin_request k s \<Rightarrow> (if k = 2 then -16 else 0, []) | _ \<Rightarrow> (0, [])))) ([], ()) (\<lambda>status (h, u).
    status = 0 \<longrightarrow> wp (switch_exit (recorder (\<lambda>h c. case c of Pin_to_irq k \<Rightarrow> (int k + 40, [])
       | Pin_request k s \<Rightarrow> (if k = 2 then -16 else 0, []) | _ \<Rightarrow> (0, [])))) (h, u)
      (\<lambda>_ (h', _). resources h' = {#}))"
  by (rule wp_mono [OF switch_unload [of _ "\<lambda>k. int k + 40"]]) (auto elim!: wp_mono)

end
