(* ===== verification/Lab_Modules.thy ===== *)
theory Lab_Modules
  imports Switch_Driver
begin

text \<open>
  The kernel modules of \<^verbatim>\<open>src/02_modules\<close>: a bare module and one with parameters (exercises 1 and
  2), a list of allocated elements (4), processor registers (5), kernel threads (6 and 7) and
  interrupts of the buttons (8).  Here the log is part of the behaviour: it is all that most of these
  modules do.
\<close>

definition pr_info :: "('w, mcall) os \<Rightarrow> string \<Rightarrow> ('w, 'g, unit) prog" where
  "pr_info os s = do { _ \<leftarrow> sysi os (Printk s); return () }"

lemma wp_pr_info:
  "(\<And>h'. resources h' = resources h \<Longrightarrow> unheld_releases h' = unheld_releases h \<Longrightarrow> Q () (h', g)) \<Longrightarrow>
    wp (pr_info (recorder e) s) (h, g) Q"
  by (auto simp: pr_info_def wp_simps unheld_def intro!: wp_call_accounted)

section \<open>Exercises 1 and 2: messages\<close>

definition hello_init :: "('w, mcall) os \<Rightarrow> ('w, 'g, int) prog" where
  "hello_init os = do { pr_info os (''Linux module skeleton loaded'' @ [NL]); return 0 }"

definition hello_exit :: "('w, mcall) os \<Rightarrow> ('w, 'g, unit) prog" where
  "hello_exit os = pr_info os (''Linux module skeleton unloaded'' @ [NL])"

definition params_init :: "('w, mcall) os \<Rightarrow> string \<Rightarrow> int \<Rightarrow> ('w, 'g, int) prog" where
  "params_init os txt elements = do {
     pr_info os (''Linux module skeleton loaded'' @ [NL]);
     pr_info os (''  text: '' @ txt @ [NL] @ ''  elements: '' @ fmt_d elements @ [NL]);
     return 0 }"

definition params_exit :: "('w, mcall) os \<Rightarrow> ('w, 'g, unit) prog" where
  "params_exit os = pr_info os (''Linux module skeleton unloaded'' @ [NL])"

section \<open>Exercise 4: a list of elements\<close>

text \<open>\<open>el_self\<close> is the address of the element, \<open>el_text\<close> its pointer to the text, \<open>el_copy\<close> the text
  stored there, \<open>None\<close> when the pointer is null.\<close>

record element =
  el_id :: int
  el_self :: int
  el_text :: int
  el_copy :: "string option"

record list_module =
  list_text :: string
  elements :: int
  elements_list :: "element list"

primrec create_elements :: "nat \<Rightarrow> ('w, mcall) os \<Rightarrow> int \<Rightarrow> ('w, list_module, unit) prog" where
  "create_elements 0 os i = return ()"
| "create_elements (Suc n) os i = do {
     m \<leftarrow> getg;
     el \<leftarrow> sysi os (Kmalloc 32);
     (if el \<noteq> 0 then do {
        t \<leftarrow> sysi os (Kmalloc (length (list_text m) + 1));
        (if t \<noteq> 0 then return ()
         else pr_info os (''Failed to allocate text for element '' @ fmt_d i @ [NL]));
        modg (\<lambda>m. m\<lparr>elements_list := elements_list m @ [\<lparr>el_id = i, el_self = el, el_text = t,
          el_copy = (if t \<noteq> 0 then Some (list_text m) else None)\<rparr>]\<rparr>) }
      else pr_info os (''Failed to allocate element '' @ fmt_d i @ [NL]));
     create_elements n os (i + 1) }"

definition list_init :: "('w, mcall) os \<Rightarrow> ('w, list_module, int) prog" where
  "list_init os = do {
     pr_info os (''Sylvan Module Loaded'' @ [NL]);
     m \<leftarrow> getg;
     (if elements m > 0 then do {
        pr_info os (''Creating list of '' @ fmt_d (elements m) @ '' elements'' @ [NL]);
        create_elements (nat (elements m)) os 0 }
      else return ());
     return 0 }"

definition delete_element :: "('w, mcall) os \<Rightarrow> element \<Rightarrow> ('w, list_module, unit) prog" where
  "delete_element os ele = do {
     pr_info os (''Deleting element '' @ fmt_d (el_id ele));
     modg (\<lambda>m. m\<lparr>elements_list := remove1 ele (elements_list m)\<rparr>);
     kfree os (el_text ele);
     kfree os (el_self ele) }"

definition list_exit :: "('w, mcall) os \<Rightarrow> ('w, list_module, unit) prog" where
  "list_exit os = do {
     m \<leftarrow> getg;
     for_each (elements_list m) (delete_element os);
     pr_info os (''Deleted '' @ fmt_d (elements m) @ '' elements'' @ [NL]);
     pr_info os (''Sylvan Module Unloaded'' @ [NL]) }"

section \<open>Exercise 5: processor registers\<close>

definition ioread32 :: "('w, mcall) os \<Rightarrow> int \<Rightarrow> ('w, 'g, nat) prog" where
  "ioread32 os a = do { r \<leftarrow> sysi os (Ioread32 a); return (nat (r mod 2 ^ 32)) }"

definition chip_id_line :: "nat \<Rightarrow> nat \<Rightarrow> nat \<Rightarrow> nat \<Rightarrow> string" where
  "chip_id_line a b c d = ''Chip ID: '' @ zero_pad 8 (fmt_x a) @ [CHR 0x27] @ zero_pad 8 (fmt_x b) @
     [CHR 0x27] @ zero_pad 8 (fmt_x c) @ [CHR 0x27] @ zero_pad 8 (fmt_x d) @ [NL]"

definition millidegrees :: "nat \<Rightarrow> int" where
  "millidegrees raw = cdiv (- 1191 * int raw) 10 + 223000"

definition temperature_line :: "nat \<Rightarrow> string" where
  "temperature_line raw = ''CPU Temperature: '' @ fmt_d (millidegrees raw) @ '' m'' @ [CHR 0xC2, CHR 0xB0] @ ''C'' @ [NL]"

definition byte_of :: "nat \<Rightarrow> nat \<Rightarrow> nat" where
  "byte_of v k = drop_bit k v AND 0xff"

definition mac_line :: "nat \<Rightarrow> nat \<Rightarrow> string" where
  "mac_line lo hi = ''MAC Address: '' @
     zero_pad 2 (fmt_x (byte_of hi 0)) @ '':'' @ zero_pad 2 (fmt_x (byte_of hi 8)) @ '':'' @
     zero_pad 2 (fmt_x (byte_of hi 16)) @ '':'' @ zero_pad 2 (fmt_x (byte_of hi 24)) @ '':'' @
     zero_pad 2 (fmt_x (byte_of lo 0)) @ '':'' @ zero_pad 2 (fmt_x (byte_of lo 8)) @ [NL]"

definition iounmap :: "('w, mcall) os \<Rightarrow> int \<Rightarrow> ('w, 'g, unit) prog" where
  "iounmap os p = do { _ \<leftarrow> sysi os (Iounmap p); return () }"

definition registers_init :: "('w, mcall) os \<Rightarrow> ('w, 'g, int) prog" where
  "registers_init os = do {
     pr_info os (''Exercice 5 module loaded, reading registers...'' @ [NL]);
     r0 \<leftarrow> sysi os (Ioremap 0x01c14200 0x10);
     r1 \<leftarrow> sysi os (Ioremap 0x01c25080 0x4);
     r2 \<leftarrow> sysi os (Ioremap 0x01c30050 0x8);
     if r0 = 0 \<or> r1 = 0 \<or> r2 = 0 then do {
       pr_info os (''Failded to map processors registers'' @ [NL]);
       (if r0 \<noteq> 0 then iounmap os r0 else return ());
       (if r1 \<noteq> 0 then iounmap os r1 else return ());
       (if r2 \<noteq> 0 then iounmap os r2 else return ());
       return (- EFAULT) }
     else do {
       c0 \<leftarrow> ioread32 os r0;
       c1 \<leftarrow> ioread32 os (r0 + 0x4);
       c2 \<leftarrow> ioread32 os (r0 + 0x8);
       c3 \<leftarrow> ioread32 os (r0 + 0xc);
       pr_info os (chip_id_line c0 c1 c2 c3);
       t \<leftarrow> ioread32 os r1;
       pr_info os (temperature_line t);
       m0 \<leftarrow> ioread32 os r2;
       m1 \<leftarrow> ioread32 os (r2 + 0x4);
       pr_info os (mac_line m0 m1);
       iounmap os r0;
       iounmap os r1;
       iounmap os r2;
       return 0 } }"

definition registers_exit :: "('w, mcall) os \<Rightarrow> ('w, 'g, unit) prog" where
  "registers_exit os = pr_info os (''Exercice 5 Module Unloaded'' @ [NL])"

section \<open>Exercise 6: a thread\<close>

text \<open>The thread's loop; \<open>fuel\<close> bounds the rounds, \<open>None\<close> when it is used up.\<close>

primrec tick_loop :: "nat \<Rightarrow> ('w, mcall) os \<Rightarrow> ('w, 'g, int option) prog" where
  "tick_loop 0 os = return None"
| "tick_loop (Suc fuel) os = do {
     stop \<leftarrow> sysi os Kthread_should_stop;
     if stop \<noteq> 0 then return (Some 0)
     else do {
       _ \<leftarrow> sysi os (Ssleep 5);
       pr_info os (''tick'' @ [NL]);
       tick_loop fuel os } }"

definition tick_thread :: "nat \<Rightarrow> ('w, mcall) os \<Rightarrow> ('w, 'g, int option) prog" where
  "tick_thread fuel os = do {
     pr_info os (''Thread is running'' @ [NL]);
     tick_loop fuel os }"

text \<open>The static of this module is the pointer of the thread.\<close>

definition tick_init :: "('w, mcall) os \<Rightarrow> ('w, int, int) prog" where
  "tick_init os = do {
     pr_info os (''Exercice 6 module loaded, reading registers...'' @ [NL]);
     t \<leftarrow> sysi os (Kthread_run ''ex6thread'');
     modg (\<lambda>_. t);
     if t < 0 then do {
       pr_info os (''Failed to create thread'' @ [NL]);
       return (- EFAULT) }
     else return 0 }"

definition tick_exit :: "('w, mcall) os \<Rightarrow> ('w, int, unit) prog" where
  "tick_exit os = do {
     t \<leftarrow> getg;
     _ \<leftarrow> sysi os (Kthread_stop t);
     pr_info os (''Exercice 6 Module Unloaded, thread stopped'' @ [NL]) }"

section \<open>Exercise 7: two threads\<close>

record kick_module =
  ex7thread_1 :: int
  ex7thread_2 :: int

definition kick_init :: "('w, mcall) os \<Rightarrow> ('w, kick_module, int) prog" where
  "kick_init os = do {
     pr_info os (''Exercice 7 module loaded, reading registers...'' @ [NL]);
     t \<leftarrow> sysi os (Kthread_run ''ex7thread_1'');
     modg (\<lambda>m. m\<lparr>ex7thread_1 := t\<rparr>);
     if t < 0 then do {
       pr_info os (''Failed to create thread 1'' @ [NL]);
       return (- EFAULT) }
     else do {
     t \<leftarrow> sysi os (Kthread_run ''ex7thread_2'');
     modg (\<lambda>m. m\<lparr>ex7thread_2 := t\<rparr>);
     if t < 0 then do {
       pr_info os (''Failed to create thread 2'' @ [NL]);
       return (- EFAULT) }
     else return 0 }}"

definition kick_exit :: "('w, mcall) os \<Rightarrow> ('w, kick_module, unit) prog" where
  "kick_exit os = do {
     m \<leftarrow> getg;
     _ \<leftarrow> sysi os (Kthread_stop (ex7thread_1 m));
     _ \<leftarrow> sysi os (Kthread_stop (ex7thread_2 m));
     pr_info os (''Exercice 7 Module Unloaded, threads stopped'' @ [NL]) }"

text \<open>
  The threads, one step of a thread per access to what they share: the condition \<open>is_kicked\<close>, the
  wait queue and the stop flags.  Thread 1 is at its loop test, sleeping, about to set the condition
  or about to wake the queue; thread 2 at its loop test, about to evaluate the condition of
  \<open>wait_event_interruptible\<close>, asleep, awake, or about to reset the condition.
\<close>

datatype thread_1 = Test_1 | Sleep_1 | Set_1 | Wake_1 | Ended_1
datatype thread_2 = Test_2 | Check_2 | Asleep_2 | Awake_2 | Reset_2 | Ended_2

record kick =
  is_kicked :: bool
  stop_1 :: bool
  stop_2 :: bool
  at_1 :: thread_1
  at_2 :: thread_2
  notified :: nat
  received :: nat

definition wake_2 :: "kick \<Rightarrow> kick" where
  "wake_2 k = (if at_2 k = Asleep_2 then k\<lparr>at_2 := Check_2\<rparr> else k)"

definition thread_func_1 :: "kick \<Rightarrow> kick" where
  "thread_func_1 k = (case at_1 k of
       Test_1 \<Rightarrow> k\<lparr>at_1 := (if stop_1 k then Ended_1 else Sleep_1)\<rparr>
     | Sleep_1 \<Rightarrow> k\<lparr>at_1 := Set_1, notified := Suc (notified k)\<rparr>
     | Set_1 \<Rightarrow> k\<lparr>at_1 := Wake_1, is_kicked := True\<rparr>
     | Wake_1 \<Rightarrow> wake_2 (k\<lparr>at_1 := Test_1\<rparr>)
     | Ended_1 \<Rightarrow> k)"

definition thread_func_2 :: "kick \<Rightarrow> kick" where
  "thread_func_2 k = (case at_2 k of
       Test_2 \<Rightarrow> k\<lparr>at_2 := (if stop_2 k then Ended_2 else Check_2)\<rparr>
     | Check_2 \<Rightarrow> k\<lparr>at_2 := (if is_kicked k \<or> stop_2 k then Awake_2 else Asleep_2)\<rparr>
     | Asleep_2 \<Rightarrow> k
     | Awake_2 \<Rightarrow> (if is_kicked k then k\<lparr>at_2 := Reset_2, received := Suc (received k)\<rparr>
                    else k\<lparr>at_2 := Test_2\<rparr>)
     | Reset_2 \<Rightarrow> k\<lparr>at_2 := Test_2, is_kicked := False\<rparr>
     | Ended_2 \<Rightarrow> k)"

section \<open>Exercise 8: interrupts\<close>

definition gpio_isr_line :: "nat \<Rightarrow> string" where
  "gpio_isr_line handle =
     (if handle = handle_of K1_Switch then ''Interrupt from K1'' @ [NL]
      else if handle = handle_of K2_Switch then ''Interrupt from K2'' @ [NL]
      else if handle = handle_of K3_Switch then ''Interrupt from K3'' @ [NL]
      else ''Unknown switch interrupt'' @ [NL])"

definition request_shared :: "('w, mcall) os \<Rightarrow> nat \<Rightarrow> string \<Rightarrow> switch_name \<Rightarrow> ('w, 'g, unit) prog" where
  "request_shared os k name sw = do {
     r \<leftarrow> sysi os (Pin_request k name);
     if r = 0 then do {
       irq \<leftarrow> sysi os (Pin_to_irq k);
       r \<leftarrow> sysi os (Request_irq_shared irq name (handle_of sw));
       if r \<noteq> 0 then do {
         pr_info os (''Failed to request IRQ for GPIO '' @ fmt_u k @ [NL]);
         _ \<leftarrow> sysi os (Pin_free k);
         return () }
       else return () }
     else pr_info os (''Failed to request GPIO '' @ fmt_u k @ '' for '' @ name @ [NL]) }"

definition irq_init :: "('w, mcall) os \<Rightarrow> ('w, 'g, int) prog" where
  "irq_init os = do {
     request_shared os K1 ''k1'' K1_Switch;
     request_shared os K2 ''k2'' K2_Switch;
     request_shared os K3 ''k3'' K3_Switch;
     pr_info os (''Exercice 8 module loaded'' @ [NL]);
     return 0 }"

definition release_shared :: "('w, mcall) os \<Rightarrow> nat \<Rightarrow> switch_name \<Rightarrow> ('w, 'g, unit) prog" where
  "release_shared os k sw = do {
     _ \<leftarrow> sysi os (Pin_free k);
     irq \<leftarrow> sysi os (Pin_to_irq k);
     _ \<leftarrow> sysi os (Free_irq irq (handle_of sw));
     return () }"

definition irq_exit :: "('w, mcall) os \<Rightarrow> ('w, 'g, unit) prog" where
  "irq_exit os = do {
     release_shared os K1 K1_Switch;
     release_shared os K2 K2_Switch;
     release_shared os K3 K3_Switch;
     pr_info os (''Exercice 8 Module Unloaded'' @ [NL]) }"

section \<open>Memory of the list\<close>

definition element_memory :: "element list \<Rightarrow> resource multiset" where
  "element_memory es = mset (map (Memory \<circ> el_self) es) +
     mset (map (Memory \<circ> el_text) (filter (\<lambda>e. el_text e \<noteq> 0) es))"

text \<open>What the load builds: every allocated element has its number, in order, and a copy of the text
  exactly when its text was allocated.\<close>

definition list_ok :: "string \<Rightarrow> int \<Rightarrow> element list \<Rightarrow> bool" where
  "list_ok txt n es \<longleftrightarrow> sorted_wrt (\<lambda>a b. el_id a < el_id b) es \<and>
     (\<forall>e \<in> set es. 0 \<le> el_id e \<and> el_id e < n \<and> el_self e \<noteq> 0 \<and>
       el_copy e = (if el_text e = 0 then None else Some txt))"

definition list_inv :: "int \<Rightarrow> mcall history \<times> list_module \<Rightarrow> bool" where
  "list_inv i s \<longleftrightarrow> resources (fst s) = element_memory (elements_list (snd s)) \<and>
     unheld_releases (fst s) = [] \<and> list_ok (list_text (snd s)) i (elements_list (snd s))"

lemma element_memory_Cons [simp]:
  "element_memory (x # es) = add_mset (Memory (el_self x))
     ((if el_text x = 0 then {#} else {#Memory (el_text x)#}) + element_memory es)"
  by (simp add: element_memory_def)

lemma element_memory_snoc [simp]:
  "element_memory (es @ [x]) = add_mset (Memory (el_self x))
     ((if el_text x = 0 then {#} else {#Memory (el_text x)#}) + element_memory es)"
  by (simp add: element_memory_def)

lemma no_null_memory: "\<forall>x \<in> set es. el_self x \<noteq> 0 \<Longrightarrow> element_memory es - {#Memory 0#} = element_memory es"
  by (rule diff_single_trivial) (auto simp: element_memory_def)

lemma list_inv_snoc:
  assumes "list_inv i (h, m)" and "0 \<le> i" and "el_id x = i" and "el_self x \<noteq> 0"
    and "el_copy x = (if el_text x = 0 then None else Some (list_text m))"
    and "resources h' = add_mset (Memory (el_self x))
      ((if el_text x = 0 then {#} else {#Memory (el_text x)#}) + resources h)"
    and "unheld_releases h' = []"
  shows "list_inv (i + 1) (h', m\<lparr>elements_list := elements_list m @ [x]\<rparr>)"
  using assms by (auto simp: list_inv_def list_ok_def sorted_wrt_append)

lemma list_inv_skip:
  assumes "list_inv i (h, m)" and "resources h' = resources h" and "unheld_releases h' = []"
  shows "list_inv (i + 1) (h', m)"
  using assms by (auto simp: list_inv_def list_ok_def)

lemma wp_create_elements:
  "list_inv i (h, m) \<Longrightarrow> 0 \<le> i \<Longrightarrow>
   (\<And>h' m'. list_inv (i + int n) (h', m') \<Longrightarrow> list_text m' = list_text m \<Longrightarrow> elements m' = elements m \<Longrightarrow> Q () (h', m')) \<Longrightarrow>
   wp (create_elements n (recorder e) i) (h, m) Q"
proof (induction n arbitrary: i h m)
  case (Suc n)
  have IH: "wp (create_elements n (recorder e) (i + 1)) (h', m') Q"
    if "list_inv (i + 1) (h', m')" "list_text m' = list_text m" "elements m' = elements m" for h' m'
    using that Suc.prems by (intro Suc.IH) (auto simp: algebra_simps)
  have u: "unheld_releases h = []" using Suc.prems(1) by (simp add: list_inv_def)
  show ?case
    unfolding create_elements.simps wp_simps
    by (auto simp: wp_simps unheld_def u intro!: wp_call_accounted wp_pr_info IH
        list_inv_snoc [OF Suc.prems(1,2)] list_inv_skip [OF Suc.prems(1)])
qed (simp add: wp_simps)

lemma wp_delete_element:
  assumes "\<forall>x \<in> set (x # es). el_self x \<noteq> 0" and "resources h = element_memory (x # es)"
    and "unheld_releases h = []"
    and "\<And>h'. resources h' = element_memory es \<Longrightarrow> unheld_releases h' = [] \<Longrightarrow>
      Q () (h', m\<lparr>elements_list := remove1 x (elements_list m)\<rparr>)"
  shows "wp (delete_element (recorder e) x) (h, m) Q"
  using assms(1-3)
  by (auto simp: delete_element_def kfree_def wp_simps unheld_def no_null_memory add_mset_commute
      intro!: wp_call_accounted wp_pr_info assms(4))

lemma wp_delete_elements:
  assumes "\<And>h' m'. resources h' = {#} \<Longrightarrow> unheld_releases h' = [] \<Longrightarrow> elements_list m' = [] \<Longrightarrow> Q () (h', m')"
  shows "\<forall>x \<in> set es. el_self x \<noteq> 0 \<Longrightarrow> resources h = element_memory es \<Longrightarrow> unheld_releases h = [] \<Longrightarrow>
    elements_list m = es \<Longrightarrow> wp (for_each es (delete_element (recorder e))) (h, m) Q"
proof (induction es arbitrary: h m)
  case (Cons x es)
  show ?case
    unfolding wp_for_each_Cons
    by (rule wp_delete_element [where es = es], use Cons.prems in simp_all, rule Cons.IH)
      (use Cons.prems in simp_all)
qed (simp add: wp_simps element_memory_def assms)

text \<open>C16. The list module, in any environment, whichever allocations fail: the load builds a list
  numbered in ascending order below the requested number of elements, with a copy of the text in each
  element whose text could be allocated; the unload frees every block once, nothing else, and
  empties the list.  (That the list is complete when no allocation fails is not part of it.)\<close>

theorem list_module_memory:
  "wp (list_init (recorder e)) ([], \<lparr>list_text = txt, elements = n, elements_list = []\<rparr>) (\<lambda>r (h, m).
     r = 0 \<and> sorted_wrt (\<lambda>a b. el_id a < el_id b) (elements_list m) \<and>
     Ball (set (elements_list m)) (\<lambda>x. 0 \<le> el_id x \<and> el_id x < n \<and>
       el_copy x = (if el_text x = 0 then None else Some txt)) \<and>
     wp (list_exit (recorder e)) (h, m) (\<lambda>_ (h', m').
       resources h' = {#} \<and> unheld_releases h' = [] \<and> elements_list m' = []))"
proof -
  let ?m = "\<lparr>list_text = txt, elements = n, elements_list = []\<rparr>"
  have exit: "wp (list_exit (recorder e)) (h, m) (\<lambda>_ (h', m').
       resources h' = {#} \<and> unheld_releases h' = [] \<and> elements_list m' = [])"
    if "list_inv i (h, m)" for i h m
    using that
    by (auto simp: list_exit_def wp_simps list_inv_def list_ok_def intro!: wp_delete_elements wp_pr_info)
  have start: "list_inv 0 (h, ?m)" if "resources h = {#}" "unheld_releases h = []" for h
    using that by (simp add: list_inv_def element_memory_def list_ok_def)
  show ?thesis
    unfolding list_init_def wp_simps
    by (rule wp_pr_info, simp only: wp_simps split: if_split, intro conjI impI)
      (auto intro!: wp_pr_info wp_create_elements [of 0] exit start exit [OF start]
        simp: list_inv_def list_ok_def wp_simps)
qed

theorem list_module_memory_witness:
  "wp (list_init (recorder (\<lambda>h c. (case c of Kmalloc n \<Rightarrow> (if n = 32 then 5 else 0) | _ \<Rightarrow> 0, []))))
    ([], \<lparr>list_text = ''abc'', elements = 2, elements_list = []\<rparr>) (\<lambda>r (h, m). r = 0 \<and>
      sorted_wrt (\<lambda>a b. el_id a < el_id b) (elements_list m) \<and>
      wp (list_exit (recorder (\<lambda>h c. (case c of Kmalloc n \<Rightarrow> (if n = 32 then 5 else 0) | _ \<Rightarrow> 0, [])))) (h, m)
        (\<lambda>_ (h', m'). resources h' = {#}))"
  by (rule wp_mono [OF list_module_memory]) (auto elim!: wp_mono)

section \<open>The report of the registers\<close>

text \<open>What a history of calls has printed.\<close>

definition printed :: "mcall history \<Rightarrow> string list" where
  "printed h = concat (map (\<lambda>(c, r). case c of Printk s \<Rightarrow> [s] | _ \<Rightarrow> []) h)"

lemma printed_simps [simp]:
  "printed [] = []" "printed (cr # h) = (case fst cr of Printk s \<Rightarrow> [s] | _ \<Rightarrow> []) @ printed h"
  "printed (h @ h') = printed h @ printed h'"
  by (auto simp: printed_def split: prod.splits)

lemma wp_call_logged:
  assumes "\<And>a bs h'. a = fst (e h c) \<Longrightarrow> resources h' = resource_effect (c, (a, bs)) (resources h) \<Longrightarrow>
    unheld_releases h' = unheld_releases h @ unheld c (resources h) \<Longrightarrow>
    printed h' = printed h @ (case c of Printk s \<Rightarrow> [s] | _ \<Rightarrow> []) \<Longrightarrow> Q a (h', g)"
  shows "wp (sysi (recorder e) c) (h, g) Q"
  by (rule wp_call, rule assms [of "fst (e h c)" _ "snd (e h c)"]) simp_all

text \<open>Reading the registers, when the three mappings succeed: the log is exactly the chip
  identifier, the temperature and the MAC address computed from the words the device answers, in this
  order, and no mapping is left.\<close>

theorem registers_report:
  assumes "\<forall>h a n. fst (e h (Ioremap a n)) = int a" and "\<forall>h a. fst (e h (Ioread32 a)) = int (w (nat a))"
    and "\<forall>a. w a < 2 ^ 32"
  shows "wp (registers_init (recorder e)) ([], g) (\<lambda>r (h, g').
    r = 0 \<and> resources h = {#} \<and> unheld_releases h = [] \<and> g' = g \<and>
    printed h = [''Exercice 5 module loaded, reading registers...'' @ [NL],
      chip_id_line (w 0x01c14200) (w 0x01c14204) (w 0x01c14208) (w 0x01c1420c),
      temperature_line (w 0x01c25080), mac_line (w 0x01c30050) (w 0x01c30054)])"
proof -
  have m: "nat (int (w a) mod 4294967296) = w a" for a
    using assms(3) by (simp add: nat_mod_distrib)
  show ?thesis
    unfolding registers_init_def pr_info_def ioread32_def iounmap_def wp_simps
    by (intro wp_call_logged; (simp add: assms(1,2) m wp_simps unheld_def del: append_Cons)?)+
qed

theorem registers_report_witness:
  "wp (registers_init (recorder (\<lambda>h c. case c of Ioremap a n \<Rightarrow> (int a, []) | Ioread32 a \<Rightarrow> (1700, []) | _ \<Rightarrow> (0, []))))
    ([], ()) (\<lambda>r (h, g'). printed h ! 2 = ''CPU Temperature: 20530 m'' @ [CHR 0xC2, CHR 0xB0] @ ''C'' @ [NL])"
  by (rule wp_mono [OF registers_report [where w = "\<lambda>_. 1700"]])
    (auto simp: temperature_line_def millidegrees_def cdiv_def fmt_d_def fmt_u.simps)

section \<open>Threads\<close>

definition stop_tests :: "mcall history \<Rightarrow> nat" where
  "stop_tests h = length (filter (\<lambda>(c, r). c = Kthread_should_stop) h)"

definition ticks :: "mcall history \<Rightarrow> nat" where
  "ticks h = length (filter (\<lambda>(c, r). c = Printk (''tick'' @ [NL])) h)"

lemma stop_tests_snoc [simp]:
  "stop_tests [] = 0"
  "stop_tests (h @ [(c, r)]) = stop_tests h + (if c = Kthread_should_stop then 1 else 0)"
  by (simp_all add: stop_tests_def)

lemma ticks_snoc [simp]:
  "ticks [] = 0"
  "ticks (h @ [(c, r)]) = ticks h + (if c = Printk (''tick'' @ [NL]) then 1 else 0)"
  by (simp_all add: ticks_def)

lemma wp_call_counted:
  assumes "\<And>a h'. a = fst (e h c) \<Longrightarrow>
    stop_tests h' = stop_tests h + (if c = Kthread_should_stop then 1 else 0) \<Longrightarrow>
    ticks h' = ticks h + (if c = Printk (''tick'' @ [NL]) then 1 else 0) \<Longrightarrow> Q a (h', g)"
  shows "wp (sysi (recorder e) c) (h, g) Q"
  by (rule wp_call, rule assms) simp_all

definition stops_after :: "(mcall history \<Rightarrow> mcall \<Rightarrow> ret) \<Rightarrow> nat \<Rightarrow> bool" where
  "stops_after e k \<longleftrightarrow> (\<forall>h. fst (e h Kthread_should_stop) \<noteq> 0 \<longleftrightarrow> k \<le> stop_tests h)"

lemma wp_tick_loop:
  assumes "stops_after e k"
  shows "stop_tests h \<le> k \<Longrightarrow> k - stop_tests h < fuel \<Longrightarrow>
    (\<And>h'. ticks h' = ticks h + (k - stop_tests h) \<Longrightarrow> stop_tests h' = Suc k \<Longrightarrow> Q (Some 0) (h', g)) \<Longrightarrow>
    wp (tick_loop fuel (recorder e)) (h, g) Q"
proof (induction fuel arbitrary: h)
  case (Suc fuel)
  note finish = Suc.prems(3)
  show ?case
  proof (cases "stop_tests h = k")
    case True
    with assms have "fst (e h Kthread_should_stop) \<noteq> 0" by (simp add: stops_after_def)
    with True show ?thesis
      by (auto simp: wp_simps simp del: recorder_simp intro!: wp_call_counted finish)
  next
    case False
    have IH: "wp (tick_loop fuel (recorder e)) (h', g) Q"
      if "stop_tests h' = stop_tests h + 1" "ticks h' = ticks h + 1" for h'
      using that False Suc.prems by (intro Suc.IH finish) auto
    have "fst (e h Kthread_should_stop) = 0"
      using assms False Suc.prems(1) by (simp add: stops_after_def) (metis le_antisym)
    then show ?thesis
      by (auto simp: wp_simps pr_info_def simp del: recorder_simp intro!: wp_call_counted IH)
  qed
qed simp

text \<open>The thread ends: if the stop request shows at the test after \<open>k\<close> rounds, then the thread
  returns 0 after exactly \<open>k\<close> ticks, and \<open>k + 1\<close> rounds of fuel are enough.\<close>

theorem tick_thread_stops:
  assumes "\<forall>h. fst (e h Kthread_should_stop) \<noteq> 0 \<longleftrightarrow>
      k \<le> length (filter (\<lambda>(c, r). c = Kthread_should_stop) h)"
    and "k < fuel"
  shows "wp (tick_thread fuel (recorder e)) ([], g) (\<lambda>r (h, g').
    r = Some 0 \<and> length (filter (\<lambda>(c, r). c = Printk (''tick'' @ [NL])) h) = k)"
proof -
  have e: "stops_after e k" using assms(1) by (simp add: stops_after_def stop_tests_def)
  show ?thesis
    unfolding tick_thread_def pr_info_def wp_simps using assms(2)
    by (intro wp_call_counted wp_tick_loop [OF e]) (simp_all add: ticks_def)
qed

theorem tick_thread_stops_witness:
  "wp (tick_thread 5 (recorder (\<lambda>h c. (if 3 \<le> length (filter (\<lambda>(c, r). c = Kthread_should_stop) h) then 1 else 0, []))))
     ([], ()) (\<lambda>r (h, g'). r = Some 0 \<and> length (filter (\<lambda>(c, r). c = Printk (''tick'' @ [NL])) h) = 3)"
  by (rule tick_thread_stops) auto

section \<open>Notifications\<close>

text \<open>A step of a thread, or \<open>kthread_stop\<close>, which sets the flag of its thread and wakes it.\<close>

inductive kick_step :: "kick \<Rightarrow> kick \<Rightarrow> bool" where
  "kick_step k (thread_func_1 k)"
| "kick_step k (thread_func_2 k)"
| "kick_step k (k\<lparr>stop_1 := True\<rparr>)"
| "kick_step k (wake_2 (k\<lparr>stop_2 := True\<rparr>))"

inductive_cases kick_stepE: "kick_step k l"

definition kick_start :: kick where
  "kick_start = \<lparr>is_kicked = False, stop_1 = False, stop_2 = False, at_1 = Test_1, at_2 = Test_2,
     notified = 0, received = 0\<rparr>"

definition kick_inv :: "kick \<Rightarrow> bool" where
  "kick_inv k \<longleftrightarrow>
     (at_2 k = Asleep_2 \<longrightarrow> \<not> stop_2 k \<and> (is_kicked k \<longrightarrow> at_1 k = Wake_1)) \<and>
     received k + (if is_kicked k \<and> at_2 k \<noteq> Reset_2 then 1 else 0) + (if at_1 k = Set_1 then 1 else 0) \<le> notified k"

lemma kick_inv_step: "kick_inv k \<Longrightarrow> kick_step k l \<Longrightarrow> kick_inv l"
  by (erule kick_stepE)
    (auto simp: kick_inv_def thread_func_1_def thread_func_2_def wake_2_def
      split: thread_1.splits thread_2.splits if_splits)

interpretation kicks: kept_invariant "\<lambda>k. k = kick_start" kick_step kick_inv
proof
  show "kick_inv k" if "k = kick_start" for k
    using that by (simp add: kick_inv_def kick_start_def)
qed (rule kick_inv_step)

text \<open>C28. The two threads in any interleaving.  At every moment, thread 2 asleep, awake or ended, the
  notifications that it has received, together with one that is pending, are at most those that
  thread 1 has sent; and thread 2 is never left asleep over a notification or a stop request: it sleeps
  with no stop request, and with a pending notification only while thread 1 is about to wake it.\<close>

theorem notification_wakes:
  assumes "kick_step\<^sup>*\<^sup>* kick_start k"
  shows "received k + (if is_kicked k \<and> at_2 k \<noteq> Reset_2 then 1 else 0) \<le> notified k \<and>
    (at_2 k = Asleep_2 \<longrightarrow> \<not> stop_2 k \<and>
      (\<not> is_kicked k \<or> at_1 k = Wake_1 \<and> at_2 (thread_func_1 k) = Check_2))"
  using kicks.reachable_inv [OF refl assms(1)]
  by (auto simp: kick_inv_def thread_func_1_def wake_2_def)

theorem notification_wakes_witness:
  "\<exists>k. kick_step\<^sup>*\<^sup>* kick_start k \<and> at_2 k = Asleep_2 \<and> at_1 k = Wake_1 \<and> \<not> stop_2 k \<and> received k < notified k"
proof -
  let ?k = "thread_func_1 (thread_func_1 (thread_func_1 (thread_func_2 (thread_func_2 kick_start))))"
  note step = rtranclp.rtrancl_into_rtrancl [of kick_step kick_start]
  have "kick_step\<^sup>*\<^sup>* kick_start ?k"
    by (rule step [OF _ kick_step.intros(1)], rule step [OF _ kick_step.intros(1)],
        rule step [OF _ kick_step.intros(1)], rule step [OF _ kick_step.intros(2)],
        rule step [OF _ kick_step.intros(2)], rule rtranclp.rtrancl_refl)
  moreover have "at_2 ?k = Asleep_2" "at_1 ?k = Wake_1" "is_kicked ?k"
    by (simp_all add: kick_start_def thread_func_1_def thread_func_2_def)
  ultimately show ?thesis using notification_wakes [of ?k] by fastforce
qed

section \<open>Resources of the threads and of the buttons\<close>

text \<open>When the second thread cannot be created, the load fails and leaves the first one running.\<close>

theorem failed_thread_leaks_first:
  assumes "\<forall>h. 0 < fst (e h (Kthread_run ''ex7thread_1''))" and "\<forall>h. fst (e h (Kthread_run ''ex7thread_2'')) < 0"
  shows "wp (kick_init (recorder e)) ([], m) (\<lambda>r (h, m'). r = - EFAULT \<and>
    resources h = {#Thread (ex7thread_1 m')#} \<and> 0 < ex7thread_1 m')"
proof -
  have "\<not> fst (e h (Kthread_run ''ex7thread_1'')) < 0" for h
    using assms(1) by (simp add: not_less less_imp_le)
  with assms show ?thesis
    unfolding kick_init_def wp_simps
    by (auto simp: wp_simps intro!: wp_pr_info wp_call_accounted)
qed

theorem failed_thread_leaks_first_witness:
  "wp (kick_init (recorder (\<lambda>h c. (if c = Kthread_run ''ex7thread_2'' then -12 else 7, [])))) ([], m)
    (\<lambda>r (h, m'). r = - EFAULT \<and> resources h = {#Thread (ex7thread_1 m')#} \<and> 0 < ex7thread_1 m')"
  by (rule failed_thread_leaks_first) auto

lemma wp_request_shared:
  assumes "irqs_fixed e irq"
    and "\<And>p h'. p \<in> button_parts irq k sw \<Longrightarrow>
      p = {#} \<or> (\<exists>h. fst (e h (Request_irq_shared (irq k) name (handle_of sw))) = 0) \<Longrightarrow>
      resources h' = resources h + p \<Longrightarrow>
      unheld_releases h' = unheld_releases h \<Longrightarrow> Q () (h', g)"
  shows "wp (request_shared (recorder e) k name sw) (h, g) Q"
  unfolding request_shared_def wp_simps using assms(1)
  by (auto simp: irqs_fixed_def button_parts_def unheld_def wp_simps
      intro!: wp_call_accounted wp_pr_info)
    ((rule assms(2) [of "{#}"]; simp add: button_parts_def; fail) |
     (rule assms(2) [of "{#Pin k, Irq (irq k) (handle_of sw)#}"]; auto simp add: button_parts_def))+

lemma wp_release_shared:
  assumes "irqs_fixed e irq"
    and "\<And>h'. resources h' = resources h - {#Pin k#} - {#Irq (irq k) (handle_of sw)#} \<Longrightarrow>
      unheld_releases h' = unheld_releases h @
        (if Pin k \<in># resources h then [] else [Pin k]) @
        (if Irq (irq k) (handle_of sw) \<in># resources h then [] else [Irq (irq k) (handle_of sw)]) \<Longrightarrow> Q () (h', g)"
  shows "wp (release_shared (recorder e) k sw) (h, g) Q"
  unfolding release_shared_def wp_simps using assms(1)
  by (auto simp: irqs_fixed_def unheld_def in_diff_count wp_simps
      intro!: wp_call_accounted assms(2))

text \<open>A shared interrupt needs a device identifier, and the one of the first button is null: the
  kernel refuses it, so the first button is never served, and the unload frees a line and an interrupt
  that the module does not hold.\<close>

theorem first_button_refused:
  assumes "\<forall>h i s. fst (e h (Request_irq_shared i s 0)) \<noteq> 0" and "\<forall>h k. fst (e h (Pin_to_irq k)) = irq k"
  shows "wp (irq_init (recorder e)) ([], ()) (\<lambda>r (h, u). r = 0 \<and>
    Pin 0 \<notin># resources h \<and> Irq (irq 0) 0 \<notin># resources h \<and>
    wp (irq_exit (recorder e)) (h, u) (\<lambda>_ (h', _).
      resources h' = {#} \<and> {Pin 0, Irq (irq 0) 0} \<subseteq> set (unheld_releases h')))"
proof -
  have fixed: "irqs_fixed e irq" using assms(2) by (simp add: irqs_fixed_def)
  have exit: "wp (irq_exit (recorder e)) (h, ()) (\<lambda>_ (h', _).
      resources h' = {#} \<and> {Pin 0, Irq (irq 0) 0} \<subseteq> set (unheld_releases h'))"
    if "resources h \<subseteq># {#Pin 2, Irq (irq 2) 1, Pin 3, Irq (irq 3) 2#}" for h
  proof -
    have "Pin 0 \<notin># resources h" "Irq (irq 0) 0 \<notin># resources h"
      using mset_subset_eqD [OF that] by fastforce+
    with that show ?thesis
      unfolding irq_exit_def wp_simps
      by (auto simp: pins Diff_eq_empty_iff_mset add_mset_commute
          intro!: wp_release_shared [OF fixed] wp_pr_info)
  qed
  show ?thesis
    unfolding irq_init_def wp_simps using assms(1)
    by (intro wp_request_shared [OF fixed] wp_pr_info)
      (auto simp: pins button_parts_def wp_simps intro!: wp_mono [OF exit])
qed

theorem first_button_refused_witness:
  "wp (irq_init (recorder (\<lambda>h c. case c of Request_irq_shared i s d \<Rightarrow> (if d = 0 then -22 else 0, []) | _ \<Rightarrow> (0, []))))
    ([], ()) (\<lambda>r (h, u). r = 0 \<and> Pin 0 \<notin># resources h)"
  by (rule wp_mono [OF first_button_refused [where irq = "\<lambda>_. 0"]]) auto

end
