(* ===== verification/Course_Files.thy ===== *)
theory Course_Files
  imports Kmodule
begin

text \<open>
  The read and write operations that the course's drivers under \<^verbatim>\<open>teacher_solutions/03_drivers\<close> share.
  There are two variants of the same text: the one of exercises 2, 3 and 5.1 reads the whole buffer
  and moves the position only when it stores something (\<open>course_read\<close>, \<open>course_write\<close>); the one of
  exercises 6, 6.1 and of samples 6.2 and 6.3 reads up to the end of the text in the buffer and moves
  the position first (\<open>misc_read\<close>, \<open>misc_write\<close>).  Log messages are not modelled.
\<close>

abbreviation (input) BUFFER_SZ :: int where "BUFFER_SZ \<equiv> 10000"

section \<open>Memory around a buffer\<close>

text \<open>\<open>size_t\<close> is unsigned and has 64 bits: a comparison of a \<open>size_t\<close> with a \<open>ssize_t\<close> converts the
  latter.\<close>

definition u64_of :: "int \<Rightarrow> int" where
  "u64_of x = x mod 2 ^ 64"

text \<open>A store is the index of its first byte, counted from the start of the buffer, and its bytes; the
  ones that lie outside the buffer hit other memory.\<close>

type_synonym store = "int \<times> string"

fun put_store :: "store \<Rightarrow> string \<Rightarrow> string" where
  "put_store (i, bs) buffer = map (\<lambda>k. let j = int k - i in
     if 0 \<le> j \<and> j < int (length bs) then bs ! nat j else buffer ! k) [0..<length buffer]"

declare put_store.simps [simp del]

fun inside :: "int \<Rightarrow> store \<Rightarrow> bool" where
  "inside n (i, bs) \<longleftrightarrow> bs = [] \<or> 0 \<le> i \<and> i + int (length bs) \<le> n"

definition put_stores :: "store list \<Rightarrow> string \<Rightarrow> string" where
  "put_stores sts buffer = fold put_store sts buffer"

text \<open>What lies at an index, \<open>None\<close> when it is not all in the buffer.\<close>

definition view :: "string \<Rightarrow> int \<Rightarrow> int \<Rightarrow> string option" where
  "view buffer i n =
     (if 0 \<le> i \<and> i + n \<le> int (length buffer) then Some (take (nat n) (drop (nat i) buffer)) else None)"

lemma length_put_store [simp]: "length (put_store st buffer) = length buffer"
  by (cases st) (simp add: put_store.simps)

lemma nth_put_store:
  "k < length buffer \<Longrightarrow> put_store (i, bs) buffer ! k =
    (if i \<le> int k \<and> int k < i + int (length bs) then bs ! nat (int k - i) else buffer ! k)"
  by (auto simp: put_store.simps Let_def)

lemma put_store_Nil [simp]: "put_store (i, []) buffer = buffer"
  by (rule nth_equalityI) (auto simp: nth_put_store)

lemma length_put_stores [simp]: "length (put_stores sts buffer) = length buffer"
  by (induction sts arbitrary: buffer) (simp_all add: put_stores_def)

lemma put_stores_two: "put_stores [a, b] buffer = put_store b (put_store a buffer)"
  by (simp add: put_stores_def)

lemma put_stores_simps [simp]: "put_stores [] buffer = buffer" "put_stores [a] buffer = put_store a buffer"
  by (simp_all add: put_stores_def)

lemma put_store_one: "put_store (int i, [c]) buffer = buffer[i := c]"
  by (rule nth_equalityI) (auto simp: nth_put_store nth_list_update)

lemma put_store_inside:
  assumes "i + length bs \<le> length buffer"
  shows "put_store (int i, bs) buffer = take i buffer @ bs @ drop (i + length bs) buffer"
proof (rule nth_equalityI)
  fix k assume "k < length (put_store (int i, bs) buffer)"
  then have "k < length buffer" by simp
  then show "put_store (int i, bs) buffer ! k = (take i buffer @ bs @ drop (i + length bs) buffer) ! k"
    using assms by (auto simp: nth_put_store nth_append nat_diff_distrib)
qed (use assms in simp)

lemma put_store_outside:
  assumes "int (length buffer) \<le> i \<or> i + int (length bs) \<le> 0"
  shows "put_store (i, bs) buffer = buffer"
  using assms by (intro nth_equalityI) (auto simp: nth_put_store)

section \<open>Operations\<close>

text \<open>\<open>fault n\<close> is what \<open>copy_to_user\<close> returns for \<open>n\<close> bytes.  The result is the return value, the bytes
  that were to be copied (\<open>None\<close>: some of them lie outside the buffer) and the new position.\<close>

definition course_read ::
    "(int \<Rightarrow> int) \<Rightarrow> string \<Rightarrow> int \<Rightarrow> int \<Rightarrow> int \<times> string option \<times> int" where
  "course_read fault buffer sz off =
     (let remaining = BUFFER_SZ - off;
          sz = (if sz > u64_of remaining then u64_of remaining else sz);
          bytes = view buffer off sz;
          off = s64 (off + sz)
      in if fault sz \<noteq> 0 then (- EFAULT, bytes, off) else (s64 sz, bytes, off))"

text \<open>\<open>copy n\<close> is what \<open>copy_from_user\<close> does for \<open>n\<close> bytes: how many it could not copy, and the bytes it
  has stored.\<close>

record course_write_result =
  cw_ret :: int
  cw_off :: int
  cw_stores :: "store list"

definition course_write ::
    "(int \<Rightarrow> int \<times> string) \<Rightarrow> int \<Rightarrow> int \<Rightarrow> course_write_result" where
  "course_write copy sz off =
     (let remaining = BUFFER_SZ - off;
          sz = (if sz \<ge> u64_of remaining then u64_of (- EIO) else sz)
      in if sz > 0 then
           let off' = s64 (off + sz);
               (left, bytes) = copy sz
           in \<lparr>cw_ret = (if left \<noteq> 0 then - EFAULT else s64 sz), cw_off = off',
               cw_stores = [(off', [NUL]), (off, bytes)]\<rparr>
         else \<lparr>cw_ret = s64 sz, cw_off = off, cw_stores = []\<rparr>)"

definition misc_read ::
    "(int \<Rightarrow> int) \<Rightarrow> string \<Rightarrow> int \<Rightarrow> int \<Rightarrow> (int \<times> string option \<times> int) option" where
  "misc_read fault buffer sz off =
     map_option (\<lambda>len.
       let remaining = int len - off;
           sz = (if sz > u64_of remaining then u64_of remaining else sz);
           bytes = view buffer off sz;
           off = s64 (off + sz)
       in if fault sz \<noteq> 0 then (- EFAULT, bytes, off) else (s64 sz, bytes, off)) (strlen buffer)"

definition misc_write ::
    "(int \<Rightarrow> int \<times> string) \<Rightarrow> int \<Rightarrow> int \<Rightarrow> course_write_result" where
  "misc_write copy sz off =
     (let remaining = BUFFER_SZ - off;
          off' = s64 (off + sz);
          sz = (if sz \<ge> u64_of remaining then u64_of (- EIO) else sz)
      in if sz > 0 then
           let (left, bytes) = copy sz
           in \<lparr>cw_ret = (if left \<noteq> 0 then - EFAULT else s64 sz), cw_off = off',
               cw_stores = [(s64 (off + sz), [NUL]), (off, bytes)]\<rparr>
         else \<lparr>cw_ret = s64 sz, cw_off = off', cw_stores = []\<rparr>)"

section \<open>What a write stores\<close>

text \<open>
  \<open>copy_from_user\<close> refuses more than \<open>INT_MAX\<close> bytes without touching the destination, and stores
  every byte of a smaller request (zeroes for those that it could not read).
\<close>

definition user_copy :: "(int \<Rightarrow> int \<times> string) \<Rightarrow> bool" where
  "user_copy copy \<longleftrightarrow>
     (\<forall>n. 0 \<le> fst (copy n) \<and>
       (if n > 2147483647 then copy n = (n, [])
        else 0 \<le> n \<longrightarrow> length (snd (copy n)) = nat n))"

text \<open>What the kernel passes: a position of a file and a count of at most \<open>INT_MAX\<close>.\<close>

definition user_range :: "int \<Rightarrow> int \<Rightarrow> bool" where
  "user_range sz off \<longleftrightarrow> 0 \<le> sz \<and> sz \<le> 2147483647 \<and> 0 \<le> off \<and> off < 2 ^ 62"

lemma s64_id: "- (2 ^ 63) \<le> x \<Longrightarrow> x < 2 ^ 63 \<Longrightarrow> s64 x = x"
  by (simp add: s64_def signed_take_bit_int_eq_self)

lemma u64_of_id: "0 \<le> x \<Longrightarrow> x < 2 ^ 64 \<Longrightarrow> u64_of x = x"
  by (simp add: u64_of_def)

lemma u64_of_negative: "- (2 ^ 63) \<le> x \<Longrightarrow> x < 0 \<Longrightarrow> u64_of x = x + 2 ^ 64"
proof -
  assume "- (2 ^ 63) \<le> x" "x < 0"
  then have "(x + 2 ^ 64) mod 2 ^ 64 = x + 2 ^ 64" by (intro mod_pos_pos_trivial) auto
  then show ?thesis by (simp add: u64_of_def)
qed

lemma u64_of_EIO [simp]: "u64_of (- 5) = 18446744073709551611"
  by (simp add: u64_of_def)

lemma s64_minus_EIO: "0 \<le> off \<Longrightarrow> off < 2 ^ 62 \<Longrightarrow> s64 (off + 18446744073709551611) = off - 5"
proof -
  assume "0 \<le> off" "off < 2 ^ 62"
  then have "s64 (off - 5) = off - 5" by (intro s64_id) auto
  moreover have "s64 (off + 18446744073709551611) = s64 ((off + 18446744073709551611) mod 2 ^ 64)"
    by (simp add: s64_def signed_take_bit_eq_take_bit_shift take_bit_eq_mod mod_simps)
  moreover have "s64 (off - 5) = s64 ((off - 5) mod 2 ^ 64)"
    by (simp add: s64_def signed_take_bit_eq_take_bit_shift take_bit_eq_mod mod_simps)
  moreover have "(off + 18446744073709551611) mod 2 ^ 64 = (off - 5) mod (2 ^ 64 :: int)"
    using mod_add_self2 [of "off - 5" "2 ^ 64 :: int"] by (simp add: add.commute)
  ultimately show ?thesis by simp
qed

text \<open>A request is too large for the code when it reaches the end of the buffer, but not when it
  starts past it: the remaining space is then negative, and huge once converted.\<close>

definition too_large :: "int \<Rightarrow> int \<Rightarrow> bool" where
  "too_large sz off \<longleftrightarrow> off \<le> 10000 \<and> 10000 \<le> off + sz"

lemma too_large_iff: "user_range sz off \<Longrightarrow> u64_of (10000 - off) \<le> sz \<longleftrightarrow> too_large sz off"
  by (cases "off \<le> 10000") (auto simp: user_range_def too_large_def u64_of_id u64_of_negative)

lemma write_refused:
  assumes "user_range sz off" and "user_copy copy" and "too_large sz off"
  shows "misc_write copy sz off =
      \<lparr>cw_ret = - EFAULT, cw_off = off + sz, cw_stores = [(off - 5, [NUL]), (off, [])]\<rparr>"
    and "course_write copy sz off =
      \<lparr>cw_ret = - EFAULT, cw_off = off - 5, cw_stores = [(off - 5, [NUL]), (off, [])]\<rparr>"
proof -
  have "copy 18446744073709551611 = (18446744073709551611, [])"
    using assms(2) by (simp add: user_copy_def)
  moreover have "s64 (off + sz) = off + sz" using assms(1) by (auto simp: user_range_def intro!: s64_id)
  moreover have "0 \<le> off" "off \<le> 10000" using assms(1,3) by (auto simp: user_range_def too_large_def)
  ultimately show "misc_write copy sz off =
      \<lparr>cw_ret = - EFAULT, cw_off = off + sz, cw_stores = [(off - 5, [NUL]), (off, [])]\<rparr>"
    "course_write copy sz off =
      \<lparr>cw_ret = - EFAULT, cw_off = off - 5, cw_stores = [(off - 5, [NUL]), (off, [])]\<rparr>"
    using too_large_iff [OF assms(1)] assms(3)
    by (simp_all add: misc_write_def course_write_def Let_def s64_minus_EIO)
qed

lemma write_done:
  assumes "user_range sz off" and "\<not> too_large sz off"
  shows "misc_write copy sz off =
      \<lparr>cw_ret = (if sz > 0 \<and> fst (copy sz) \<noteq> 0 then - EFAULT else sz), cw_off = off + sz,
       cw_stores = (if sz > 0 then [(off + sz, [NUL]), (off, snd (copy sz))] else [])\<rparr>"
    and "course_write copy sz off =
      \<lparr>cw_ret = (if sz > 0 \<and> fst (copy sz) \<noteq> 0 then - EFAULT else sz), cw_off = off + sz,
       cw_stores = (if sz > 0 then [(off + sz, [NUL]), (off, snd (copy sz))] else [])\<rparr>"
proof -
  have "s64 (off + sz) = off + sz" "s64 sz = sz" "0 \<le> sz"
    using assms(1) by (auto simp: user_range_def intro!: s64_id)
  then show "misc_write copy sz off =
      \<lparr>cw_ret = (if sz > 0 \<and> fst (copy sz) \<noteq> 0 then - EFAULT else sz), cw_off = off + sz,
       cw_stores = (if sz > 0 then [(off + sz, [NUL]), (off, snd (copy sz))] else [])\<rparr>"
    "course_write copy sz off =
      \<lparr>cw_ret = (if sz > 0 \<and> fst (copy sz) \<noteq> 0 then - EFAULT else sz), cw_off = off + sz,
       cw_stores = (if sz > 0 then [(off + sz, [NUL]), (off, snd (copy sz))] else [])\<rparr>"
    using too_large_iff [OF assms(1)] assms(2)
    by (auto simp: misc_write_def course_write_def Let_def split: prod.splits)
qed

lemmas write_results = write_refused write_done

lemma too_large_bounds: "user_range sz off \<Longrightarrow> too_large sz off \<Longrightarrow> 0 \<le> off \<and> off \<le> 10000"
  by (simp add: user_range_def too_large_def)

lemma user_copy_length: "user_copy copy \<Longrightarrow> user_range sz off \<Longrightarrow> length (snd (copy sz)) = nat sz"
  by (simp add: user_copy_def user_range_def)

text \<open>C25. The exact set of requests whose stores stay in the buffer.  Below the end of the buffer, the
  ones that fit, and those that do not fit but start at least five bytes from the start: the others
  clear a byte before the buffer.  Past the end of the buffer (\<open>pwrite\<close> lets the user choose the
  position) no request is refused, and all but the empty one write the user's bytes over other memory.\<close>

theorem write_stays_inside:
  assumes "user_range sz off" and "user_copy copy"
  shows "list_all (inside 10000) (cw_stores (misc_write copy sz off)) \<longleftrightarrow>
    (if off > 10000 then sz = 0 else off + sz < 10000 \<or> 5 \<le> off)"
proof (cases "too_large sz off")
  case True
  then show ?thesis
    using assms too_large_bounds [of sz off] by (auto simp: write_results too_large_def)
next
  case False
  then show ?thesis
    using assms user_copy_length [OF assms(2,1)]
    by (auto simp: write_done user_range_def too_large_def)
qed

theorem write_stays_inside_witness:
  "\<not> list_all (inside 10000) (cw_stores (misc_write (\<lambda>n. if n > 2147483647 then (n, []) else (0, replicate (nat n) CHR ''x'')) 4 20000))"
  by (subst write_stays_inside) (auto simp: user_range_def user_copy_def)

section \<open>The text stays terminated\<close>

definition text_buffer :: "string \<Rightarrow> bool" where
  "text_buffer b \<longleftrightarrow> length b = 10000 \<and> NUL \<in> set b"

text \<open>A write by some user of the device: any position, any count, any fault.\<close>

inductive user_write :: "string \<Rightarrow> string \<Rightarrow> bool" where
  "user_range sz off \<Longrightarrow> user_copy copy \<Longrightarrow>
     user_write b (put_stores (cw_stores (misc_write copy sz off)) b)"

inductive_cases user_writeE: "user_write b b'"

lemma NUL_stored:
  assumes "0 \<le> i" and "i < int (length b)" and "bs = [] \<or> j + int (length bs) \<le> i"
  shows "NUL \<in> set (put_store (j, bs) (put_store (i, [NUL]) b))"
proof -
  let ?b = "put_store (j, bs) (put_store (i, [NUL]) b)"
  have "?b ! nat i = NUL" using assms by (auto simp: nth_put_store)
  moreover have "nat i < length ?b" using assms by simp
  ultimately show ?thesis by (metis nth_mem)
qed

lemma text_buffer_write: "text_buffer b \<Longrightarrow> user_write b b' \<Longrightarrow> text_buffer b'"
proof (erule user_writeE)
  fix sz off copy
  assume b: "text_buffer b" and r: "user_range sz off" "user_copy copy"
    and b': "b' = put_stores (cw_stores (misc_write copy sz off)) b"
  note len = user_copy_length [OF r(2,1)]
  show "text_buffer b'"
  proof (cases "too_large sz off")
    case True
    then have "put_store (off, []) (put_store (off - 5, [NUL]) b) = b'"
      using r by (simp add: b' write_results put_stores_two)
    then show ?thesis
      using b NUL_stored [of "off - 5" b "[]" off] too_large_bounds [OF r(1) True]
      by (cases "off < 5") (auto simp: text_buffer_def put_store_outside)
  next
    case False
    have "sz = 0 \<or> 0 < sz \<and> off + sz < 10000 \<or> 0 < sz \<and> 10000 < off"
      using False r(1) by (auto simp: too_large_def user_range_def)
    then consider "sz = 0" | "0 < sz" "off + sz < 10000" | "0 < sz" "10000 < off" by blast
    then show ?thesis
    proof cases
      case 1
      then show ?thesis using b r False by (simp add: b' write_done)
    next
      case 2
      then have "NUL \<in> set (put_store (off, snd (copy sz)) (put_store (off + sz, [NUL]) b))"
        using b r(1) by (intro NUL_stored) (auto simp: text_buffer_def user_range_def len)
      then show ?thesis
        using 2 b r False by (simp add: b' write_done text_buffer_def put_stores_two)
    next
      case 3
      then show ?thesis
        using b r False by (simp add: b' write_done text_buffer_def put_stores_two put_store_outside)
    qed
  qed
qed

definition fresh_buffer :: string where
  "fresh_buffer = replicate 10000 NUL"

interpretation writes: kept_invariant "\<lambda>b. b = fresh_buffer" user_write text_buffer
proof
  show "text_buffer b" if "b = fresh_buffer" for b
    using that by (simp add: text_buffer_def fresh_buffer_def)
qed (rule text_buffer_write)

text \<open>C13. Whatever the users write, wherever and with whatever faults, the buffer keeps its size and its
  terminator, so that \<open>strlen\<close> never leaves it and every read has an answer.\<close>

theorem buffer_well_formed:
  assumes "user_write\<^sup>*\<^sup>* fresh_buffer b"
  shows "text_buffer b \<and> misc_read fault b sz off \<noteq> None"
  using writes.reachable_inv [OF refl assms] by (auto simp: text_buffer_def misc_read_def strlen_def)

theorem buffer_well_formed_witness:
  "text_buffer (put_stores (cw_stores (misc_write (\<lambda>n. if n > 2147483647 then (n, []) else (1, replicate (nat n) CHR ''x'')) 4 7)) fresh_buffer)"
proof -
  let ?copy = "\<lambda>n. if n > 2147483647 then (n, []) else (1, replicate (nat n) CHR ''x'')"
  have "user_write fresh_buffer (put_stores (cw_stores (misc_write ?copy 4 7)) fresh_buffer)"
    by (rule user_write.intros) (auto simp: user_range_def user_copy_def)
  then show ?thesis
    using buffer_well_formed [OF r_into_rtranclp] by blast
qed

section \<open>Reading\<close>

lemma text_length: "text_buffer b \<Longrightarrow> length (c_str b) \<le> 10000"
  using length_takeWhile_le [of "\<lambda>c. c \<noteq> NUL" b] by (simp add: c_str_def text_buffer_def)

lemma misc_read_within:
  assumes "text_buffer b" and "0 \<le> sz" and "0 \<le> off" and "off \<le> int (length (c_str b))"
  shows "misc_read (\<lambda>_. 0) b sz off =
    (let n = min sz (int (length (c_str b)) - off) in Some (n, view b off n, off + n))"
proof -
  have "u64_of (int (length (c_str b)) - off) = int (length (c_str b)) - off"
    using assms(3,4) text_length [OF assms(1)] by (intro u64_of_id) auto
  then show ?thesis
    using assms text_length [OF assms(1)] by (auto simp: misc_read_def strlen_def text_buffer_def Let_def s64_id)
qed

text \<open>A read past the end of the text is not empty: it returns as many bytes as were asked for, from
  that place on, be they the rest of an older text or, past the end of the buffer, other memory.\<close>

theorem read_past_the_text:
  assumes "text_buffer b" and "int (length (c_str b)) < off" and "off < 2 ^ 62" and "0 \<le> sz" and "sz < 2 ^ 62"
  shows "misc_read (\<lambda>_. 0) b sz off = Some (sz, view b off sz, off + sz) \<and>
    (view b off sz = None \<longleftrightarrow> 10000 < off + sz)"
proof -
  have "u64_of (int (length (c_str b)) - off) = int (length (c_str b)) - off + 2 ^ 64"
    using assms(2,3) by (intro u64_of_negative) auto
  then show ?thesis
    using assms by (auto simp: misc_read_def strlen_def text_buffer_def Let_def s64_id view_def)
qed

theorem read_past_the_text_witness:
  "misc_read (\<lambda>_. 0) fresh_buffer 64 9990 = Some (64, None, 10054)"
  using read_past_the_text [of fresh_buffer 9990 64]
  by (simp add: text_buffer_def fresh_buffer_def view_def c_str_def)

text \<open>The operations as a program uses them, with positions that are natural numbers.\<close>

definition misc_rd :: "string \<Rightarrow> nat \<Rightarrow> nat \<Rightarrow> int \<times> string \<times> nat" where
  "misc_rd b chunk off =
     (case misc_read (\<lambda>_. 0) b (int chunk) (int off) of
        Some (n, Some bytes, off') \<Rightarrow> (n, bytes, nat off')
      | _ \<Rightarrow> (- EFAULT, [], off))"

primrec write_texts :: "string list \<Rightarrow> nat \<Rightarrow> string \<Rightarrow> string" where
  "write_texts [] off b = b"
| "write_texts (t # ts) off b =
     (let r = misc_write (\<lambda>n. if n > 2147483647 then (n, []) else (0, t)) (int (length t)) (int off)
      in write_texts ts (nat (cw_off r)) (put_stores (cw_stores r) b))"

interpretation misc_texts: text_stream misc_rd c_str text_buffer
proof
  fix b :: string and off chunk :: nat
  assume b: "text_buffer b" "off \<le> length (c_str b)"
  define n where "n = min chunk (length (c_str b) - off)"
  have n: "min (int chunk) (int (length (c_str b)) - int off) = int n"
    using b(2) by (simp add: n_def)
  have "off + n \<le> length (c_str b)" using b(2) by (simp add: n_def)
  moreover have "take n (drop off b) = take n (drop off (c_str b))"
    using calculation takeWhile_eq_take [of "\<lambda>c. c \<noteq> NUL" b]
    by (metis c_str_def add.commute le_add_diff_inverse2 min.absorb1 take_drop take_take)
  ultimately have "view b (int off) (int n) = Some (take n (drop off (c_str b)))"
    using text_length [OF b(1)] b(1) by (simp add: view_def text_buffer_def)
  then show "misc_rd b chunk off = (let n = min chunk (length (c_str b) - off) in
      (int n, take n (drop off (c_str b)), off + n))"
    using misc_read_within [OF b(1), of "int chunk" "int off"] b(2)
    by (simp add: misc_rd_def n n_def [symmetric] Let_def)
qed

lemma write_one_text:
  assumes "t \<noteq> []" and "k + length t < 10000" and "length b = 10000"
    and "r = misc_write (\<lambda>n. if n > 2147483647 then (n, []) else (0, t)) (int (length t)) (int k)"
  shows "nat (cw_off r) = k + length t"
    and "put_stores (cw_stores r) b = take k b @ t @ NUL # drop (Suc (k + length t)) b"
proof -
  have "user_range (int (length t)) (int k)" "\<not> too_large (int (length t)) (int k)"
    using assms(2) by (simp_all add: user_range_def too_large_def)
  then have r: "cw_off r = int (k + length t)"
      "cw_stores r = [(int (k + length t), [NUL]), (int k, t)]"
    using assms(1,2,4) by (simp_all add: write_done)
  from r(1) show "nat (cw_off r) = k + length t" by simp
  show "put_stores (cw_stores r) b = take k b @ t @ NUL # drop (Suc (k + length t)) b"
    using assms(2,3) unfolding r(2) put_stores_two put_store_one
    by (simp add: put_store_inside drop_update_swap Cons_nth_drop_Suc [symmetric])
qed

lemma write_texts_eq:
  "length b = 10000 \<Longrightarrow> k + length (concat ts) < 10000 \<Longrightarrow> write_texts ts k b =
    (if concat ts = [] then b else take k b @ concat ts @ NUL # drop (Suc (k + length (concat ts))) b)"
proof (induction ts arbitrary: k b)
  case (Cons t ts)
  show ?case
  proof (cases "t = []")
    case True
    have "user_range 0 (int k)" "\<not> too_large 0 (int k)"
      using Cons.prems(2) by (simp_all add: user_range_def too_large_def)
    with True show ?thesis using Cons by (simp add: write_done Let_def)
  next
    case False
    note one = write_one_text [OF False _ Cons.prems(1) refl, of k]
    define b' where "b' = take k b @ t @ NUL # drop (Suc (k + length t)) b"
    have k: "k + length t < 10000" using Cons.prems(2) by simp
    have b': "length b' = 10000" "take (k + length t) b' = take k b @ t"
      "\<And>n. drop (Suc (k + length t + n)) b' = drop (Suc (k + length t + n)) b"
      using k Cons.prems(1) by (simp_all add: b'_def Suc_diff_le add.commute add.left_commute)
    have step: "write_texts (t # ts) k b = write_texts ts (k + length t) b'"
      using one [OF k] by (simp add: Let_def b'_def)
    have *: "write_texts (t # ts) k b = (if concat ts = [] then b'
        else take k b @ t @ concat ts @ NUL # drop (Suc (k + length t + length (concat ts))) b)"
      using Cons.prems Cons.IH [OF b'(1), of "k + length t"] b'(3) [of "length (concat ts)"]
      unfolding step by (simp add: b'(2) add.assoc)
    show ?thesis
    proof (cases "concat ts = []")
      case True
      then have "concat (t # ts) = t" by simp
      with True False show ?thesis unfolding * b'_def by (simp del: concat_eq_Nil_conv)
    next
      case ne: False
      with False show ?thesis unfolding * by (simp del: concat_eq_Nil_conv add: add.assoc)
    qed
  qed
qed simp

lemma c_str_append_NUL: "c_str (xs @ NUL # ys) = takeWhile (\<lambda>c. c \<noteq> NUL) xs"
  by (induction xs) (simp_all add: c_str_def)

text \<open>C27. Round trip: what a program writes in any pieces into the fresh buffer, if it fits, is read back
  up to its first NUL byte, so whole when it has none, in chunks of any size, and the reading ends.\<close>

theorem texts_read_back:
  assumes "length (concat ts) < 10000" and "0 < chunk" and "length (concat ts) < fuel"
  shows "read_to_end fuel (misc_rd (write_texts ts 0 fresh_buffer)) chunk 0 =
    Some (takeWhile (\<lambda>c. c \<noteq> NUL) (concat ts))"
proof -
  define b where "b = write_texts ts 0 fresh_buffer"
  have eq: "b = (if concat ts = [] then fresh_buffer
      else concat ts @ NUL # drop (Suc (length (concat ts))) fresh_buffer)"
    using write_texts_eq [of fresh_buffer 0 ts] assms(1) by (simp add: b_def fresh_buffer_def)
  have "text_buffer b \<and> c_str b = takeWhile (\<lambda>c. c \<noteq> NUL) (concat ts)"
  proof (cases "concat ts = []")
    case False
    then have b: "b = concat ts @ NUL # drop (Suc (length (concat ts))) fresh_buffer"
      using eq by (simp only: if_False)
    have "length b = 10000" using assms(1) unfolding b fresh_buffer_def by (simp del: length_concat)
    then show ?thesis unfolding text_buffer_def by (simp only: b c_str_append_NUL) simp
  qed (simp only: eq text_buffer_def fresh_buffer_def c_str_def, simp)
  moreover have "length (takeWhile (\<lambda>c. c \<noteq> NUL) (concat ts)) < fuel"
    using length_takeWhile_le assms(3) by (rule le_less_trans)
  ultimately show ?thesis
    using misc_texts.read_rest [of b chunk 0 fuel] assms(2) by (simp add: b_def)
qed

theorem texts_read_back_witness:
  "read_to_end 10 (misc_rd (write_texts [''ab'', '''', ''cde'', [NUL], ''f''] 0 fresh_buffer)) 2 0 = Some ''abcde''"
  using texts_read_back [of "[''ab'', '''', ''cde'', [NUL], ''f'']" 2 10] by simp

end
