(* ===== verification/Course_Drivers.thy ===== *)
theory Course_Drivers
  imports Chardev_Sysfs Course_Files
begin

text \<open>
  Two reference drivers of the course: \<^verbatim>\<open>teacher_solutions/03_drivers/exercice03/skeleton.c\<close>, with a
  buffer for each instance, and \<^verbatim>\<open>exercice05.1/skeleton.c\<close> as built with \<open>CLASS\<close>, with one buffer and
  two sysfs attributes.  Their read and write operations, which are the same text, are \<open>course_read\<close>
  and \<open>course_write\<close> of \<open>Course_Files\<close>.  Log messages are not modelled.
\<close>

section \<open>Exercise 3: instances\<close>

text \<open>The table of buffers; a null entry is an allocation that failed, which the code does not test.\<close>

record instances_module =
  instances :: int
  table :: int
  inst_buffers :: "int list"
  inst_dev :: nat

definition course_open :: "instances_module \<Rightarrow> nat \<Rightarrow> int \<times> int option" where
  "course_open m iminor =
     (if int iminor \<ge> instances m then (- EFAULT, None) else (0, Some (inst_buffers m ! iminor)))"

definition course_release :: "instances_module \<Rightarrow> int" where
  "course_release m = 0"

primrec alloc_instances :: "nat \<Rightarrow> ('w, mcall) os \<Rightarrow> ('w, instances_module, unit) prog" where
  "alloc_instances 0 os = return ()"
| "alloc_instances (Suc n) os = do {
     p \<leftarrow> sysi os (Kmalloc 10000);
     modg (\<lambda>m. m\<lparr>inst_buffers := inst_buffers m @ [p]\<rparr>);
     alloc_instances n os }"

text \<open>\<open>None\<close>: the table could not be allocated and the store into it faults.\<close>

definition course_init :: "('w, mcall) os \<Rightarrow> ('w, instances_module, int option) prog" where
  "course_init os = do {
     m \<leftarrow> getg;
     if instances m \<le> 0 then return (Some (- EFAULT))
     else do {
     let n = nat (instances m);
     r \<leftarrow> sys os (Alloc_chrdev_region ''mymodule'' 0 n);
     modg (\<lambda>m. m\<lparr>inst_dev := stored_number r\<rparr>);
     status \<leftarrow> (if fst r = 0 then do {
         m \<leftarrow> getg;
         exec os (Cdev_init 0);
         sysi os (Cdev_add 0 (inst_dev m)) }
       else return (fst r));
     if status = 0 then do {
       p \<leftarrow> sysi os (Kmalloc (8 * n));
       modg (\<lambda>m. m\<lparr>table := p, inst_buffers := []\<rparr>);
       if p = 0 then return None
       else do {
         alloc_instances n os;
         return (Some 0) } }
     else return (Some status) }}"

definition course_exit :: "('w, mcall) os \<Rightarrow> ('w, instances_module, unit) prog" where
  "course_exit os = do {
     m \<leftarrow> getg;
     exec os (Cdev_del 0);
     exec os (Unregister_chrdev_region (inst_dev m) (nat (instances m)));
     for_each (inst_buffers m) (kfree os);
     kfree os (table m) }"

section \<open>Exercise 5.1: one buffer and a class\<close>

record class_module =
  cl_config :: skeleton_config
  cl_val :: int
  s_buffer :: string
  skeleton_dev :: nat
  sysfs_class :: int
  cl_device :: int

definition course_show_val :: "class_module \<Rightarrow> string" where
  "course_show_val m = fmt_d (cl_val m) @ [NL]"

definition course_store_val :: "string \<Rightarrow> class_module \<Rightarrow> int \<times> class_module" where
  "course_store_val buf m = (int (length buf), m\<lparr>cl_val := s32 (simple_strtol (c_str buf))\<rparr>)"

definition course_show_cfg :: "class_module \<Rightarrow> string" where
  "course_show_cfg m =
     fmt_d (cfg_id (cl_config m)) @ '' '' @ fmt_d (cfg_ref (cl_config m)) @ '' '' @
     cfg_name (cl_config m) @ '' '' @ cfg_descr (cl_config m) @ [NL]"

definition course_store_cfg :: "string \<Rightarrow> class_module \<Rightarrow> (int \<times> class_module) option" where
  "course_store_cfg buf m =
     map_option (\<lambda>c. (int (length buf), m\<lparr>cl_config := c\<rparr>)) (scan_config (c_str buf) (cl_config m))"

definition single_open :: "class_module \<Rightarrow> int" where
  "single_open m = 0"

definition single_release :: "class_module \<Rightarrow> int" where
  "single_release m = 0"

definition single_read :: "(int \<Rightarrow> int) \<Rightarrow> class_module \<Rightarrow> int \<Rightarrow> int \<Rightarrow> int \<times> string option \<times> int" where
  "single_read fault m sz off = course_read fault (s_buffer m) sz off"

definition single_write ::
    "(int \<Rightarrow> int \<times> string) \<Rightarrow> class_module \<Rightarrow> int \<Rightarrow> int \<Rightarrow> course_write_result \<times> class_module" where
  "single_write copy m sz off =
     (let r = course_write copy sz off in (r, m\<lparr>s_buffer := put_stores (cw_stores r) (s_buffer m)\<rparr>))"

definition class_init :: "('w, mcall) os \<Rightarrow> ('w, class_module, int) prog" where
  "class_init os = do {
     r \<leftarrow> sys os (Alloc_chrdev_region ''mymodule'' 0 1);
     modg (\<lambda>m. m\<lparr>skeleton_dev := stored_number r\<rparr>);
     m \<leftarrow> getg;
     status \<leftarrow> (if fst r = 0 then do {
         exec os (Cdev_init 0);
         sysi os (Cdev_add 0 (skeleton_dev m)) }
       else return (fst r));
     c \<leftarrow> sysi os (Class_create ''my_sysfs_class'');
     modg (\<lambda>m. m\<lparr>sysfs_class := c\<rparr>);
     d \<leftarrow> sysi os (Device_create c (skeleton_dev m) ''my_sysfs_device'');
     modg (\<lambda>m. m\<lparr>cl_device := d\<rparr>);
     status \<leftarrow> (if status = 0 then sysi os (Device_create_file ''val'') else return status);
     (if status = 0 then exec os (Device_create_file ''cfg'') else return ());
     return 0 }"

definition class_exit :: "('w, mcall) os \<Rightarrow> ('w, class_module, unit) prog" where
  "class_exit os = do {
     m \<leftarrow> getg;
     exec os (Device_remove_file ''val'');
     exec os (Device_remove_file ''cfg'');
     exec os (Device_destroy (sysfs_class m) 0);
     exec os (Class_destroy (sysfs_class m));
     exec os (Cdev_del 0);
     exec os (Unregister_chrdev_region (skeleton_dev m) 1) }"

section \<open>Properties\<close>

text \<open>A write that does not fit is not refused: the error code is stored in an unsigned count, which
  is then positive.  The position moves five bytes back, a zero is stored five bytes before the
  position (before the buffer when the position is below 5), and the caller is told of a bad address
  instead of a full device.\<close>

theorem oversized_write_underruns:
  assumes "length buffer = 10000" and "0 \<le> off" and "off \<le> 10000" and "10000 - off \<le> sz" and "sz \<le> 2147483647"
    and "user_copy copy"
  shows "let r = course_write copy sz off in
    cw_ret r = - EFAULT \<and> cw_off r = off - 5 \<and>
    put_stores (cw_stores r) buffer = (if off < 5 then buffer else buffer[nat (off - 5) := NUL]) \<and>
    (list_all (inside 10000) (cw_stores r) \<longleftrightarrow> 5 \<le> off)"
proof -
  have "user_range sz off" "too_large sz off" using assms by (auto simp: user_range_def too_large_def)
  note r = write_refused(2) [OF this(1) assms(6) this(2)]
  have "put_store (off - 5, [NUL]) buffer = (if off < 5 then buffer else buffer[nat (off - 5) := NUL])"
    using put_store_one [of "nat (off - 5)" NUL buffer] by (auto simp: put_store_outside)
  then show ?thesis using assms by (simp add: r put_stores_two)
qed

theorem oversized_write_underruns_witness:
  "cw_off (course_write (\<lambda>n. if n > 2147483647 then (n, []) else (0, replicate (nat n) CHR ''a'')) 5000 6000) = 5995"
  using oversized_write_underruns [of "replicate 10000 CHR ''a''" 6000 5000
      "\<lambda>n. if n > 2147483647 then (n, []) else (0, replicate (nat n) CHR ''a'')"]
  by (simp add: user_copy_def Let_def)

text \<open>A text that fits is read back from where it was written, and is terminated there.\<close>

lemma course_round_trip:
  assumes "length buffer = 10000" and "0 \<le> off" and "buf \<noteq> []" and "off + int (length buf) < 10000"
    and "copy (int (length buf)) = (0, buf)"
  shows "let r = course_write copy (int (length buf)) off; b = put_stores (cw_stores r) buffer in
    cw_ret r = int (length buf) \<and> cw_off r = off + int (length buf) \<and>
    list_all (inside 10000) (cw_stores r) \<and> b ! nat (cw_off r) = NUL \<and>
    course_read (\<lambda>_. 0) b (int (length buf)) off = (int (length buf), Some buf, cw_off r)"
proof -
  define n k where "n = length buf" and "k = nat off"
  have k: "off = int k" "k + n < 10000" "0 < n" using assms by (auto simp: n_def k_def)
  have "user_range (int n) (int k)" "\<not> too_large (int n) (int k)"
    using k by (simp_all add: user_range_def too_large_def)
  then have r: "course_write copy (int n) off =
      \<lparr>cw_ret = int n, cw_off = int (k + n), cw_stores = [(int (k + n), [NUL]), (int k, buf)]\<rparr>"
    using assms(5) k by (simp add: write_done n_def)
  define b where "b = take k buffer @ buf @ NUL # drop (Suc (k + n)) buffer"
  have b: "put_stores [(int (k + n), [NUL]), (int k, buf)] buffer = b"
    using k assms(1) unfolding put_stores_two put_store_one
    by (simp add: put_store_inside b_def n_def drop_update_swap Cons_nth_drop_Suc [symmetric])
  have "b ! (k + n) = NUL" "take n (drop k b) = buf" "length b = 10000"
    using k assms(1) by (auto simp: b_def nth_append n_def)
  then show ?thesis
    using k u64_of_id [of "10000 - off"] unfolding n_def [symmetric] r
    by (simp add: b [simplified] course_read_def Let_def view_def s64_id n_def [symmetric] assms(1) nat_add_distrib)
qed

text \<open>Unloading destroys the node of device number 0 instead of the one that was created, so this one
  is left behind.\<close>

lemma class_node_left:
  assumes "\<forall>h c. 0 \<le> fst (e h c) \<and> (\<forall>i d s. c = Cdev_add i d \<or> c = Device_create_file s \<or>
      c = Alloc_chrdev_region s i d \<longrightarrow> fst (e h c) = 0)"
    and "\<forall>h c. stored_number (e h c) = dev" and "0 < dev"
  shows "wp (do { _ \<leftarrow> class_init (recorder e); class_exit (recorder e) }) ([], m) (\<lambda>_ (h, _).
    resources h = {#Node dev#})"
proof -
  have a: "\<not> fst (e h c) < 0" "fst (e h (Cdev_add i d)) = 0" "fst (e h (Device_create_file s)) = 0"
    "fst (e h (Alloc_chrdev_region s i d)) = 0" for h c i d s
    using assms(1) by (auto simp: not_less)
  show ?thesis
    unfolding class_init_def class_exit_def exec_def wp_simps
    using assms(2,3)
    by (auto simp: a wp_simps intro!: wp_call_accounted wp_call_bytes)
qed

end
