(* ===== verification/Course_Devicetree.thy ===== *)
theory Course_Devicetree
  imports Course_Files
begin

text \<open>
  The course's drivers for devices of the device tree, under \<^verbatim>\<open>teacher_solutions/03_drivers\<close>:
  \<^verbatim>\<open>dts/skeleton.c\<close> (one static misc device), \<^verbatim>\<open>exercice06/skeleton.c\<close> (one for each platform device),
  \<^verbatim>\<open>exercice06.1/skeleton.c\<close> (one for each child of the node, kept in a list) and
  \<^verbatim>\<open>sample06.3/skeleton.c\<close> (the same with an attribute, only the last one being remembered).  Their read
  and write operations are \<open>misc_read\<close> and \<open>misc_write\<close> of \<open>Course_Files\<close>.  Log messages, and the
  properties of the nodes that are only logged, are not modelled.
\<close>

section \<open>The device tree\<close>

text \<open>A child of the node of the platform device: \<open>full_name\<close> and the first cell of its \<open>reg\<close> property,
  when it has one.\<close>

record child =
  full_name :: string
  reg_cell :: "nat option"

text \<open>A platform device has a name, and a node or (matched by its name) none.\<close>

record platform_device =
  pdev_name :: string
  of_node :: "child list option"

definition device :: "('w, mcall) os \<Rightarrow> dcall \<Rightarrow> ('w, 'g, int) prog" where
  "device os d = sysi os (Device d)"

text \<open>A step of \<open>for_each_available_child_of_node\<close>.\<close>

definition next_child :: "('w, mcall) os \<Rightarrow> string option \<Rightarrow> string option \<Rightarrow> ('w, 'g, unit) prog" where
  "next_child os c d = exec os (Device (Next_child c d))"

section \<open>A static misc device (dts)\<close>

definition dts_read :: "int \<Rightarrow> int" where
  "dts_read sz = 0"

definition dts_write :: "int \<Rightarrow> int" where
  "dts_write sz = sz"

definition dts_probe :: "('w, mcall) os \<Rightarrow> ('w, 'g, int) prog" where
  "dts_probe os = do {
     exec os (Misc_register ''mydevice'');
     return 0 }"

definition dts_remove :: "('w, mcall) os \<Rightarrow> ('w, 'g, int) prog" where
  "dts_remove os = do {
     exec os (Misc_deregister ''mydevice'');
     return 0 }"

definition dts_init :: "('w, mcall) os \<Rightarrow> ('w, 'g, int) prog" where
  "dts_init os = device os (Platform_driver_register ''mydriver'')"

definition dts_exit :: "('w, mcall) os \<Rightarrow> ('w, 'g, unit) prog" where
  "dts_exit os = exec os (Device (Platform_driver_unregister ''mydriver''))"

section \<open>One misc device for each platform device (exercise 6)\<close>

text \<open>\<open>struct mydata\<close> without its buffer; the static of the model is the driver data of the platform
  device, \<open>None\<close> when it was not set.\<close>

record mydata =
  md_self :: int
  misc_name :: string

definition single_probe ::
    "('w, mcall) os \<Rightarrow> platform_device \<Rightarrow> ('w, mydata option, int) prog" where
  "single_probe os pdev = do {
     p \<leftarrow> device os (Devm_kzalloc ''struct mydata'');
     if p = 0 then return (- ENOMEM)
     else do {
       modg (\<lambda>_. Some \<lparr>md_self = p, misc_name = pdev_name pdev\<rparr>);
       ret \<leftarrow> sysi os (Misc_register (pdev_name pdev));
       if ret \<noteq> 0 then return ret else return 0 } }"

text \<open>\<open>None\<close>: the driver data is a null pointer, which the code follows.\<close>

definition single_remove :: "('w, mcall) os \<Rightarrow> ('w, mydata option, int option) prog" where
  "single_remove os = do {
     d \<leftarrow> getg;
     (case d of
        None \<Rightarrow> return None
      | Some mydata \<Rightarrow> do {
          exec os (Misc_deregister (misc_name mydata));
          return (Some 0) }) }"

section \<open>A misc device for each child (exercise 6.1)\<close>

text \<open>The driver data is the list of the allocated structures.\<close>

primrec probe_children ::
    "child list \<Rightarrow> string option \<Rightarrow> ('w, mcall) os \<Rightarrow> ('w, mydata list option, int) prog" where
  "probe_children [] prev os = do {
     next_child os prev None;
     return 0 }"
| "probe_children (c # cs) prev os = do {
     next_child os prev (Some (full_name c));
     p \<leftarrow> device os (Devm_kzalloc ''struct mydata'');
     if p = 0 then return (- ENOMEM)
     else do {
       modg (map_option (\<lambda>l. l @ [\<lparr>md_self = p, misc_name = full_name c\<rparr>]));
       ret \<leftarrow> sysi os (Misc_register (full_name c));
       if ret \<noteq> 0 then return ret
       else probe_children cs (Some (full_name c)) os } }"

definition list_probe ::
    "('w, mcall) os \<Rightarrow> platform_device \<Rightarrow> ('w, mydata list option, int) prog" where
  "list_probe os pdev =
     (case of_node pdev of
        None \<Rightarrow> return 0
      | Some children \<Rightarrow> do {
          p \<leftarrow> device os (Devm_kzalloc ''struct list_head'');
          if p = 0 then return (- ENOMEM)
          else do {
            modg (\<lambda>_. Some []);
            probe_children children None os } })"

definition list_remove :: "('w, mcall) os \<Rightarrow> ('w, mydata list option, int option) prog" where
  "list_remove os = do {
     l \<leftarrow> getg;
     (case l of
        None \<Rightarrow> return None
      | Some l \<Rightarrow> do {
          for_each l (\<lambda>mydata. exec os (Misc_deregister (misc_name mydata)));
          return (Some 0) }) }"

definition drv_shutdown :: "('w, 'g, unit) prog" where
  "drv_shutdown = return ()"

definition drv_suspend :: "int \<Rightarrow> ('w, 'g, int) prog" where
  "drv_suspend event = return 0"

definition drv_resume :: "('w, 'g, int) prog" where
  "drv_resume = return 0"

text \<open>The status of the registration is not what the initialisation returns.\<close>

definition sysfs_driver_init :: "('w, mcall) os \<Rightarrow> ('w, 'g, int) prog" where
  "sysfs_driver_init os = do {
     exec os (Device (Platform_driver_register ''mydriver''));
     return 0 }"

definition sysfs_driver_exit :: "('w, mcall) os \<Rightarrow> ('w, 'g, unit) prog" where
  "sysfs_driver_exit os = exec os (Device (Platform_driver_unregister ''mydriver''))"

section \<open>A misc device with an attribute for each child (sample 6.3)\<close>

record sample_data =
  sd_self :: int
  sd_name :: string
  attr_val :: int
  attr_id :: int

text \<open>All the structures, and the driver data: the last one that was set.\<close>

record sample_driver =
  structures :: "sample_data list"
  drvdata :: "sample_data option"

definition sample_show_val :: "sample_data \<Rightarrow> string" where
  "sample_show_val d = fmt_d (attr_val d) @ [NL]"

definition sample_store_val :: "string \<Rightarrow> sample_data \<Rightarrow> int \<times> sample_data" where
  "sample_store_val buf d =
     (case kstrtol (c_str buf) of
        Inl err \<Rightarrow> (err, d)
      | Inr v \<Rightarrow> (int (length buf), d\<lparr>attr_val := v\<rparr>))"

text \<open>\<open>reg\<close> is declared outside the loop and keeps its value when a child has no \<open>reg\<close> property.\<close>

primrec sample_children ::
    "child list \<Rightarrow> string option \<Rightarrow> nat \<Rightarrow> ('w, mcall) os \<Rightarrow> ('w, sample_driver, int) prog" where
  "sample_children [] prev reg os = do {
     next_child os prev None;
     return 0 }"
| "sample_children (c # cs) prev reg os = do {
     next_child os prev (Some (full_name c));
     p \<leftarrow> device os (Devm_kzalloc ''struct mydata'');
     if p = 0 then return (- ENOMEM)
     else do {
       let reg = (case reg_cell c of None \<Rightarrow> reg | Some v \<Rightarrow> v);
       modg (\<lambda>m. m\<lparr>drvdata := Some \<lparr>sd_self = p, sd_name = full_name c, attr_val = 0, attr_id = 0\<rparr>\<rparr>);
       ret \<leftarrow> sysi os (Misc_register (full_name c));
       if ret \<noteq> 0 then return ret
       else do {
         let d = \<lparr>sd_self = p, sd_name = full_name c, attr_val = int reg, attr_id = s32 (int reg)\<rparr>;
         modg (\<lambda>m. m\<lparr>drvdata := Some d, structures := structures m @ [d]\<rparr>);
         ret \<leftarrow> device os (Dev_create_file (Misc (full_name c)) ''val'');
         if ret \<noteq> 0 then return ret
         else sample_children cs (Some (full_name c)) reg os } } }"

definition sample_probe ::
    "('w, mcall) os \<Rightarrow> platform_device \<Rightarrow> ('w, sample_driver, int) prog" where
  "sample_probe os pdev =
     (case of_node pdev of
        None \<Rightarrow> return 0
      | Some children \<Rightarrow> sample_children children None 0 os)"

definition sample_remove :: "('w, mcall) os \<Rightarrow> ('w, sample_driver, int option) prog" where
  "sample_remove os = do {
     m \<leftarrow> getg;
     (case drvdata m of
        None \<Rightarrow> return None
      | Some mydata \<Rightarrow> do {
          exec os (Misc_deregister (sd_name mydata));
          return (Some 0) }) }"

section \<open>Properties\<close>

text \<open>Deregistering a list of held devices.\<close>

lemma wp_deregister_list:
  assumes "mset (map (\<lambda>x. Misc (name x)) xs) \<subseteq># resources h"
    and "\<And>h'. resources h' = resources h - mset (map (\<lambda>x. Misc (name x)) xs) \<Longrightarrow>
      unheld_releases h' = unheld_releases h \<Longrightarrow> Q () (h', g)"
  shows "wp (for_each xs (\<lambda>x. exec (recorder e) (Misc_deregister (name x)))) (h, g) Q"
  using assms
proof (induction xs arbitrary: h)
  case Nil
  then show ?case by (simp add: wp_simps)
next
  case (Cons x xs)
  have held: "Misc (name x) \<in># resources h"
    "mset (map (\<lambda>x. Misc (name x)) xs) \<subseteq># resources h - {#Misc (name x)#}"
    using Cons.prems(1) by (simp_all add: insert_subset_eq_iff)
  show ?case
    unfolding wp_for_each_Cons
    by (rule wp_exec, rule Cons.IH) (use held in \<open>simp_all add: unheld_def Cons.prems(2)\<close>)
qed

definition child_misc :: "child list \<Rightarrow> resource multiset" where
  "child_misc cs = mset (map (\<lambda>c. Misc (full_name c)) cs)"

lemma child_misc_simps [simp]:
  "child_misc [] = {#}" "child_misc (c # cs) = add_mset (Misc (full_name c)) (child_misc cs)"
  by (simp_all add: child_misc_def)

definition ref_of :: "string option \<Rightarrow> resource multiset" where
  "ref_of c = (case c of None \<Rightarrow> {#} | Some x \<Rightarrow> {#Child_ref x#})"

text \<open>The loop of exercise 6.1 from any point: it registers a prefix of the children, which it has put
  in the list; when it stops early it keeps its reference to the child it stopped at.\<close>

lemma wp_probe_children:
  assumes "resources h = m + ref_of prev" and "g = Some l"
    and "\<And>h' l'. resources h' = m + child_misc cs \<Longrightarrow> unheld_releases h' = unheld_releases h \<Longrightarrow>
      map misc_name l' = map misc_name l @ map full_name cs \<Longrightarrow> Q 0 (h', Some l')"
    and "\<And>ret h' l' n. ret \<noteq> 0 \<Longrightarrow> n < length cs \<Longrightarrow>
      resources h' = m + child_misc (take n cs) + {#Child_ref (full_name (cs ! n))#} \<Longrightarrow> Q ret (h', l')"
  shows "wp (probe_children cs prev (recorder e)) (h, g) Q"
  using assms
proof (induction cs arbitrary: prev h g l m)
  case Nil
  show ?case
    using Nil.prems(1,2) unfolding probe_children.simps next_child_def wp_simps
    by (auto simp: ref_of_def unheld_def intro!: wp_exec_accounted Nil.prems(3) split: option.splits)
next
  case (Cons c cs)
  note stop = Cons.prems(4) [of _ 0, simplified] and stops = Cons.prems(4) [of _ "Suc _", simplified]
  note finish = Cons.prems(3)
  have IH: "wp (probe_children cs (Some (full_name c)) (recorder e)) (h', Some l') Q"
    if "resources h' = add_mset (Misc (full_name c)) (m + {#Child_ref (full_name c)#})"
      "unheld_releases h' = unheld_releases h" "map misc_name l' = map misc_name l @ [full_name c]" for h' l'
  proof (rule Cons.IH [of _ "add_mset (Misc (full_name c)) m" _ _ l'])
    show "Q 0 (h'', Some l'')" if "resources h'' = add_mset (Misc (full_name c)) m + child_misc cs"
      "unheld_releases h'' = unheld_releases h'" "map misc_name l'' = map misc_name l' @ map full_name cs" for h'' l''
      using that \<open>unheld_releases h' = unheld_releases h\<close> \<open>map misc_name l' = _\<close> by (intro finish) auto
    show "Q ret (h'', l'')" if "ret \<noteq> 0" "n < length cs"
      "resources h'' = add_mset (Misc (full_name c)) m + child_misc (take n cs) + {#Child_ref (full_name (cs ! n))#}"
      for ret h'' l'' n
      using that by (intro stops) auto
  qed (use that in \<open>auto simp: ref_of_def\<close>)
  show ?case
    using Cons.prems(1,2) unfolding probe_children.simps next_child_def device_def wp_simps
    by (intro wp_exec_accounted wp_call_accounted)
      (auto simp: wp_simps ref_of_def unheld_def intro!: wp_call_accounted stop IH split: option.splits)
qed

text \<open>C18. Exercise 6.1 in every environment and for every device tree: a successful probe has registered
  exactly one device for each child, and removing the driver deregisters exactly these.  A probe that
  fails with memory for its list keeps the devices registered before the failure, whose memory the
  kernel then frees, and a reference to the child at which it stopped.\<close>

theorem children_registered:
  shows "wp (list_probe (recorder e) \<lparr>pdev_name = nm, of_node = Some cs\<rparr>) ([], None) (\<lambda>ret (h, l).
    (if ret = 0 then
       resources h = mset (map (\<lambda>c. Misc (full_name c)) cs) \<and>
       wp (list_remove (recorder e)) (h, l) (\<lambda>r (h', _). r = Some 0 \<and> resources h' = {#} \<and> unheld_releases h' = [])
     else l = None \<and> resources h = {#} \<or>
       (\<exists>n < length cs. resources h =
         add_mset (Child_ref (full_name (cs ! n))) (mset (map (\<lambda>c. Misc (full_name c)) (take n cs))))))"
proof -
  have remove: "wp (list_remove (recorder e)) (h, Some l) (\<lambda>r (h', _). r = Some 0 \<and> resources h' = {#} \<and> unheld_releases h' = [])"
    if "resources h = child_misc cs" "unheld_releases h = []" "map misc_name l = map full_name cs" for h l
  proof -
    have "map (\<lambda>x. Misc (misc_name x)) l = map (\<lambda>c. Misc (full_name c)) cs"
      using arg_cong [OF that(3), of "map Misc"] by (simp add: comp_def)
    with that show ?thesis
      unfolding list_remove_def wp_getg wp_bind
      by (auto simp: wp_simps child_misc_def intro!: wp_deregister_list)
  qed
  show ?thesis
    unfolding list_probe_def device_def child_misc_def [symmetric]
    by (auto simp: wp_simps unheld_def ref_of_def intro!: wp_mono [OF remove] wp_call_accounted wp_probe_children [where m = "{#}" and l = "[]"])
      blast+
qed

theorem children_registered_witness:
  "wp (list_probe (recorder (\<lambda>h c. (0, []))) \<lparr>pdev_name = ''d'', of_node = Some [\<lparr>full_name = ''a'', reg_cell = None\<rparr>]\<rparr>)
    ([], None) (\<lambda>ret (h, l). ret \<noteq> 0 \<longrightarrow> (l = None \<and> resources h = {#} \<or> Child_ref ''a'' \<in># resources h))"
  by (rule wp_mono [OF children_registered]) auto

text \<open>Sample 6.3 when every service succeeds: both the devices and their attributes are there.\<close>

definition all_succeed :: "(mcall history \<Rightarrow> mcall \<Rightarrow> ret) \<Rightarrow> bool" where
  "all_succeed e \<longleftrightarrow> (\<forall>h s. fst (e h (Misc_register s)) = 0 \<and> fst (e h (Device (Devm_kzalloc s))) \<noteq> 0 \<and>
     (\<forall>d. fst (e h (Device (Dev_create_file d s))) = 0))"

definition child_parts :: "child list \<Rightarrow> resource multiset" where
  "child_parts cs = mset (concat (map (\<lambda>c. [Misc (full_name c), Attached (Misc (full_name c)) ''val'']) cs))"

lemma child_parts_simps [simp]:
  "child_parts [] = {#}"
  "child_parts (c # cs) = {#Misc (full_name c), Attached (Misc (full_name c)) ''val''#} + child_parts cs"
  "child_parts (cs @ ds) = child_parts cs + child_parts ds"
  by (simp_all add: child_parts_def)

lemma wp_sample_children:
  assumes "all_succeed e" and "resources h = m + ref_of prev" and "unheld_releases h = []"
    and "\<And>h' g'. resources h' = m + child_parts cs \<Longrightarrow> unheld_releases h' = [] \<Longrightarrow>
      map_option sd_name (drvdata g') =
        (if cs = [] then map_option sd_name (drvdata g) else Some (full_name (last cs))) \<Longrightarrow>
      Q 0 (h', g')"
  shows "wp (sample_children cs prev reg (recorder e)) (h, g) Q"
  using assms(2-)
proof (induction cs arbitrary: prev h g m reg)
  case Nil
  then show ?case
    unfolding sample_children.simps next_child_def wp_simps
    by (auto simp: ref_of_def unheld_def intro!: wp_exec_accounted split: option.splits)
next
  case (Cons c cs)
  note finish = Cons.prems(3)
  have IH: "wp (sample_children cs (Some (full_name c)) reg (recorder e)) (h', g') Q"
    if "resources h' = add_mset (Attached (Misc (full_name c)) ''val'')
        (add_mset (Misc (full_name c)) (add_mset (Child_ref (full_name c)) m))"
      "unheld_releases h' = []" "map_option sd_name (drvdata g') = Some (full_name c)" for h' g' reg
  proof (rule Cons.IH [of _ "{#Misc (full_name c), Attached (Misc (full_name c)) ''val''#} + m"])
    show "Q 0 (h'', g'')" if "resources h'' = {#Misc (full_name c), Attached (Misc (full_name c)) ''val''#} + m + child_parts cs"
      "unheld_releases h'' = []" "map_option sd_name (drvdata g'') =
        (if cs = [] then map_option sd_name (drvdata g') else Some (full_name (last cs)))" for h'' g''
      using that \<open>map_option sd_name (drvdata g') = _\<close> by (intro finish) (auto split: if_splits)
  qed (use that in \<open>auto simp: ref_of_def add_mset_commute\<close>)
  have e: "fst (e h (Misc_register s)) = 0" "fst (e h (Device (Devm_kzalloc s))) \<noteq> 0"
    "fst (e h (Device (Dev_create_file d s))) = 0" for h s d
    using assms(1) by (simp_all add: all_succeed_def)
  show ?case
    using Cons.prems(1,2) e unfolding sample_children.simps next_child_def device_def wp_simps
    by (intro wp_exec_accounted wp_call_accounted)
      (auto simp: Let_def wp_simps ref_of_def unheld_def intro!: wp_call_accounted IH split: option.splits)
qed

lemma live_child_parts:
  assumes "distinct (map full_name (cs @ [c]))"
  shows "live (child_parts (cs @ [c]) - {#Misc (full_name c)#}) = child_parts cs"
proof -
  define m where "m = child_parts (cs @ [c]) - {#Misc (full_name c)#}"
  have m: "m = add_mset (Attached (Misc (full_name c)) ''val'') (child_parts cs)"
    by (simp add: m_def)
  have "Misc x \<in># child_parts cs \<longleftrightarrow> x \<in> full_name ` set cs" for x
    by (auto simp: child_parts_def)
  then have "Misc x \<in># m \<longleftrightarrow> x \<in> full_name ` set cs" for x by (simp add: m)
  moreover have "full_name c \<notin> full_name ` set cs" using assms by simp
  moreover have "\<forall>r \<in># child_parts cs. owner_held m r"
    using calculation(1) by (auto simp: child_parts_def)
  ultimately show ?thesis
    unfolding m_def [symmetric] live_def by (subst (2) m) (simp add: filter_mset_eq_conv)
qed

text \<open>C34. Sample 6.3 remembers only the last structure in the driver data, so that removing the driver
  deregisters the last child's device only: the devices of the other children stay, with their
  attributes, although their memory and their code go away.\<close>

theorem sample_removes_last_only:
  assumes "all_succeed e" and "distinct (map full_name (cs @ [c]))"
  shows "wp (sample_probe (recorder e) \<lparr>pdev_name = nm, of_node = Some (cs @ [c])\<rparr>) ([], \<lparr>structures = [], drvdata = None\<rparr>)
    (\<lambda>ret (h, g). ret = 0 \<and> wp (sample_remove (recorder e)) (h, g) (\<lambda>r (h', _).
      r = Some 0 \<and> unheld_releases h' = [] \<and> live (resources h') = child_parts cs))"
proof -
  have remove: "wp (sample_remove (recorder e)) (h, g) (\<lambda>r (h', _).
      r = Some 0 \<and> unheld_releases h' = [] \<and> live (resources h') = child_parts cs)"
    if "resources h = child_parts (cs @ [c])" "unheld_releases h = []"
      "map_option sd_name (drvdata g) = Some (full_name c)" for h g
    using that live_child_parts [OF assms(2)]
    by (auto simp: sample_remove_def wp_simps unheld_def intro!: wp_exec_accounted)
  show ?thesis
    unfolding sample_probe_def
    by (auto intro!: wp_sample_children [OF assms(1), where m = "{#}"] wp_mono [OF remove] simp: ref_of_def add_mset_commute)
qed

theorem sample_removes_last_only_witness:
  "wp (sample_probe (recorder (\<lambda>h c. (case c of Device (Devm_kzalloc s) \<Rightarrow> 5 | _ \<Rightarrow> 0, [])))
      \<lparr>pdev_name = ''d'', of_node = Some ([\<lparr>full_name = ''a'', reg_cell = None\<rparr>] @ [\<lparr>full_name = ''b'', reg_cell = None\<rparr>])\<rparr>)
    ([], \<lparr>structures = [], drvdata = None\<rparr>)
    (\<lambda>ret (h, g). ret = 0 \<and> wp (sample_remove (recorder (\<lambda>h c. (case c of Device (Devm_kzalloc s) \<Rightarrow> 5 | _ \<Rightarrow> 0, [])))) (h, g) (\<lambda>r (h', _).
      r = Some 0 \<and> unheld_releases h' = [] \<and> live (resources h') = child_parts [\<lparr>full_name = ''a'', reg_cell = None\<rparr>]))"
  by (rule sample_removes_last_only) (auto simp: all_succeed_def)

text \<open>The attribute of a child is read as it was written.\<close>

lemma sample_val_round_trip:
  assumes "- (2 ^ 63) \<le> i" and "i < 2 ^ 63"
  shows "sample_store_val (fmt_d i @ [NL]) d = (int (length (fmt_d i @ [NL])), d\<lparr>attr_val := i\<rparr>)"
    and "sample_show_val (snd (sample_store_val (fmt_d i @ [NL]) d)) = fmt_d i @ [NL]"
  using assms fmt_d_no_NUL [of i] by (simp_all add: sample_store_val_def sample_show_val_def kstrtol_fmt_d)

text \<open>A probe of the static device that could not register it succeeds all the same, and the removal
  then deregisters what is not registered.\<close>

lemma dts_remove_unheld:
  assumes "\<forall>h. fst (e h (Misc_register ''mydevice'')) \<noteq> 0"
  shows "wp (do { _ \<leftarrow> dts_probe (recorder e); dts_remove (recorder e) }) ([], ()) (\<lambda>r (h, _).
    r = 0 \<and> unheld_releases h = [Misc ''mydevice''])"
  using assms unfolding dts_probe_def dts_remove_def exec_def wp_simps
  by (auto simp: wp_simps unheld_def intro!: wp_call_accounted)

text \<open>The same for the driver: a registration that fails is not reported, and unloading undoes it.\<close>

lemma sysfs_driver_unheld:
  assumes "\<forall>h. fst (e h (Device (Platform_driver_register ''mydriver''))) \<noteq> 0"
  shows "wp (do { r \<leftarrow> sysfs_driver_init (recorder e); sysfs_driver_exit (recorder e); return r }) ([], ()) (\<lambda>r (h, _).
    r = 0 \<and> unheld_releases h = [Platform_driver ''mydriver''])"
  using assms unfolding sysfs_driver_init_def sysfs_driver_exit_def exec_def wp_simps
  by (auto simp: wp_simps unheld_def intro!: wp_call_accounted)

end
