(* ===== verification/Course_Platform.thy ===== *)
theory Course_Platform
  imports Course_Drivers Course_Devicetree
begin

text \<open>
  More reference drivers of \<^verbatim>\<open>teacher_solutions/03_drivers\<close>: \<^verbatim>\<open>exercice02/skeleton.c\<close> (one buffer),
  \<^verbatim>\<open>sample05\<close> and \<^verbatim>\<open>sample05.1\<close> (a text attribute, and five of them), \<^verbatim>\<open>exercice05/skeleton.c\<close> as built
  with \<open>CLASS\<close> (two attributes) and \<^verbatim>\<open>sample06.2/skeleton.c\<close> (three instances, each with a buffer and an
  attribute on a platform device).  Log messages are not modelled.
\<close>

section \<open>Exercise 2: one buffer\<close>

record buffer_module =
  bm_buffer :: string
  bm_dev :: nat

definition buffer_open :: "buffer_module \<Rightarrow> int" where
  "buffer_open m = 0"

definition buffer_release :: "buffer_module \<Rightarrow> int" where
  "buffer_release m = 0"

definition buffer_read :: "(int \<Rightarrow> int) \<Rightarrow> buffer_module \<Rightarrow> int \<Rightarrow> int \<Rightarrow> int \<times> string option \<times> int" where
  "buffer_read fault m sz off = course_read fault (bm_buffer m) sz off"

definition buffer_write ::
    "(int \<Rightarrow> int \<times> string) \<Rightarrow> buffer_module \<Rightarrow> int \<Rightarrow> int \<Rightarrow> course_write_result \<times> buffer_module" where
  "buffer_write copy m sz off =
     (let r = course_write copy sz off in (r, m\<lparr>bm_buffer := put_stores (cw_stores r) (bm_buffer m)\<rparr>))"

text \<open>The registration of one region and one character device, which four of the drivers share; the
  status is ignored.\<close>

definition buffer_init :: "('w, mcall) os \<Rightarrow> ('w, buffer_module, int) prog" where
  "buffer_init os = do {
     r \<leftarrow> sys os (Alloc_chrdev_region ''mymodule'' 0 1);
     modg (\<lambda>m. m\<lparr>bm_dev := stored_number r\<rparr>);
     (if fst r = 0 then do {
        exec os (Cdev_init 0);
        exec os (Cdev_add 0 (stored_number r)) }
      else return ());
     return 0 }"

definition buffer_exit :: "('w, mcall) os \<Rightarrow> ('w, buffer_module, unit) prog" where
  "buffer_exit os = do {
     m \<leftarrow> getg;
     exec os (Cdev_del 0);
     exec os (Unregister_chrdev_region (bm_dev m) 1) }"

section \<open>A text attribute\<close>

text \<open>\<open>strncpy(dst, src, n)\<close>: the text up to \<open>n\<close> bytes, padded with zeroes to \<open>n\<close> bytes.\<close>

definition strncpy :: "nat \<Rightarrow> string \<Rightarrow> string \<Rightarrow> string" where
  "strncpy n src dst = overlay (take n (c_str src) @ replicate (n - length (take n (c_str src))) NUL) dst"

text \<open>The store operation of samples 5 and 5.1; \<open>n\<close> is the size of the destination.\<close>

definition store_text :: "nat \<Rightarrow> string \<Rightarrow> string \<Rightarrow> int \<times> string" where
  "store_text n buf dst =
     (let len = n - 1;
          len = (if len > length buf then length buf else len)
      in (int len, (strncpy len buf dst)[len := NUL]))"

definition show_text :: "string \<Rightarrow> string" where
  "show_text dst = c_str dst"

record class_static =
  cs_class :: int
  cs_device :: int

definition attr_init :: "('w, mcall) os \<Rightarrow> ('w, class_static, int) prog" where
  "attr_init os = do {
     c \<leftarrow> sysi os (Class_create ''myclass'');
     modg (\<lambda>m. m\<lparr>cs_class := c\<rparr>);
     d \<leftarrow> sysi os (Device_create c 0 ''mydevice'');
     modg (\<lambda>m. m\<lparr>cs_device := d\<rparr>);
     sysi os (Device_create_file ''attr'') }"

definition attr_exit :: "('w, mcall) os \<Rightarrow> ('w, class_static, unit) prog" where
  "attr_exit os = do {
     m \<leftarrow> getg;
     exec os (Device_remove_file ''attr'');
     exec os (Device_destroy (cs_class m) 0);
     exec os (Class_destroy (cs_class m)) }"

text \<open>Sample 5.1: five devices; the status returned is the one of the last attribute.\<close>

record devices_module =
  dm_class :: int
  dm_buffers :: "string list"

primrec devices_loop :: "nat list \<Rightarrow> ('w, mcall) os \<Rightarrow> int \<Rightarrow> ('w, devices_module, int) prog" where
  "devices_loop [] os status = return status"
| "devices_loop (i # is) os status = do {
     m \<leftarrow> getg;
     exec os (Device_create (dm_class m) i (''mydevice.'' @ fmt_u i));
     modg (\<lambda>m. m\<lparr>dm_buffers := (dm_buffers m)[i := (dm_buffers m ! i)[0 := NUL]]\<rparr>);
     status \<leftarrow> device os (Dev_create_file (Node i) ''val'');
     devices_loop is os status }"

definition devices_init :: "('w, mcall) os \<Rightarrow> ('w, devices_module, int) prog" where
  "devices_init os = do {
     c \<leftarrow> sysi os (Class_create ''myclass'');
     modg (\<lambda>m. m\<lparr>dm_class := c\<rparr>);
     devices_loop [0..<5] os 0 }"

definition devices_exit :: "('w, mcall) os \<Rightarrow> ('w, devices_module, unit) prog" where
  "devices_exit os = do {
     m \<leftarrow> getg;
     for_each [0..<5] (\<lambda>i. do {
       exec os (Device (Dev_remove_file (Node i) ''val''));
       exec os (Device_destroy (dm_class m) i) });
     exec os (Class_destroy (dm_class m)) }"

section \<open>Exercise 5: two attributes of a class\<close>

text \<open>The attributes are those of exercise 5.1; here there is no character device.\<close>

record attrs_module =
  am_config :: skeleton_config
  am_val :: int
  am_class :: int
  am_device :: int

definition attrs_show_val :: "attrs_module \<Rightarrow> string" where
  "attrs_show_val m = fmt_d (am_val m) @ [NL]"

definition attrs_store_val :: "string \<Rightarrow> attrs_module \<Rightarrow> int \<times> attrs_module" where
  "attrs_store_val buf m = (int (length buf), m\<lparr>am_val := s32 (simple_strtol (c_str buf))\<rparr>)"

definition attrs_show_cfg :: "attrs_module \<Rightarrow> string" where
  "attrs_show_cfg m =
     fmt_d (cfg_id (am_config m)) @ '' '' @ fmt_d (cfg_ref (am_config m)) @ '' '' @
     cfg_name (am_config m) @ '' '' @ cfg_descr (am_config m) @ [NL]"

definition attrs_store_cfg :: "string \<Rightarrow> attrs_module \<Rightarrow> (int \<times> attrs_module) option" where
  "attrs_store_cfg buf m =
     map_option (\<lambda>c. (int (length buf), m\<lparr>am_config := c\<rparr>)) (scan_config (c_str buf) (am_config m))"

definition attrs_init :: "('w, mcall) os \<Rightarrow> ('w, attrs_module, int) prog" where
  "attrs_init os = do {
     c \<leftarrow> sysi os (Class_create ''my_sysfs_class'');
     modg (\<lambda>m. m\<lparr>am_class := c\<rparr>);
     d \<leftarrow> sysi os (Device_create c 0 ''my_sysfs_device'');
     modg (\<lambda>m. m\<lparr>am_device := d\<rparr>);
     status \<leftarrow> sysi os (Device_create_file ''val'');
     (if status = 0 then exec os (Device_create_file ''cfg'') else return ());
     return 0 }"

definition attrs_exit :: "('w, mcall) os \<Rightarrow> ('w, attrs_module, unit) prog" where
  "attrs_exit os = do {
     m \<leftarrow> getg;
     exec os (Device_remove_file ''val'');
     exec os (Device_remove_file ''cfg'');
     exec os (Device_destroy (am_class m) 0);
     exec os (Class_destroy (am_class m)) }"

section \<open>Sample 6.2: instances on platform devices\<close>

abbreviation (input) INSTANCES :: nat where "INSTANCES \<equiv> 3"

record skeleton_attr =
  sa_val :: int
  sa_id :: int

definition initial_attrs :: "skeleton_attr list" where
  "initial_attrs = [\<lparr>sa_val = 10, sa_id = 0\<rparr>, \<lparr>sa_val = 11, sa_id = 1\<rparr>, \<lparr>sa_val = 12, sa_id = 2\<rparr>]"

definition inst_show_val :: "skeleton_attr \<Rightarrow> string" where
  "inst_show_val a = fmt_d (sa_val a) @ [NL]"

definition inst_store_val :: "string \<Rightarrow> skeleton_attr \<Rightarrow> int \<times> skeleton_attr" where
  "inst_store_val buf a =
     (case kstrtol (c_str buf) of
        Inl err \<Rightarrow> (err, a)
      | Inr v \<Rightarrow> (int (length buf), a\<lparr>sa_val := v\<rparr>))"

text \<open>The mode of an open file, as the two bits that are tested.  The result is the status with the
  index of the buffer that the file then uses; \<open>None\<close> when the index leaves the table.\<close>

record open_mode =
  fmode_read :: bool
  fmode_write :: bool

definition inst_open :: "open_mode \<Rightarrow> nat \<Rightarrow> (int \<times> nat option) option" where
  "inst_open f iminor =
     (if \<not> (fmode_read f \<or> fmode_write f) \<and> iminor \<ge> INSTANCES then Some (- EFAULT, None)
      else if iminor < INSTANCES then Some (0, Some iminor)
      else None)"

definition inst_release :: int where
  "inst_release = 0"

text \<open>Loading: each step runs while the status is 0.\<close>

definition when_ok :: "int \<Rightarrow> ('s, int) state \<Rightarrow> ('s, int) state" where
  "when_ok status m = (if status = 0 then m else return status)"

primrec inst_loop :: "nat list \<Rightarrow> ('w, mcall) os \<Rightarrow> int \<Rightarrow> ('w, nat, int) prog" where
  "inst_loop [] os status = return status"
| "inst_loop (i # is) os status = do {
     status \<leftarrow> when_ok status (device os (Platform_device_register ''mymodule'' i));
     status \<leftarrow> when_ok status (device os (Dev_create_file (Platform_device ''mymodule'' i) ''val''));
     inst_loop is os status }"

text \<open>The static of the model is the device number.\<close>

definition inst_init :: "('w, mcall) os \<Rightarrow> ('w, nat, int) prog" where
  "inst_init os = do {
     r \<leftarrow> sys os (Alloc_chrdev_region ''mymodule'' 0 INSTANCES);
     modg (\<lambda>_. stored_number r);
     status \<leftarrow> when_ok (fst r) (do {
       exec os (Cdev_init 0);
       sysi os (Cdev_add 0 (stored_number r)) });
     inst_loop [0..<INSTANCES] os status }"

definition inst_exit :: "('w, mcall) os \<Rightarrow> ('w, nat, unit) prog" where
  "inst_exit os = do {
     for_each [0..<INSTANCES] (\<lambda>i. do {
       exec os (Device (Dev_remove_file (Platform_device ''mymodule'' i) ''val''));
       exec os (Device (Platform_device_unregister ''mymodule'' i)) });
     exec os (Cdev_del 0);
     d \<leftarrow> getg;
     exec os (Unregister_chrdev_region d INSTANCES) }"

section \<open>Text attributes\<close>

lemma store_text_result:
  assumes "NUL \<notin> set buf" and "length dst = n" and "0 < n"
  shows "fst (store_text n buf dst) = int (min (length buf) (n - 1))"
    and "length (snd (store_text n buf dst)) = n"
    and "show_text (snd (store_text n buf dst)) = take (n - 1) buf"
proof -
  define k where "k = min (length buf) (n - 1)"
  have k: "k < n" "k \<le> length buf" using assms(3) by (auto simp: k_def)
  have "store_text n buf dst = (int k, (take k buf @ drop k dst)[k := NUL])"
    using assms(1) k by (auto simp: store_text_def Let_def strncpy_def overlay_def k_def min_def)
  moreover have "(take k buf @ drop k dst)[k := NUL] = take k buf @ NUL # drop (Suc k) dst"
    using k assms(2) by (simp add: list_update_append Cons_nth_drop_Suc [symmetric])
  moreover have "take (n - 1) buf = take k buf" by (simp add: k_def min_def)
  moreover have "NUL \<notin> set (take k buf)" using assms(1) by (meson in_set_takeD)
  ultimately show "fst (store_text n buf dst) = int (min (length buf) (n - 1))"
    "length (snd (store_text n buf dst)) = n" "show_text (snd (store_text n buf dst)) = take (n - 1) buf"
    using k assms(2) by (simp_all add: show_text_def k_def)
qed

text \<open>A program that writes a whole text to an attribute, as the shell does: what a \<open>write\<close> did not
  accept is written by the next one.  \<open>fuel\<close> bounds the number of writes.\<close>

primrec write_attribute :: "nat \<Rightarrow> nat \<Rightarrow> string \<Rightarrow> string \<Rightarrow> string option" where
  "write_attribute 0 n t dst = None"
| "write_attribute (Suc fuel) n t dst =
     (if t = [] then Some dst
      else (case store_text n t dst of (k, dst') \<Rightarrow>
        if k \<le> 0 then None else write_attribute fuel n (drop (nat k) t) dst'))"

text \<open>Every store replaces the text.  A text that fits is read back; of a longer one, written to the
  end, only the last piece is left (with the 1000 bytes of sample 5, the rest of the division of the
  length by 999, or 999 bytes), and one write more than there are pieces is enough.\<close>

theorem attribute_keeps_last_piece:
  assumes "NUL \<notin> set t" and "t \<noteq> []" and "1 < n" and "length dst = n" and "(length t - 1) div (n - 1) + 1 < fuel"
  shows "map_option show_text (write_attribute fuel n t dst) =
    Some (drop ((length t - 1) div (n - 1) * (n - 1)) t)"
  using assms
proof (induction fuel arbitrary: t dst)
  case (Suc fuel)
  obtain dst' where st: "store_text n t dst = (int (min (length t) (n - 1)), dst')" "length dst' = n"
      "show_text dst' = take (n - 1) t"
    using store_text_result [of t dst n] Suc.prems by (cases "store_text n t dst") auto
  have pos: "0 < length t" "0 < n - 1" using Suc.prems(2,3) by auto
  show ?case
  proof (cases "length t \<le> n - 1")
    case True
    then have "(length t - 1) div (n - 1) = 0" using pos by (intro div_less) simp
    with True Suc.prems st pos show ?thesis by (cases fuel) auto
  next
    case False
    then have q: "(length t - 1) div (n - 1) = Suc ((length t - (n - 1) - 1) div (n - 1))"
      using pos by (simp add: le_div_geq)
    have "map_option show_text (write_attribute fuel n (drop (n - 1) t) dst') =
        Some (drop ((length (drop (n - 1) t) - 1) div (n - 1) * (n - 1)) (drop (n - 1) t))"
      using Suc.prems st False q by (intro Suc.IH) (auto dest: in_set_dropD)
    moreover have "nat (int n - 1) = n - 1" by simp
    ultimately show ?thesis using st q False pos Suc.prems(2) by (simp add: add.commute)
  qed
qed simp

theorem attribute_keeps_last_piece_witness:
  "map_option show_text (write_attribute 9 4 ''abcdefgh'' (replicate 4 NUL)) = Some ''gh''"
  using attribute_keeps_last_piece [of "''abcdefgh''" 4 "replicate 4 NUL" 9] by simp

text \<open>The buffers of sample 5.1 hold more than the page that \<open>show\<close> fills: a text of 4096 bytes, the
  most that a single store brings, is copied out with its terminator, one byte too many.\<close>

lemma shown_text_fills_page:
  assumes "NUL \<notin> set t" and "length t = 4096" and "length dst = 10000"
  shows "length (show_text (snd (store_text 10000 t dst)) @ [NUL]) = 4097"
  using store_text_result(3) [of t dst 10000] assms by simp

section \<open>Loading and unloading sample 6.2\<close>

text \<open>What the steps of the loading register, in their order.\<close>

definition device_parts :: "nat list \<Rightarrow> resource list" where
  "device_parts is = concat (map (\<lambda>i. [Platform_device ''mymodule'' i, Attached (Platform_device ''mymodule'' i) ''val'']) is)"

definition inst_parts :: "resource list" where
  "inst_parts = Region # Cdev 0 # device_parts [0..<3]"

lemma device_parts_simps [simp]:
  "device_parts [] = []"
  "device_parts (i # is) = Platform_device ''mymodule'' i # Attached (Platform_device ''mymodule'' i) ''val'' # device_parts is"
  by (simp_all add: device_parts_def)

text \<open>The call that registers each of these parts; \<open>d\<close> is the device number that was stored.\<close>

definition device_calls :: "nat list \<Rightarrow> mcall list" where
  "device_calls is = concat (map (\<lambda>i. [Device (Platform_device_register ''mymodule'' i),
     Device (Dev_create_file (Platform_device ''mymodule'' i) ''val'')]) is)"

definition inst_calls :: "nat \<Rightarrow> mcall list" where
  "inst_calls d = Alloc_chrdev_region ''mymodule'' 0 3 # Cdev_add 0 d # device_calls [0..<3]"

lemma device_calls_simps [simp]:
  "device_calls [] = []"
  "device_calls (i # is) = Device (Platform_device_register ''mymodule'' i) #
     Device (Dev_create_file (Platform_device ''mymodule'' i) ''val'') # device_calls is"
  by (simp_all add: device_calls_def)

lemma length_inst_parts: "length inst_parts = 8"
  by (simp add: inst_parts_def upt_rec)

text \<open>The call \<open>c\<close> was the last one, and answered \<open>status\<close>.\<close>

definition failed_at :: "mcall \<Rightarrow> int \<Rightarrow> mcall history \<Rightarrow> bool" where
  "failed_at c status h \<longleftrightarrow> h \<noteq> [] \<and> fst (last h) = c \<and> fst (snd (last h)) = status"

lemma wp_call_failing:
  assumes "\<And>a bs h'. resources h' = resource_effect (c, (a, bs)) (resources h) \<Longrightarrow>
    unheld_releases h' = unheld_releases h @ unheld c (resources h) \<Longrightarrow> failed_at c a h' \<Longrightarrow> Q a (h', g)"
  shows "wp (sysi (recorder e) c) (h, g) Q"
  by (rule wp_call, rule assms [of _ _ "snd (e h c)"]) (simp_all add: failed_at_def)

lemma wp_alloc_failing:
  assumes "\<And>h'. resources h' = resource_effect (c, e h c) (resources h) \<Longrightarrow>
    unheld_releases h' = unheld_releases h @ unheld c (resources h) \<Longrightarrow> failed_at c (fst (e h c)) h' \<Longrightarrow>
    Q (e h c) (h', g)"
  shows "wp (sys (recorder e) c) (h, g) Q"
  by (rule wp_call_bytes, rule assms) (simp_all add: failed_at_def)

lemma wp_inst_loop_failed:
  assumes "status \<noteq> 0" and "Q status (h, g)"
  shows "wp (inst_loop is os status) (h, g) Q"
  using assms by (induction "is") (simp_all add: when_ok_def wp_simps)

lemma wp_inst_loop:
  assumes "resources h = m" and "\<And>h'. resources h' = m + mset (device_parts is) \<Longrightarrow>
      unheld_releases h' = unheld_releases h \<Longrightarrow> Q 0 (h', g)"
    and "\<And>h' status k. status \<noteq> 0 \<Longrightarrow> k < length (device_parts is) \<Longrightarrow>
      failed_at (device_calls is ! k) status h' \<Longrightarrow>
      resources h' = m + mset (take k (device_parts is)) \<Longrightarrow> Q status (h', g)"
  shows "wp (inst_loop is (recorder e) 0) (h, g) Q"
  using assms
proof (induction "is" arbitrary: h m)
  case Nil
  then show ?case by (simp add: wp_simps)
next
  case (Cons i "is")
  note stop = Cons.prems(3) [of _ 0, simplified] Cons.prems(3) [of _ "Suc 0", simplified]
  have IH: "wp (inst_loop is (recorder e) 0) (h', g) Q"
    if "resources h' = {#Attached (Platform_device ''mymodule'' i) ''val'', Platform_device ''mymodule'' i#} + m"
      "unheld_releases h' = unheld_releases h" for h'
  proof (rule Cons.IH [OF that(1)])
    show "Q 0 (h'', g)" if "resources h'' = {#Attached (Platform_device ''mymodule'' i) ''val'', Platform_device ''mymodule'' i#} +
        m + mset (device_parts is)" "unheld_releases h'' = unheld_releases h'" for h''
      using that \<open>unheld_releases h' = _\<close> by (intro Cons.prems(2)) (simp_all add: add_mset_commute)
    show "Q status (h'', g)" if "status \<noteq> 0" "k < length (device_parts is)"
        "failed_at (device_calls is ! k) status h''"
        "resources h'' = {#Attached (Platform_device ''mymodule'' i) ''val'', Platform_device ''mymodule'' i#} +
          m + mset (take k (device_parts is))" for h'' status k
      using that by (intro Cons.prems(3) [of _ "Suc (Suc k)"]) (simp_all add: add_mset_commute)
  qed
  let ?register = "Device (Platform_device_register ''mymodule'' i)"
  let ?create = "Device (Dev_create_file (Platform_device ''mymodule'' i) ''val'')"
  have go: "wp (inst_loop is (recorder e) status) (h', g) Q"
    if "if status = 0 then resources h' = {#Attached (Platform_device ''mymodule'' i) ''val'', Platform_device ''mymodule'' i#} + m \<and>
          unheld_releases h' = unheld_releases h
        else resources h' = m \<and> failed_at ?register status h' \<or>
          resources h' = add_mset (Platform_device ''mymodule'' i) m \<and> failed_at ?create status h'" for h' status
    using that by (auto split: if_splits intro: IH wp_inst_loop_failed stop)
  show ?case
    using Cons.prems(1) unfolding inst_loop.simps device_def
    by (auto simp: when_ok_def wp_simps unheld_def intro!: wp_call_failing go)
qed

text \<open>C33. Sample 6.2 in every environment whose \<open>alloc_chrdev_region\<close> answers 0 or an error: a load that
  returns 0 has made all its registrations, and unloading gives exactly these back; a load that fails
  stops at the registration that failed (the last call made, whose answer it returns), and every
  registration made before that one is kept.\<close>

theorem instances_loaded:
  assumes "\<forall>h n first. fst (e h (Alloc_chrdev_region n first 3)) \<le> 0"
  shows "wp (inst_init (recorder e)) ([], d) (\<lambda>status (h, d').
    (if status = 0 then resources h = mset inst_parts \<and>
       wp (inst_exit (recorder e)) (h, d') (\<lambda>_ (h', _). resources h' = {#} \<and> unheld_releases h' = [])
     else \<exists>k < length inst_parts. h \<noteq> [] \<and> fst (last h) = inst_calls d' ! k \<and> fst (snd (last h)) = status \<and>
       resources h = mset (take k inst_parts)))"
proof -
  let ?stopped = "\<lambda>status h d'. \<exists>k < length inst_parts. failed_at (inst_calls d' ! k) status h \<and>
    resources h = mset (take k inst_parts)"
  define loaded where "loaded = (\<lambda>status (h, d'). if status = 0 then resources h = mset inst_parts \<and>
       wp (inst_exit (recorder e)) (h, d') (\<lambda>_ (h', _). resources h' = {#} \<and> unheld_releases h' = [])
     else ?stopped status h d')"
  have exit: "wp (inst_exit (recorder e)) (h, d') (\<lambda>_ (h', _). resources h' = {#} \<and> unheld_releases h' = [])"
    if "resources h = {#Region, Cdev 0#} + mset (device_parts [0..<3])" "unheld_releases h = []" for h d'
    using that unfolding inst_exit_def
    by (auto simp: wp_simps upt_rec unheld_def intro!: wp_exec_accounted)
  have stop: "?stopped status h d'"
    if "resources h = {#Region, Cdev 0#} + mset (take j (device_parts [0..<3]))"
      "j < length (device_parts [0..<3])" "failed_at (device_calls [0..<3] ! j) status h" for h d' j status
    using that by (intro exI [of _ "Suc (Suc j)"]) (simp_all add: inst_parts_def inst_calls_def)
  have early: "?stopped status h d'" if "resources h = {#} \<and> failed_at (Alloc_chrdev_region ''mymodule'' 0 3) status h \<or>
      resources h = {#Region#} \<and> failed_at (Cdev_add 0 d') status h" for status h d'
    using that by (auto simp: inst_parts_def inst_calls_def intro: exI [of _ 0] exI [of _ "Suc 0"])
  have go: "wp (inst_loop [0..<3] (recorder e) status) (h, d') loaded"
    if "if status = 0 then resources h = {#Region, Cdev 0#} \<and> unheld_releases h = []
        else resources h = {#} \<and> failed_at (Alloc_chrdev_region ''mymodule'' 0 3) status h \<or>
          resources h = {#Region#} \<and> failed_at (Cdev_add 0 d') status h" for status h d'
  proof (cases "status = 0")
    case True
    show ?thesis unfolding True
      by (rule wp_inst_loop [OF refl]) (use that True exit stop in \<open>auto simp: inst_parts_def loaded_def\<close>)
  next
    case False
    with that early show ?thesis by (intro wp_inst_loop_failed) (auto simp: loaded_def)
  qed
  have alloc: "0 \<le> fst (e h (Alloc_chrdev_region n first 3)) \<longleftrightarrow> fst (e h (Alloc_chrdev_region n first 3)) = 0" for h n first
    using assms by (metis order_antisym order_refl)
  have "wp (inst_init (recorder e)) ([], d) loaded"
    unfolding inst_init_def
    by (auto simp: alloc wp_simps when_ok_def unheld_def exec_def not_less intro!: wp_alloc_failing wp_call_failing go)
  then show ?thesis by (rule wp_mono) (auto simp: failed_at_def loaded_def)
qed

theorem instances_loaded_witness:
  "wp (inst_init (recorder (\<lambda>h c. (if length h = 4 then - 12 else 0, [])))) ([], 0) (\<lambda>status (h, d').
     status \<noteq> 0 \<longrightarrow> (\<exists>k < 8. fst (last h) = inst_calls d' ! k \<and> resources h = mset (take k inst_parts)))"
  by (rule wp_mono [OF instances_loaded]) (auto simp: length_inst_parts)

text \<open>Sample 5.1 reports the status of the last attribute only.  What the loop has created is the nodes,
  and the attributes that could be created.\<close>

lemma wp_devices_loop:
  assumes attr: "\<And>h i. fst (e h (Device (Dev_create_file (Node i) ''val''))) = st i"
    and node: "\<And>h c i s. 0 \<le> fst (e h (Device_create c i s))"
    and "\<And>r h' g'. r = (if is = [] then status else st (last is)) \<Longrightarrow>
      resources h' = resources h + mset (map Node is) +
        mset (map (\<lambda>i. Attached (Node i) ''val'') (filter (\<lambda>i. st i = 0) is)) \<Longrightarrow> Q r (h', g')"
  shows "wp (devices_loop is (recorder e) status) (h, g) Q"
  using assms(3)
proof (induction "is" arbitrary: h g status)
  case Nil
  then show ?case by (simp add: wp_simps)
next
  case (Cons i "is")
  note finish = Cons.prems
  have "\<not> fst (e h (Device_create c i s)) < 0" for h c s
    using node by (simp add: not_less)
  then show ?case
    unfolding devices_loop.simps device_def wp_simps
    by (auto simp: wp_simps attr intro!: wp_call_accounted wp_exec_accounted Cons.IH finish split: if_splits)
qed

lemma attribute_failure_hidden:
  assumes "\<And>h i. fst (e h (Device (Dev_create_file (Node i) ''val''))) = (if i = 0 then - 12 else 0)"
    and "\<And>h c i s. 0 \<le> fst (e h (Device_create c i s))"
  shows "wp (devices_loop [0..<5] (recorder e) 0) ([], g) (\<lambda>r (h, _). r = 0 \<and> Attached (Node 0) ''val'' \<notin># resources h)"
  by (rule wp_devices_loop [OF assms]) (auto simp: upt_rec)

end
