(* ===== verification/Course_Interfaces.thy ===== *)
theory Course_Interfaces
  imports Course_Platform
begin

text \<open>
  The reference drivers of the other kernel interfaces, under \<^verbatim>\<open>teacher_solutions/03_drivers\<close>:
  \<^verbatim>\<open>exercice07/drv\<close> (interrupts and \<open>poll\<close>), \<^verbatim>\<open>exercice08/drv\<close> (\<open>mmap\<close>), \<^verbatim>\<open>exercice09/drv\<close> (\<open>ioctl\<close>) and
  \<^verbatim>\<open>exercice10\<close> (\<open>procfs\<close>).  Log messages are not modelled.
\<close>

section \<open>Exercise 7: interrupts and poll\<close>

text \<open>The interrupt handler and the two accesses of \<open>skeleton_poll\<close> to the counter are atomic
  operations of a C \<open>int\<close>.  The mask is \<open>POLLIN | POLLRDNORM\<close> or 0.\<close>

definition poll_isr :: "int \<Rightarrow> int" where
  "poll_isr nb_of_interrupts = s32 (nb_of_interrupts + 1)"

definition poll_ready :: "int \<Rightarrow> bool" where
  "poll_ready nb_of_interrupts \<longleftrightarrow> nb_of_interrupts \<noteq> 0"

definition poll_take :: "int \<Rightarrow> int" where
  "poll_take nb_of_interrupts = s32 (nb_of_interrupts - 1)"

definition poll_read :: int where
  "poll_read = 0"

text \<open>The operation when nothing else runs meanwhile.\<close>

definition skeleton_poll :: "int \<Rightarrow> nat \<times> int" where
  "skeleton_poll nb_of_interrupts =
     (if poll_ready nb_of_interrupts then (0x41, poll_take nb_of_interrupts) else (0, nb_of_interrupts))"

text \<open>Each button is requested while the status is 0; the interrupts belong to the misc device.\<close>

definition request_managed :: "('w, mcall) os \<Rightarrow> nat \<Rightarrow> string \<Rightarrow> int \<Rightarrow> ('w, 'g, int) prog" where
  "request_managed os k name status = when_ok status (do {
     irq \<leftarrow> sysi os (Pin_to_irq k);
     device os (Devm_request_irq (Misc ''mymodule'') irq name) })"

definition poll_init :: "('w, mcall) os \<Rightarrow> ('w, int, int) prog" where
  "poll_init os = do {
     modg (\<lambda>_. 0);
     status \<leftarrow> sysi os (Misc_register ''mymodule'');
     status \<leftarrow> request_managed os 0 ''gpio_a.0-k1'' status;
     status \<leftarrow> request_managed os 2 ''gpio_a.2-k2'' status;
     request_managed os 3 ''gpio_a.3-k3'' status }"

definition poll_exit :: "('w, mcall) os \<Rightarrow> ('w, int, unit) prog" where
  "poll_exit os = exec os (Misc_deregister ''mymodule'')"

text \<open>Programs polling the device at the same time: each is before its test of the counter, or between
  the test and the decrement.  \<open>raised\<close> and \<open>reported\<close> count interrupts and positive answers.\<close>

datatype poller = Testing | Taking

record polled =
  irq_count :: int
  raised :: nat
  reported :: nat
  pollers :: "poller list"

inductive poll_step :: "polled \<Rightarrow> polled \<Rightarrow> bool" where
  interrupt: "poll_step p (p\<lparr>irq_count := poll_isr (irq_count p), raised := Suc (raised p)\<rparr>)"
| test: "i < length (pollers p) \<Longrightarrow> pollers p ! i = Testing \<Longrightarrow> poll_ready (irq_count p) \<Longrightarrow>
    poll_step p (p\<lparr>pollers := (pollers p)[i := Taking]\<rparr>)"
| take: "i < length (pollers p) \<Longrightarrow> pollers p ! i = Taking \<Longrightarrow>
    poll_step p (p\<lparr>irq_count := poll_take (irq_count p), reported := Suc (reported p),
      pollers := (pollers p)[i := Testing]\<rparr>)"

inductive_cases poll_stepE: "poll_step p q"

definition poll_start :: "nat \<Rightarrow> polled" where
  "poll_start n = \<lparr>irq_count = 0, raised = 0, reported = 0, pollers = replicate n Testing\<rparr>"

section \<open>Exercise 8: mmap\<close>

record vm_area =
  vm_start :: nat
  vm_end :: nat
  vm_pgoff :: nat

definition skeleton_mmap :: "('w, mcall) os \<Rightarrow> vm_area \<Rightarrow> ('w, 'g, int \<times> vm_area) prog" where
  "skeleton_mmap os vma = do {
     let sz = vm_end vma - vm_start vma;
     let status = (if sz > 4096 then - EINVAL else 0);
     let vma = vma\<lparr>vm_pgoff := drop_bit 12 0x01c14000\<rparr>;
     status \<leftarrow> when_ok status (device os (Remap_pfn_range (vm_start vma) (vm_pgoff vma) sz));
     return (if status \<noteq> 0 then - EAGAIN else status, vma) }"

text \<open>The static of the model is the device number; the platform device has the identifier -1, that is
  no number.\<close>

definition mmap_init :: "('w, mcall) os \<Rightarrow> ('w, nat, int) prog" where
  "mmap_init os = do {
     r \<leftarrow> sys os (Alloc_chrdev_region ''mymodule'' 0 1);
     modg (\<lambda>_. stored_number r);
     status \<leftarrow> when_ok (fst r) (do {
       exec os (Cdev_init 0);
       sysi os (Cdev_add 0 (stored_number r)) });
     status \<leftarrow> when_ok status (device os (Platform_device_register ''mymodule'' 0));
     return 0 }"

definition mmap_exit :: "('w, mcall) os \<Rightarrow> ('w, nat, unit) prog" where
  "mmap_exit os = do {
     exec os (Device (Platform_device_unregister ''mymodule'' 0));
     exec os (Cdev_del 0);
     d \<leftarrow> getg;
     exec os (Unregister_chrdev_region d 1) }"

section \<open>Exercise 9: ioctl\<close>

text \<open>The command numbers of \<^verbatim>\<open>skeleton.h\<close>: direction, size, type and number.  \<open>struct skeleton_config\<close>
  (an \<open>int\<close>, a \<open>long\<close> and two arrays of 30 bytes) takes 80 bytes.\<close>

definition IOC :: "nat \<Rightarrow> nat \<Rightarrow> nat \<Rightarrow> nat" where
  "IOC dir nr sz = push_bit 30 dir OR push_bit 16 sz OR push_bit 8 103 OR nr"

definition IOC_SIZE :: "nat \<Rightarrow> nat" where
  "IOC_SIZE cmd = take_bit 14 (drop_bit 16 cmd)"

definition CONFIG_SZ :: nat where "CONFIG_SZ = 80"

definition SKELETON_IO_RESET :: nat where "SKELETON_IO_RESET = IOC 0 0 0"
definition SKELETON_IO_WR_REF :: nat where "SKELETON_IO_WR_REF = IOC 1 1 CONFIG_SZ"
definition SKELETON_IO_RD_REF :: nat where "SKELETON_IO_RD_REF = IOC 2 2 CONFIG_SZ"
definition SKELETON_IO_WR_VAL :: nat where "SKELETON_IO_WR_VAL = IOC 1 3 4"
definition SKELETON_IO_RD_VAL :: nat where "SKELETON_IO_RD_VAL = IOC 2 4 4"

text \<open>The configuration is the bytes of its struct.\<close>

record ioctl_module =
  io_config :: string
  io_val :: int

text \<open>What the user passes: a number, which for two of the commands is the address of \<open>user\<close>;
  \<open>copy_in n\<close> and \<open>copy_out n\<close> are the numbers of bytes that could not be copied.  The result is the
  return value, the new state and the user's memory.\<close>

record user_arg =
  arg :: int
  user :: string
  copy_in :: "nat \<Rightarrow> nat"
  copy_out :: "nat \<Rightarrow> nat"

definition skeleton_ioctl ::
    "nat \<Rightarrow> user_arg \<Rightarrow> ioctl_module \<Rightarrow> int \<times> ioctl_module \<times> string" where
  "skeleton_ioctl cmd u m =
     (if cmd = SKELETON_IO_RESET then
        (0, m\<lparr>io_val := 0, io_config := replicate CONFIG_SZ NUL\<rparr>, user u)
      else if cmd = SKELETON_IO_WR_REF then
        (if IOC_SIZE cmd = CONFIG_SZ then
           (let left = copy_in u (IOC_SIZE cmd) in
             (int left, m\<lparr>io_config := overlay (copied_in left (take (IOC_SIZE cmd) (user u))) (io_config m)\<rparr>, user u))
         else (- EFAULT, m, user u))
      else if cmd = SKELETON_IO_RD_REF then
        (if IOC_SIZE cmd = CONFIG_SZ then
           (let left = copy_out u (IOC_SIZE cmd) in
             (int left, m, overlay (take (CONFIG_SZ - left) (io_config m)) (user u)))
         else (- EFAULT, m, user u))
      else if cmd = SKELETON_IO_WR_VAL then (0, m\<lparr>io_val := s32 (arg u)\<rparr>, user u)
      else if cmd = SKELETON_IO_RD_VAL then (io_val m, m, user u)
      else (- EFAULT, m, user u))"

definition ioctl_init :: "('w, mcall) os \<Rightarrow> ('w, nat, int) prog" where
  "ioctl_init os = do {
     r \<leftarrow> sys os (Alloc_chrdev_region ''mymodule'' 0 1);
     modg (\<lambda>_. stored_number r);
     status \<leftarrow> when_ok (fst r) (do {
       exec os (Cdev_init 0);
       sysi os (Cdev_add 0 (stored_number r)) });
     return 0 }"

definition ioctl_exit :: "('w, mcall) os \<Rightarrow> ('w, nat, unit) prog" where
  "ioctl_exit os = do {
     exec os (Cdev_del 0);
     d \<leftarrow> getg;
     exec os (Unregister_chrdev_region d 1) }"

section \<open>Exercise 10: procfs\<close>

text \<open>The configuration, which nothing changes, and the number.\<close>

record proc_config =
  pc_id :: int
  pc_ref :: int
  pc_name :: string
  pc_descr :: string

definition initial_config :: proc_config where
  "initial_config = \<lparr>pc_id = 11, pc_ref = 33, pc_name = ''config structure'', pc_descr = ''procfs test driver''\<rparr>"

definition initial_val :: int where "initial_val = 55"

definition config_text :: "proc_config \<Rightarrow> string" where
  "config_text c = ''id='' @ fmt_d (pc_id c) @ [NL] @ ''ref='' @ fmt_d (pc_ref c) @ [NL] @
     ''name='' @ pc_name c @ [NL] @ ''descr='' @ pc_descr c @ [NL]"

text \<open>\<open>snprintf\<close> into an array on the stack, whose other bytes are what the stack held.\<close>

definition snprintf :: "nat \<Rightarrow> string \<Rightarrow> string \<Rightarrow> string" where
  "snprintf n s stack = take n (overlay (take (n - 1) s @ [NUL]) stack)"

text \<open>What both read operations do after \<open>snprintf\<close>: \<open>len\<close> is its result, \<open>temp\<close> the array.  Every copy
  starts at the beginning of the array, and the count is compared with the \<open>int\<close> as unsigned.\<close>

definition proc_copy ::
    "(int \<Rightarrow> int) \<Rightarrow> string \<Rightarrow> int \<Rightarrow> int \<Rightarrow> int \<Rightarrow> int \<times> string option \<times> int" where
  "proc_copy fault temp len sz off =
     (let len = s32 (len - off);
          sz = (if sz > u64_of len then u64_of len else sz);
          off = s64 (off + sz);
          bytes = view temp 0 sz
      in if fault sz \<noteq> 0 then (- EFAULT, bytes, off) else (s64 sz, bytes, off))"

definition read_config ::
    "(int \<Rightarrow> int) \<Rightarrow> string \<Rightarrow> proc_config \<Rightarrow> int \<Rightarrow> int \<Rightarrow> int \<times> string option \<times> int" where
  "read_config fault stack c sz off =
     proc_copy fault (snprintf 200 (config_text c) stack) (int (length (config_text c))) sz off"

definition read_val ::
    "(int \<Rightarrow> int) \<Rightarrow> string \<Rightarrow> int \<Rightarrow> int \<Rightarrow> int \<Rightarrow> int \<times> string option \<times> int" where
  "read_val fault stack val sz off =
     proc_copy fault (snprintf 20 (fmt_d val @ [NL]) stack) (int (length (fmt_d val @ [NL]))) sz off"

text \<open>\<open>stack\<close> is the memory from the start of the array on; the number is parsed from there, and nothing
  terminates it.\<close>

definition write_val :: "bool \<Rightarrow> string \<Rightarrow> string \<Rightarrow> int \<Rightarrow> int \<times> int" where
  "write_val fault stack buf val =
     (if length buf > 20 then (- EIO, val)
      else if fault then (- EFAULT, val)
      else (int (length buf), s32 (simple_strtol (c_str (overlay buf stack)))))"

text \<open>The static of the model is the pointer of the directory.\<close>

definition proc_init :: "('w, mcall) os \<Rightarrow> ('w, int, int) prog" where
  "proc_init os = do {
     d \<leftarrow> device os (Proc_mkdir ''mymodule'');
     modg (\<lambda>_. d);
     exec os (Device (Proc_create d ''config''));
     exec os (Device (Proc_create d ''val''));
     return (if d = 0 then - EFAULT else 0) }"

definition proc_exit :: "('w, mcall) os \<Rightarrow> ('w, int, unit) prog" where
  "proc_exit os = do {
     d \<leftarrow> getg;
     exec os (Device (Remove_proc_entry d ''val''));
     exec os (Device (Remove_proc_entry d ''config''));
     exec os (Device (Remove_proc_entry 0 ''mymodule'')) }"

section \<open>Polling\<close>

text \<open>With one poller the counter is the number of interrupts not yet reported.\<close>

definition single_inv :: "polled \<Rightarrow> bool" where
  "single_inv p \<longleftrightarrow> length (pollers p) = 1 \<and>
     (raised p < 2 ^ 31 \<longrightarrow> irq_count p + int (reported p) = int (raised p) \<and>
       (if pollers p ! 0 = Taking then 0 < irq_count p else 0 \<le> irq_count p))"

lemma single_inv_step: "single_inv p \<Longrightarrow> poll_step p q \<Longrightarrow> single_inv q"
proof (erule poll_stepE)
  assume p: "single_inv p" and q: "q = p\<lparr>irq_count := poll_isr (irq_count p), raised := Suc (raised p)\<rparr>"
  show "single_inv q"
  proof (cases "Suc (raised p) < 2 ^ 31")
    case True
    then have "s32 (irq_count p + 1) = irq_count p + 1"
      using p by (intro s32_id) (auto simp: single_inv_def s32_range_def split: if_splits)
    with True p show ?thesis by (auto simp: q single_inv_def poll_isr_def)
  qed (use p in \<open>simp add: q single_inv_def\<close>)
next
  fix i assume p: "single_inv p" and i: "i < length (pollers p)" "pollers p ! i = Testing" "poll_ready (irq_count p)"
    and q: "q = p\<lparr>pollers := (pollers p)[i := Taking]\<rparr>"
  then show "single_inv q" by (auto simp: single_inv_def poll_ready_def)
next
  fix i assume p: "single_inv p" and i: "i < length (pollers p)" "pollers p ! i = Taking"
    and q: "q = p\<lparr>irq_count := poll_take (irq_count p), reported := Suc (reported p), pollers := (pollers p)[i := Testing]\<rparr>"
  have i0: "i = 0" using p i(1) by (simp add: single_inv_def)
  show "single_inv q"
  proof (cases "raised p < 2 ^ 31")
    case True
    then have "s32 (irq_count p - 1) = irq_count p - 1"
      using p i i0 by (intro s32_id) (auto simp: single_inv_def s32_range_def)
    with True p i i0 show ?thesis by (auto simp: q single_inv_def poll_take_def)
  qed (use p in \<open>simp add: q single_inv_def\<close>)
qed

interpretation single: kept_invariant "\<lambda>p. p = poll_start 1" poll_step single_inv
proof
  show "single_inv p" if "p = poll_start 1" for p
    using that by (simp add: single_inv_def poll_start_def)
qed (rule single_inv_step)

text \<open>C29. One program polling: in any interleaving with the interrupt handler, every interrupt is reported
  once and nothing else is, up to 2^31 interrupts.\<close>

theorem one_poller_exact:
  assumes "poll_step\<^sup>*\<^sup>* (poll_start 1) p" and "raised p < 2 ^ 31"
  shows "irq_count p = int (raised p) - int (reported p) \<and> reported p \<le> raised p"
  using single.reachable_inv [OF refl assms(1)] assms(2)
  by (auto simp: single_inv_def split: if_splits)

theorem one_poller_exact_witness:
  "\<exists>p. poll_step\<^sup>*\<^sup>* (poll_start 1) p \<and> raised p = 1 \<and> irq_count p = int 1 - int (reported p)"
proof -
  let ?p = "poll_start 1\<lparr>irq_count := 1, raised := 1\<rparr>"
  have s: "poll_step (poll_start 1) ?p"
    using interrupt [of "poll_start 1"] by (simp add: poll_start_def poll_isr_def s32_range_def)
  have "raised ?p = 1" by simp
  with one_poller_exact [OF r_into_rtranclp [of poll_step, OF s]] s show ?thesis
    by (intro exI [of _ ?p]) auto
qed

text \<open>From a negative counter every poll is answered, and the counter only goes down.\<close>

lemma phantom_reports:
  "irq_count p = - int (Suc k) \<Longrightarrow> k + n < 2 ^ 31 \<Longrightarrow> i < length (pollers p) \<Longrightarrow> pollers p ! i = Testing \<Longrightarrow>
    \<exists>q. poll_step\<^sup>*\<^sup>* p q \<and> raised q = raised p \<and> reported q = reported p + n"
proof (induction n arbitrary: p k)
  case (Suc n)
  let ?q = "p\<lparr>pollers := (pollers p)[i := Taking]\<rparr>"
  let ?r = "?q\<lparr>irq_count := - int (Suc (Suc k)), reported := Suc (reported p), pollers := (pollers p)[i := Testing]\<rparr>"
  have q: "poll_step p ?q"
    by (rule poll_step.test) (use Suc.prems in \<open>auto simp: poll_ready_def\<close>)
  have "poll_take (irq_count p) = - int (Suc (Suc k))"
    using Suc.prems(1,2) by (simp add: poll_take_def s32_range_def)
  then have r: "poll_step ?q ?r"
    using poll_step.take [of i ?q] Suc.prems(3) by simp
  have "\<exists>s. poll_step\<^sup>*\<^sup>* ?r s \<and> raised s = raised ?r \<and> reported s = reported ?r + n"
    by (rule Suc.IH [of _ "Suc k"]) (use Suc.prems in auto)
  then show ?case using q r by (auto intro: converse_rtranclp_into_rtranclp)
qed (use rtranclp.rtrancl_refl in force)

text \<open>C30. Two programs polling: the test and the decrement are not one step, so that both can report the
  same interrupt.  The counter is then negative, which also counts as ready: from a single interrupt
  any number of reports from 2 up to 2^31 + 1 can follow.\<close>

theorem two_pollers_phantom:
  assumes "n < 2 ^ 31"
  shows "\<exists>p. poll_step\<^sup>*\<^sup>* (poll_start 2) p \<and> raised p = 1 \<and> reported p = n + 2"
proof -
  define a where "a = poll_start 2\<lparr>irq_count := 1, raised := 1\<rparr>"
  define b where "b = a\<lparr>pollers := [Taking, Testing]\<rparr>"
  define c where "c = a\<lparr>pollers := [Taking, Taking]\<rparr>"
  define d where "d = a\<lparr>pollers := [Testing, Taking], irq_count := 0, reported := 1\<rparr>"
  define f where "f = a\<lparr>pollers := [Testing, Testing], irq_count := - 1, reported := 2\<rparr>"
  note defs = a_def b_def c_def d_def f_def poll_start_def
  have "poll_step (poll_start 2) a"
    using interrupt [of "poll_start 2"] by (simp add: defs poll_isr_def s32_range_def)
  moreover have "poll_step a b"
    using poll_step.test [of 0 a] by (simp add: defs poll_ready_def numeral_2_eq_2)
  moreover have "poll_step b c"
    using poll_step.test [of 1 b] by (simp add: defs poll_ready_def)
  moreover have "poll_step c d"
    using poll_step.take [of 0 c] by (simp add: defs poll_take_def s32_range_def)
  moreover have "poll_step d f"
    using poll_step.take [of 1 d] by (simp add: defs poll_take_def s32_range_def numeral_2_eq_2)
  ultimately have f: "poll_step\<^sup>*\<^sup>* (poll_start 2) f" by (meson converse_rtranclp_into_rtranclp rtranclp.rtrancl_refl)
  have "\<exists>p. poll_step\<^sup>*\<^sup>* f p \<and> raised p = raised f \<and> reported p = reported f + n"
    by (rule phantom_reports [of _ 0 _ 0]) (use assms in \<open>simp_all add: defs\<close>)
  with f show ?thesis by (auto simp: f_def a_def add.commute intro: rtranclp_trans)
qed

theorem two_pollers_phantom_witness:
  "\<exists>p. poll_step\<^sup>*\<^sup>* (poll_start 2) p \<and> raised p = 1 \<and> reported p = 1000 + 2"
  by (rule two_pollers_phantom) simp

definition poll_parts :: "resource list" where
  "poll_parts = Misc ''mymodule'' #
     map (Attached (Misc ''mymodule'')) [''gpio_a.0-k1'', ''gpio_a.2-k2'', ''gpio_a.3-k3'']"

text \<open>Loading the poll driver in every environment: when it succeeds, deregistering the misc device
  gives everything back, the interrupts going with it; when an interrupt cannot be had, the load fails
  and keeps the device and the interrupts before it, though the code that serves them goes away.\<close>

theorem poll_module_life:
  "wp (poll_init (recorder e)) ([], v) (\<lambda>status (h, v').
    (if status = 0 then resources h = mset poll_parts \<and>
       wp (poll_exit (recorder e)) (h, v') (\<lambda>_ (h', _). live (resources h') = {#} \<and> unheld_releases h' = [])
     else \<exists>k < length poll_parts. resources h = mset (take k poll_parts)))"
proof -
  have exit: "wp (poll_exit (recorder e)) (h, v') (\<lambda>_ (h', _). live (resources h') = {#} \<and> unheld_releases h' = [])"
    if "resources h = mset poll_parts" "unheld_releases h = []" for h v'
    using that by (auto simp: poll_exit_def poll_parts_def live_def unheld_def intro!: wp_exec_accounted)
  have stop: "\<exists>k < length poll_parts. m = mset (take k poll_parts)"
    if "k < length poll_parts" "m = mset (take k poll_parts)" for m k
    using that by blast
  note stops = stop [of 0, unfolded poll_parts_def, simplified] stop [of 1, unfolded poll_parts_def, simplified]
    stop [of 2, unfolded poll_parts_def, simplified] stop [of 3, unfolded poll_parts_def, simplified]
  show ?thesis
    unfolding poll_init_def request_managed_def device_def
    by (auto simp: wp_simps when_ok_def unheld_def poll_parts_def [symmetric]
        intro!: wp_call_accounted wp_mono [OF exit])
      (auto simp: poll_parts_def intro: stops)
qed

section \<open>Mapping\<close>

text \<open>A mapping is made exactly when it asks for at most a page and the kernel makes it, and then of
  the page of the chip identifier; any other request is answered with \<open>EAGAIN\<close>, the too large ones
  without having asked the kernel.\<close>

theorem mmap_one_page:
  "wp (skeleton_mmap (recorder e) vma) ([], g) (\<lambda>(status, vma') (h, g').
    vma' = vma\<lparr>vm_pgoff := 0x1c14\<rparr> \<and> g' = g \<and>
    (let sz = vm_end vma - vm_start vma; call = Device (Remap_pfn_range (vm_start vma) 0x1c14 sz) in
      (if sz \<le> 4096
       then map fst h = [call] \<and> status = (if fst (e [] call) = 0 then 0 else - EAGAIN)
       else h = [] \<and> status = - EAGAIN)))"
  unfolding skeleton_mmap_def device_def
  by (auto simp: wp_simps when_ok_def Let_def intro!: wp_call)

section \<open>Commands\<close>

lemma commands:
  "SKELETON_IO_RESET = 0x6700" "SKELETON_IO_WR_REF = 0x40506701" "SKELETON_IO_RD_REF = 0x80506702"
  "SKELETON_IO_WR_VAL = 0x40046703" "SKELETON_IO_RD_VAL = 0x80046704" "CONFIG_SZ = 80"
  "IOC_SIZE 0x40506701 = 80" "IOC_SIZE 0x80506702 = 80"
  by (simp_all add: SKELETON_IO_RESET_def SKELETON_IO_WR_REF_def SKELETON_IO_RD_REF_def SKELETON_IO_WR_VAL_def
      SKELETON_IO_RD_VAL_def CONFIG_SZ_def IOC_def IOC_SIZE_def take_bit_eq_mod drop_bit_eq_div push_bit_eq_mult)

definition ioctl_ok :: "ioctl_module \<Rightarrow> bool" where
  "ioctl_ok m \<longleftrightarrow> length (io_config m) = 80 \<and> s32_range (io_val m)"

lemma length_overlay: "length (overlay a b) = max (length a) (length b)"
  by (simp add: overlay_def)

text \<open>The two values are kept apart and read back: after any configuration has been written, and any
  number, whatever the order, the read commands return the configuration and the number; the reset
  returns both to zero.  The copies succeed here.\<close>

theorem ioctl_reads_back:
  assumes "ioctl_ok m" and "length cfg = 80" and "length (user u) = 80" and "copy_out u 80 = 0" and "copy_in w 80 = 0"
    and "user w = cfg" and "s32_range (arg v)"
  defines "m1 \<equiv> fst (snd (skeleton_ioctl SKELETON_IO_WR_VAL v (fst (snd (skeleton_ioctl SKELETON_IO_WR_REF w m)))))"
    and "m2 \<equiv> fst (snd (skeleton_ioctl SKELETON_IO_WR_REF w (fst (snd (skeleton_ioctl SKELETON_IO_WR_VAL v m)))))"
  shows "m1 = m2 \<and> ioctl_ok m1 \<and>
    skeleton_ioctl SKELETON_IO_RD_REF u m1 = (0, m1, cfg) \<and>
    skeleton_ioctl SKELETON_IO_RD_VAL u m1 = (arg v, m1, user u) \<and>
    skeleton_ioctl SKELETON_IO_RD_REF u (fst (snd (skeleton_ioctl SKELETON_IO_RESET u m1))) =
      (0, m1\<lparr>io_val := 0, io_config := replicate 80 NUL\<rparr>, replicate 80 NUL)"
  using assms(1-7) unfolding m1_def m2_def
  by (simp add: skeleton_ioctl_def commands Let_def overlay_def ioctl_ok_def)

theorem ioctl_reads_back_witness:
  "skeleton_ioctl SKELETON_IO_RD_VAL \<lparr>arg = 0, user = replicate 80 NUL, copy_in = (\<lambda>_. 0), copy_out = (\<lambda>_. 0)\<rparr>
     (fst (snd (skeleton_ioctl SKELETON_IO_WR_VAL \<lparr>arg = 7, user = [], copy_in = (\<lambda>_. 0), copy_out = (\<lambda>_. 0)\<rparr>
       (fst (snd (skeleton_ioctl SKELETON_IO_WR_REF \<lparr>arg = 0, user = replicate 80 CHR ''c'', copy_in = (\<lambda>_. 0), copy_out = (\<lambda>_. 0)\<rparr>
         \<lparr>io_config = replicate 80 NUL, io_val = 0\<rparr>))))))
   = (7, \<lparr>io_config = replicate 80 CHR ''c'', io_val = 7\<rparr>, replicate 80 NUL)"
  using ioctl_reads_back [of "\<lparr>io_config = replicate 80 NUL, io_val = 0\<rparr>" "replicate 80 CHR ''c''"
      "\<lparr>arg = 0, user = replicate 80 NUL, copy_in = (\<lambda>_. 0), copy_out = (\<lambda>_. 0)\<rparr>"
      "\<lparr>arg = 0, user = replicate 80 CHR ''c'', copy_in = (\<lambda>_. 0), copy_out = (\<lambda>_. 0)\<rparr>"
      "\<lparr>arg = 7, user = [], copy_in = (\<lambda>_. 0), copy_out = (\<lambda>_. 0)\<rparr>"]
  by (simp add: ioctl_ok_def s32_range_def skeleton_ioctl_def commands Let_def overlay_def)

text \<open>A configuration that could not be copied whole is not reported as an error: the number of missing
  bytes is the (positive) result, and the stored configuration is already overwritten, with zeroes for
  the missing bytes.  An unknown command is an error and changes nothing.\<close>

theorem ioctl_short_copy:
  assumes "ioctl_ok m" and "0 < copy_in u 80" and "copy_in u 80 \<le> 80" and "length (user u) = 80"
    and "cmd \<notin> {SKELETON_IO_RESET, SKELETON_IO_WR_REF, SKELETON_IO_RD_REF, SKELETON_IO_WR_VAL, SKELETON_IO_RD_VAL}"
  shows "skeleton_ioctl SKELETON_IO_WR_REF u m =
      (int (copy_in u 80), m\<lparr>io_config := take (80 - copy_in u 80) (user u) @ replicate (copy_in u 80) NUL\<rparr>, user u) \<and>
    skeleton_ioctl cmd u m = (- EFAULT, m, user u)"
  using assms by (simp add: skeleton_ioctl_def commands Let_def overlay_def ioctl_ok_def copied_in_def min_def)

theorem ioctl_short_copy_witness:
  "fst (skeleton_ioctl SKELETON_IO_WR_REF \<lparr>arg = 0, user = replicate 80 CHR ''c'', copy_in = (\<lambda>_. 5), copy_out = (\<lambda>_. 0)\<rparr>
     \<lparr>io_config = replicate 80 NUL, io_val = 0\<rparr>) = 5"
  using ioctl_short_copy [of "\<lparr>io_config = replicate 80 NUL, io_val = 0\<rparr>"
      "\<lparr>arg = 0, user = replicate 80 CHR ''c'', copy_in = (\<lambda>_. 5), copy_out = (\<lambda>_. 0)\<rparr>" 0]
  by (simp add: ioctl_ok_def s32_range_def commands)

section \<open>Reading a procfs entry\<close>

text \<open>The text at the start of the array on the stack.\<close>

lemma snprintf_text:
  assumes "length s < n" and "n \<le> length stack"
  shows "length (snprintf n s stack) = n" and "take (length s) (snprintf n s stack) = s"
  using assms by (simp_all add: snprintf_def overlay_def)

definition proc_rd :: "string \<Rightarrow> nat \<Rightarrow> nat \<Rightarrow> nat \<Rightarrow> int \<times> string \<times> nat" where
  "proc_rd temp len chunk off =
     (case proc_copy (\<lambda>_. 0) temp (int len) (int chunk) (int off) of
        (n, Some bytes, off') \<Rightarrow> (n, bytes, nat off')
      | _ \<Rightarrow> (- EFAULT, [], off))"

lemma proc_rd_eq:
  assumes "take len temp = s" and "length s = len" and "len < 2 ^ 31" and "off \<le> len"
  shows "proc_rd temp len chunk off =
    (let n = min chunk (len - off) in (int n, take n s, off + n))"
proof -
  have l: "s32 (int len - int off) = int (len - off)"
    using assms(3,4) by (subst s32_id) (auto simp: s32_range_def of_nat_diff)
  have "u64_of (int (len - off)) = int (len - off)" using assms(3) by (intro u64_of_id) auto
  moreover have "s64 (int (len - off)) = int (len - off)" "s64 (int off + int (len - off)) = int len"
    using assms(3,4) by (auto intro!: s64_id simp: of_nat_diff)
  moreover have "s64 (int chunk) = int chunk" "s64 (int off + int chunk) = int (off + chunk)" if "chunk \<le> len - off"
    using assms(3,4) that by (auto intro!: s64_id)
  moreover have "len \<le> length temp" using assms(1,2) by (metis length_take min.absorb_iff2 min.commute)
  moreover have "take n temp = take n s" if "n \<le> len" for n
    using assms(1) that by (metis min.absorb1 take_take)
  moreover have "nat (int len - int off) = len - off" by simp
  ultimately show ?thesis
    using assms(2,4) l by (auto simp: proc_rd_def proc_copy_def Let_def view_def min_def)
qed

text \<open>Every read copies from the start of the text instead of from the position, so that a program
  that reads in pieces smaller than the text gets the first piece again and again, and at the end the
  start of the text once more: the text is right only when one read takes all of it.\<close>

theorem proc_read_repeats:
  assumes "take (length s) temp = s" and "length s < 2 ^ 31" and "0 < chunk" and "length s < fuel"
  shows "read_to_end fuel (proc_rd temp (length s)) chunk 0 =
    Some (concat (replicate (length s div chunk) (take chunk s)) @ take (length s mod chunk) s)"
proof -
  have "off \<le> length s \<Longrightarrow> length s - off < fuel \<Longrightarrow> read_to_end fuel (proc_rd temp (length s)) chunk off =
      Some (concat (replicate ((length s - off) div chunk) (take chunk s)) @ take ((length s - off) mod chunk) s)" for off
  proof (induction fuel arbitrary: off)
    case (Suc fuel)
    note r = proc_rd_eq [OF assms(1) refl assms(2) Suc.prems(1), of chunk]
    consider "off = length s" | "off < length s" "length s - off < chunk" | "off < length s" "chunk \<le> length s - off"
      using Suc.prems(1) by linarith
    then show ?case
    proof cases
      case 1
      then show ?thesis using r by simp
    next
      case 2
      moreover have "read_to_end fuel (proc_rd temp (length s)) chunk (length s) = Some []"
        using Suc.IH [of "length s"] 2 Suc.prems by simp
      ultimately show ?thesis using r by (simp add: Let_def)
    next
      case 3
      then have "(length s - off) div chunk = Suc ((length s - (off + chunk)) div chunk)"
        "(length s - off) mod chunk = (length s - (off + chunk)) mod chunk"
        using assms(3) by (simp_all add: le_div_geq le_mod_geq)
      then show ?thesis
        using 3 r Suc.IH [of "off + chunk"] Suc.prems assms(3) by (simp add: Let_def)
    qed
  qed simp
  from this [of 0] assms(4) show ?thesis by simp
qed

theorem proc_read_repeats_witness:
  "read_to_end 9 (proc_rd (snprintf 20 ''12345'' (replicate 40 CHR ''z'')) (length ''12345'')) 3 0 = Some ''12312''"
  using proc_read_repeats [of "''12345''" "snprintf 20 ''12345'' (replicate 40 CHR ''z'')" 3 9]
  by (simp add: snprintf_def overlay_def)

text \<open>Past the end of the text (a position that the user chooses) the remaining length is negative and
  the count is not limited: the read returns as many bytes as asked for from the stack, and for more
  than the array holds from the memory behind it.\<close>

theorem proc_read_past_end:
  assumes "int len < off" and "off < 2 ^ 31" and "0 \<le> sz" and "sz < 2 ^ 31"
  shows "proc_copy (\<lambda>_. 0) temp (int len) sz off = (sz, view temp 0 sz, off + sz)"
proof -
  have "s32 (int len - off) = int len - off" using assms(1,2) by (intro s32_id) (simp add: s32_range_def)
  moreover have "u64_of (int len - off) = int len - off + 2 ^ 64" using assms(1,2) by (intro u64_of_negative) auto
  ultimately show ?thesis
    using assms by (auto simp: proc_copy_def Let_def s64_id)
qed

theorem proc_read_past_end_witness:
  "proc_copy (\<lambda>_. 0) (replicate 20 CHR ''k'') (int 3) 64 4 = (64, None, 68)"
  using proc_read_past_end [of 3 4 64] by (simp add: view_def)

lemma simple_strtol_fmt_d:
  assumes "- (2 ^ 63) \<le> i" and "i < 2 ^ 63" and "rest = [] \<or> \<not> is_digit (hd rest)"
  shows "simple_strtol (fmt_d i @ rest) = i"
proof (cases "i < 0")
  case True
  then show ?thesis
    using assms by (simp add: simple_strtol_def fmt_d_def digits_val_fmt_u s64_id)
next
  case False
  obtain c cs where c: "fmt_u (nat i) = c # cs" by (cases "fmt_u (nat i)") auto
  with is_digit_not_special [OF fmt_u_Cons_digit] have "c \<noteq> CHR ''-''" by blast
  moreover have "digits_val (c # cs @ rest) = nat i"
    using digits_val_fmt_u [OF assms(3), of "nat i"] by (simp add: c)
  ultimately show ?thesis
    using False assms(2) by (simp add: simple_strtol_def fmt_d_def c s64_id)
qed

text \<open>Round trip: a number written with its newline is read back, in one read of the entry, whatever the
  stack held.\<close>

theorem proc_val_round_trip:
  assumes "s32_range v" and "20 \<le> length stack'" and "20 \<le> sz" and "sz < 2 ^ 31"
  shows "case write_val False stack (fmt_d v @ [NL]) old of (n, val) \<Rightarrow>
    n = int (length (fmt_d v @ [NL])) \<and> val = v \<and>
    read_val (\<lambda>_. 0) stack' val sz 0 = (n, Some (fmt_d v @ [NL]), n)"
proof -
  define t where "t = fmt_d v @ [NL]"
  have len: "length t \<le> 12" "NUL \<notin> set t" using length_fmt_d [OF assms(1)] fmt_d_no_NUL by (simp_all add: t_def)
  have "c_str (overlay t stack) = fmt_d v @ NL # c_str (drop (length t) stack)"
    using len(2) by (simp add: overlay_def c_str_def t_def takeWhile_append)
  then have "simple_strtol (c_str (overlay t stack)) = v"
    using assms(1) simple_strtol_fmt_d [of v "NL # c_str (drop (length t) stack)"]
    by (simp add: s32_range_def is_digit_def)
  then have w: "write_val False stack t old = (int (length t), v)"
    using len assms(1) by (simp add: write_val_def)
  have temp: "take (length t) (snprintf 20 t stack') = t" "length (snprintf 20 t stack') = 20"
    using len(1) assms(2) by (simp_all add: snprintf_text)
  have "read_val (\<lambda>_. 0) stack' v sz 0 = (int (length t), Some t, int (length t))"
    using assms(3,4) len(1) temp
    by (simp add: read_val_def t_def [symmetric] proc_copy_def Let_def s32_range_def u64_of_id s64_id view_def)
  with w show ?thesis by (simp add: t_def)
qed

theorem proc_val_round_trip_witness:
  "case write_val False (replicate 30 CHR ''7'') (fmt_d (- 42) @ [NL]) 55 of (n, val) \<Rightarrow> val = - 42"
  using proc_val_round_trip [of "- 42" "replicate 30 CHR ''7''" 64 "replicate 30 CHR ''7''" 55]
  by (simp add: s32_range_def split: prod.splits)

text \<open>Without the newline the digits that the stack happens to hold behind the text belong to the number.\<close>

lemma write_val_unterminated:
  "write_val False (CHR ''x'' # CHR ''x'' # ''34'' @ [NUL]) ''12'' old = (2, 1234)"
  by (simp add: write_val_def overlay_def c_str_def simple_strtol_def digits_val_def is_digit_def digit_val_def
      s64_def s32_range_def)

section \<open>The procfs directory\<close>

text \<open>The life of the entries: with the directory, loading and unloading are balanced; without it the
  entries are created in the root of procfs, the load is refused, and they stay there.\<close>

theorem proc_entries:
  assumes "\<forall>h d s. fst (e h (Device (Proc_create d s))) \<noteq> 0" and "\<forall>h. fst (e h (Device (Proc_mkdir ''mymodule''))) = d"
  shows "wp (proc_init (recorder e)) ([], v) (\<lambda>r (h, v').
    if d = 0 then r = - EFAULT \<and> resources h = {#Proc_entry 0 ''config'', Proc_entry 0 ''val''#}
    else r = 0 \<and> wp (proc_exit (recorder e)) (h, v') (\<lambda>_ (h', _). resources h' = {#} \<and> unheld_releases h' = []))"
  using assms unfolding proc_init_def proc_exit_def device_def
  by (auto simp: wp_simps unheld_def add_mset_commute intro!: wp_call_accounted wp_exec_accounted)

theorem proc_entries_witness:
  "wp (proc_init (recorder (\<lambda>h c. (if c = Device (Proc_mkdir ''mymodule'') then 0 else 1, [])))) ([], v) (\<lambda>r (h, v').
    resources h = {#Proc_entry 0 ''config'', Proc_entry 0 ''val''#})"
  by (rule wp_mono [OF proc_entries [where d = 0]]) auto

text \<open>The modules of exercises 8 and 9 report success whatever failed; unloading then gives back what was
  never had.\<close>

lemma ioctl_failure_hidden:
  assumes "\<forall>h s b n. fst (e h (Alloc_chrdev_region s b n)) < 0"
  shows "wp (do { r \<leftarrow> ioctl_init (recorder e); ioctl_exit (recorder e); return r }) ([], d) (\<lambda>r (h, _).
    r = 0 \<and> unheld_releases h = [Cdev 0, Region])"
  using assms unfolding ioctl_init_def ioctl_exit_def wp_simps
  by (auto simp: wp_simps when_ok_def unheld_def less_imp_neq intro!: wp_sys_accounted wp_exec_accounted)

end
