(* ===== verification/Course_Modules.thy ===== *)
theory Course_Modules
  imports Lab_Modules Course_Platform
begin

text \<open>
  The course's solutions of the module exercises, \<^verbatim>\<open>teacher_solutions/02_modules\<close>: exercise 4 (a list of
  elements that hold their text), 5 (registers, with the reservation of their memory), 6 and 7
  (threads) and 8 (interrupts).  As in \<open>Lab_Modules\<close>, the log is part of the behaviour.
\<close>

section \<open>Exercise 4: a list of elements\<close>

text \<open>The text is an array in the element; it was zeroed, so that it is terminated.\<close>

record course_element =
  ce_self :: int
  ce_nr :: int
  ce_text :: string

record course_list =
  cl_text :: string
  cl_elements :: int
  my_list :: "course_element list"

primrec course_create :: "nat \<Rightarrow> int \<Rightarrow> ('w, mcall) os \<Rightarrow> ('w, course_list, unit) prog" where
  "course_create 0 i os = return ()"
| "course_create (Suc n) i os = do {
     m \<leftarrow> getg;
     p \<leftarrow> sysi os (Kmalloc 120);
     (if p \<noteq> 0 then
        modg (\<lambda>m. m\<lparr>my_list := my_list m @
          [\<lparr>ce_self = p, ce_nr = i, ce_text = strncpy 99 (cl_text m) (replicate 100 NUL)\<rparr>]\<rparr>)
      else return ());
     course_create n (i + 1) os }"

definition course_list_init :: "('w, mcall) os \<Rightarrow> ('w, course_list, int) prog" where
  "course_list_init os = do {
     m \<leftarrow> getg;
     pr_info os (''Linux module 04 skeleton loaded'' @ [NL]);
     pr_info os (''  text: '' @ cl_text m @ [NL] @ ''  elements: '' @ fmt_d (cl_elements m) @ [NL]);
     course_create (nat (cl_elements m)) 0 os;
     return 0 }"

definition element_line :: "int \<Rightarrow> int \<Rightarrow> course_element \<Rightarrow> string" where
  "element_line nb total_nb ele =
     ''ele ['' @ fmt_d nb @ ''/'' @ fmt_d (ce_nr ele) @ ''/'' @ fmt_d total_nb @ ''] = '' @
     c_str (ce_text ele) @ [NL]"

text \<open>Counting and printing; the result is the number of elements.\<close>

primrec print_elements ::
    "course_element list \<Rightarrow> int \<Rightarrow> ('w, mcall) os \<Rightarrow> ('w, course_list, int) prog" where
  "print_elements [] nb os = return nb"
| "print_elements (ele # es) nb os = do {
     m \<leftarrow> getg;
     pr_info os (element_line nb (cl_elements m) ele);
     print_elements es (nb + 1) os }"

text \<open>The loop until the list is empty takes its elements from the front.\<close>

definition free_first :: "('w, mcall) os \<Rightarrow> course_element \<Rightarrow> ('w, course_list, unit) prog" where
  "free_first os ele = do {
     modg (\<lambda>m. m\<lparr>my_list := tl (my_list m)\<rparr>);
     kfree os (ce_self ele) }"

definition course_list_exit :: "('w, mcall) os \<Rightarrow> ('w, course_list, unit) prog" where
  "course_list_exit os = do {
     m \<leftarrow> getg;
     nb \<leftarrow> print_elements (my_list m) 0 os;
     for_each (my_list m) (free_first os);
     pr_info os (''All elements ('' @ fmt_d nb @ ''/'' @ fmt_d (cl_elements m) @
       '') of the list have been removed and deleted!'' @ [NL]);
     pr_info os (''Linux module skeleton unloaded'' @ [NL]) }"

section \<open>Exercise 5: processor registers\<close>

text \<open>The static is the pointer of the reserved region, 0 when it could not be reserved.\<close>

definition course_temp :: "nat \<Rightarrow> int" where
  "course_temp raw = cdiv (s32 (- 1191 * s32 (int raw))) 10 + 223000"

definition course_chip_line :: "nat \<Rightarrow> nat \<Rightarrow> nat \<Rightarrow> nat \<Rightarrow> string" where
  "course_chip_line a b c d = ''chipid='' @ zero_pad 8 (fmt_x a) @ [CHR 0x27] @ zero_pad 8 (fmt_x b) @
     [CHR 0x27] @ zero_pad 8 (fmt_x c) @ [CHR 0x27] @ zero_pad 8 (fmt_x d) @ [NL]"

definition course_temp_line :: "nat \<Rightarrow> nat \<Rightarrow> string" where
  "course_temp_line raw again =
     ''temperature='' @ fmt_d (course_temp raw) @ '' ('' @ fmt_d (s32 (int again)) @ '')'' @ [NL]"

definition course_mac_line :: "nat \<Rightarrow> nat \<Rightarrow> string" where
  "course_mac_line lo hi = ''mac-addr='' @
     zero_pad 2 (fmt_x (byte_of hi 0)) @ '':'' @ zero_pad 2 (fmt_x (byte_of hi 8)) @ '':'' @
     zero_pad 2 (fmt_x (byte_of hi 16)) @ '':'' @ zero_pad 2 (fmt_x (byte_of hi 24)) @ '':'' @
     zero_pad 2 (fmt_x (byte_of lo 0)) @ '':'' @ zero_pad 2 (fmt_x (byte_of lo 8)) @ [NL]"

definition course_registers_init :: "('w, mcall) os \<Rightarrow> ('w, int, int) prog" where
  "course_registers_init os = do {
     pr_info os (''Linux module 05 skeleton loaded'' @ [NL]);
     res \<leftarrow> sysi os (Device (Request_mem_region 0x01c14000 0x1000));
     modg (\<lambda>_. res);
     (if res = 0 then
        pr_info os (''Error while reserving memory region... [0]=1, [1]=1, [2]=1'' @ [NL])
      else return ());
     r0 \<leftarrow> sysi os (Ioremap 0x01c14000 0x1000);
     r1 \<leftarrow> sysi os (Ioremap 0x01c25000 0x1000);
     r2 \<leftarrow> sysi os (Ioremap 0x01c30000 0x1000);
     if r0 = 0 \<or> r1 = 0 \<or> r2 = 0 then do {
       pr_info os (''Error while trying to map processor register...'' @ [NL]);
       return (- EFAULT) }
     else do {
       c0 \<leftarrow> ioread32 os (r0 + 0x200);
       c1 \<leftarrow> ioread32 os (r0 + 0x204);
       c2 \<leftarrow> ioread32 os (r0 + 0x208);
       c3 \<leftarrow> ioread32 os (r0 + 0x20c);
       pr_info os (course_chip_line c0 c1 c2 c3);
       t \<leftarrow> ioread32 os (r1 + 0x80);
       t' \<leftarrow> ioread32 os (r1 + 0x80);
       pr_info os (course_temp_line t t');
       m0 \<leftarrow> ioread32 os (r2 + 0x50);
       m1 \<leftarrow> ioread32 os (r2 + 0x54);
       pr_info os (course_mac_line m0 m1);
       iounmap os r0;
       iounmap os r1;
       iounmap os r2;
       return 0 } }"

definition course_registers_exit :: "('w, mcall) os \<Rightarrow> ('w, int, unit) prog" where
  "course_registers_exit os = do {
     pr_info os (''Linux module skeleton unloaded'' @ [NL]);
     res \<leftarrow> getg;
     if res \<noteq> 0 then exec os (Device (Release_mem_region 0x01c14000 0x1000)) else return () }"

section \<open>Exercise 6: a thread\<close>

primrec course_thread_loop :: "nat \<Rightarrow> ('w, mcall) os \<Rightarrow> ('w, 'g, int option) prog" where
  "course_thread_loop 0 os = return None"
| "course_thread_loop (Suc fuel) os = do {
     stop \<leftarrow> sysi os Kthread_should_stop;
     if stop \<noteq> 0 then return (Some 0)
     else do {
       exec os (Ssleep 5);
       pr_info os (''skeleton thread is kick every 5 seconds...'' @ [NL]);
       course_thread_loop fuel os } }"

definition course_thread :: "nat \<Rightarrow> ('w, mcall) os \<Rightarrow> ('w, 'g, int option) prog" where
  "course_thread fuel os = do {
     pr_info os (''skeleton thread is now active...'' @ [NL]);
     course_thread_loop fuel os }"

definition course_thread_init :: "('w, mcall) os \<Rightarrow> ('w, int, int) prog" where
  "course_thread_init os = do {
     pr_info os (''Linux module 06 skeleton loaded'' @ [NL]);
     t \<leftarrow> sysi os (Kthread_run ''s/thread'');
     modg (\<lambda>_. t);
     return 0 }"

definition course_thread_exit :: "('w, mcall) os \<Rightarrow> ('w, int, unit) prog" where
  "course_thread_exit os = do {
     t \<leftarrow> getg;
     exec os (Kthread_stop t);
     pr_info os (''Linux module skeleton unloaded'' @ [NL]) }"

section \<open>Exercise 7: two threads\<close>

record course_kick_module =
  my_thread_0 :: int
  my_thread_1 :: int

definition course_kick_init :: "('w, mcall) os \<Rightarrow> ('w, course_kick_module, int) prog" where
  "course_kick_init os = do {
     pr_info os (''Linux module 07 skeleton loaded'' @ [NL]);
     t \<leftarrow> sysi os (Kthread_run ''s/thread/1'');
     modg (\<lambda>m. m\<lparr>my_thread_0 := t\<rparr>);
     t \<leftarrow> sysi os (Kthread_run ''s/thread/2'');
     modg (\<lambda>m. m\<lparr>my_thread_1 := t\<rparr>);
     return 0 }"

definition course_kick_exit :: "('w, mcall) os \<Rightarrow> ('w, course_kick_module, unit) prog" where
  "course_kick_exit os = do {
     m \<leftarrow> getg;
     exec os (Kthread_stop (my_thread_1 m));
     exec os (Kthread_stop (my_thread_0 m));
     pr_info os (''Linux module skeleton unloaded'' @ [NL]) }"

text \<open>
  The threads, one step for each access to what they share.  Thread 1 is at its loop test, about to
  evaluate the condition of \<open>wait_event_interruptible\<close>, asleep, or about to decrement the counter;
  thread 2 is at its loop test, sleeping, about to set the counter or about to wake the queue.
\<close>

datatype waiter = At_test | At_check | Asleep | At_dec | Waiter_ended
datatype kicker = Loop_test | Sleeping | At_set | At_wake | Kicker_ended

record kicked =
  kick_count :: int
  stop_waiter :: bool
  stop_kicker :: bool
  waiter_at :: waiter
  kicker_at :: kicker

definition wake_queue :: "kicked \<Rightarrow> kicked" where
  "wake_queue k = (if waiter_at k = Asleep then k\<lparr>waiter_at := At_check\<rparr> else k)"

definition skeleton_thread_1 :: "kicked \<Rightarrow> kicked" where
  "skeleton_thread_1 k = (case waiter_at k of
       At_test \<Rightarrow> k\<lparr>waiter_at := (if stop_waiter k then Waiter_ended else At_check)\<rparr>
     | At_check \<Rightarrow> k\<lparr>waiter_at := (if kick_count k \<noteq> 0 \<or> stop_waiter k then At_dec else Asleep)\<rparr>
     | Asleep \<Rightarrow> k
     | At_dec \<Rightarrow> k\<lparr>waiter_at := At_test, kick_count := s32 (kick_count k - 1)\<rparr>
     | Waiter_ended \<Rightarrow> k)"

text \<open>A signal ends the wait with \<open>-ERESTARTSYS\<close>, and the thread with it.\<close>

definition waiter_signal :: "kicked \<Rightarrow> kicked" where
  "waiter_signal k = (if waiter_at k = Asleep then k\<lparr>waiter_at := Waiter_ended\<rparr> else k)"

definition skeleton_thread_2 :: "kicked \<Rightarrow> kicked" where
  "skeleton_thread_2 k = (case kicker_at k of
       Loop_test \<Rightarrow> k\<lparr>kicker_at := (if stop_kicker k then Kicker_ended else Sleeping)\<rparr>
     | Sleeping \<Rightarrow> k\<lparr>kicker_at := At_set\<rparr>
     | At_set \<Rightarrow> k\<lparr>kicker_at := At_wake, kick_count := 1\<rparr>
     | At_wake \<Rightarrow> wake_queue (k\<lparr>kicker_at := Loop_test\<rparr>)
     | Kicker_ended \<Rightarrow> k)"

text \<open>Unloading stops thread 2, waits for its end, then stops thread 1.\<close>

inductive kicked_step :: "kicked \<Rightarrow> kicked \<Rightarrow> bool" where
  "kicked_step k (skeleton_thread_1 k)"
| "kicked_step k (waiter_signal k)"
| "kicked_step k (skeleton_thread_2 k)"
| "kicked_step k (k\<lparr>stop_kicker := True\<rparr>)"
| "kicker_at k = Kicker_ended \<Longrightarrow> kicked_step k (wake_queue (k\<lparr>stop_waiter := True\<rparr>))"

inductive_cases kicked_stepE: "kicked_step k l"

definition kicked_start :: kicked where
  "kicked_start = \<lparr>kick_count = 0, stop_waiter = False, stop_kicker = False, waiter_at = At_test, kicker_at = Loop_test\<rparr>"

section \<open>Exercise 8: interrupts\<close>

text \<open>The name of the interrupt is also its device identifier: a pointer, here 1 to 3.\<close>

definition course_isr_line :: "string \<Rightarrow> string" where
  "course_isr_line handle = ''interrupt '' @ handle @ '' raised...'' @ [NL]"

definition course_request ::
    "('w, mcall) os \<Rightarrow> nat \<Rightarrow> string \<Rightarrow> string \<Rightarrow> nat \<Rightarrow> int \<Rightarrow> ('w, 'g, int) prog" where
  "course_request os k name label handle status = do {
     status \<leftarrow> when_ok status (sysi os (Pin_request k name));
     when_ok status (do {
       irq \<leftarrow> sysi os (Pin_to_irq k);
       sysi os (Request_irq_shared irq label handle) }) }"

definition course_irq_init :: "('w, mcall) os \<Rightarrow> ('w, 'g, int) prog" where
  "course_irq_init os = do {
     status \<leftarrow> course_request os K1 ''k1'' ''gpio_a.0-k1'' 1 0;
     status \<leftarrow> course_request os K2 ''k2'' ''gpio_a.2-k2'' 2 status;
     status \<leftarrow> course_request os K3 ''k3'' ''gpio_a.3-k3'' 3 status;
     pr_info os (''Linux module 08 skeleton loaded'' @ [NL]);
     return status }"

definition course_release_irq :: "('w, mcall) os \<Rightarrow> nat \<Rightarrow> nat \<Rightarrow> ('w, 'g, unit) prog" where
  "course_release_irq os k handle = do {
     exec os (Pin_free k);
     irq \<leftarrow> sysi os (Pin_to_irq k);
     exec os (Free_irq irq handle) }"

definition course_irq_exit :: "('w, mcall) os \<Rightarrow> ('w, 'g, unit) prog" where
  "course_irq_exit os = do {
     course_release_irq os K1 1;
     course_release_irq os K2 2;
     course_release_irq os K3 3;
     pr_info os (''Linux module skeleton unloaded'' @ [NL]) }"

section \<open>Properties\<close>

lemma wp_pr_info_logged:
  assumes "\<And>h'. resources h' = resources h \<Longrightarrow> unheld_releases h' = unheld_releases h \<Longrightarrow>
    printed h' = printed h @ [s] \<Longrightarrow> Q () (h', g)"
  shows "wp (pr_info (recorder e) s) (h, g) Q"
  unfolding pr_info_def wp_simps by (rule wp_call_logged, rule assms) (simp_all add: unheld_def)

subsection \<open>The list\<close>

definition course_memory :: "course_element list \<Rightarrow> resource multiset" where
  "course_memory es = mset (map (\<lambda>x. Memory (ce_self x)) es)"

lemma course_memory_simps [simp]:
  "course_memory [] = {#}" "course_memory (x # es) = add_mset (Memory (ce_self x)) (course_memory es)"
  "course_memory (es @ fs) = course_memory es + course_memory fs"
  by (simp_all add: course_memory_def)

text \<open>The elements whose memory could be had, in order, each with its number and the text cut to 99
  characters.\<close>

definition course_list_ok :: "string \<Rightarrow> int \<Rightarrow> course_element list \<Rightarrow> bool" where
  "course_list_ok txt n es \<longleftrightarrow> sorted_wrt (\<lambda>a b. ce_nr a < ce_nr b) es \<and>
     (\<forall>x \<in> set es. 0 \<le> ce_nr x \<and> ce_nr x < n \<and> ce_self x \<noteq> 0 \<and> c_str (ce_text x) = take 99 (c_str txt))"

lemma strncpy_element: "c_str (strncpy 99 txt (replicate 100 NUL)) = take 99 (c_str txt)"
proof -
  have "NUL \<notin> set (c_str txt)" by (auto simp: c_str_def dest: set_takeWhileD)
  then have n: "NUL \<notin> set (take 99 (c_str txt))" by (meson in_set_takeD)
  have "replicate (99 - k) NUL @ [NUL] = replicate (100 - k) NUL" if "k \<le> 99" for k :: nat
  proof -
    have "100 - k = Suc (99 - k)" using that by simp
    then show ?thesis by (simp add: replicate_append_same)
  qed
  then have "strncpy 99 txt (replicate 100 NUL) = take 99 (c_str txt) @ replicate (100 - length (take 99 (c_str txt))) NUL"
    by (simp add: strncpy_def overlay_def min_def)
  moreover have "100 - length (take 99 (c_str txt)) = Suc (99 - length (take 99 (c_str txt)))" by simp
  then have "replicate (100 - length (take 99 (c_str txt))) NUL = NUL # replicate (99 - length (take 99 (c_str txt))) NUL"
    by (simp only: replicate_Suc)
  ultimately show ?thesis using n by simp
qed

lemma wp_course_create:
  assumes "0 \<le> i" and "resources h = course_memory (my_list m)" and "course_list_ok (cl_text m) i (my_list m)"
    and "\<And>h' es. resources h' = course_memory es \<Longrightarrow> unheld_releases h' = unheld_releases h \<Longrightarrow>
      printed h' = printed h \<Longrightarrow> course_list_ok (cl_text m) (i + int n) es \<Longrightarrow> Q () (h', m\<lparr>my_list := es\<rparr>)"
  shows "wp (course_create n i (recorder e)) (h, m) Q"
  using assms
proof (induction n arbitrary: i h m)
  case 0
  then show ?case using 0(4) [of h "my_list m"] by (simp add: wp_simps)
next
  case (Suc n)
  note finish = Suc.prems(4)
  have IH: "wp (course_create n (i + 1) (recorder e)) (h', m\<lparr>my_list := es\<rparr>) Q"
    if "resources h' = course_memory es" "course_list_ok (cl_text m) (i + 1) es"
      "unheld_releases h' = unheld_releases h" "printed h' = printed h" for h' es
    using that Suc.prems(1) by (intro Suc.IH) (auto simp: add.assoc intro!: finish)
  have skip: "wp (course_create n (i + 1) (recorder e)) (h', m) Q"
    if "resources h' = course_memory (my_list m)" "unheld_releases h' = unheld_releases h" "printed h' = printed h" for h'
    using IH [of h' "my_list m"] that Suc.prems(3) by (fastforce simp: course_list_ok_def)
  have ok: "course_list_ok (cl_text m) (i + 1) (my_list m @ [\<lparr>ce_self = p, ce_nr = i, ce_text = strncpy 99 (cl_text m) (replicate 100 NUL)\<rparr>])"
    if "p \<noteq> 0" for p
    using that Suc.prems(1,3) by (auto simp: course_list_ok_def sorted_wrt_append strncpy_element)
  show ?case
    using Suc.prems(2) unfolding course_create.simps wp_simps
    by (auto simp: wp_simps unheld_def intro!: wp_call_logged IH skip ok)
qed

primrec element_lines :: "int \<Rightarrow> int \<Rightarrow> course_element list \<Rightarrow> string list" where
  "element_lines nb n [] = []"
| "element_lines nb n (x # es) = element_line nb n x # element_lines (nb + 1) n es"

lemma wp_print_elements:
  assumes "\<And>h'. resources h' = resources h \<Longrightarrow> unheld_releases h' = unheld_releases h \<Longrightarrow>
    printed h' = printed h @ element_lines nb (cl_elements m) es \<Longrightarrow> Q (nb + int (length es)) (h', m)"
  shows "wp (print_elements es nb (recorder e)) (h, m) Q"
  using assms
proof (induction es arbitrary: nb h)
  case Nil
  then show ?case by (simp add: wp_simps)
next
  case (Cons x es)
  note finish = Cons.prems
  show ?case
    unfolding print_elements.simps wp_simps
    by (rule wp_pr_info_logged, rule Cons.IH) (use finish in \<open>simp add: ac_simps\<close>)
qed

lemma wp_free_first:
  assumes "Memory (ce_self x) \<in># resources h" and "ce_self x \<noteq> 0"
    and "\<And>h'. resources h' = resources h - {#Memory (ce_self x)#} \<Longrightarrow> unheld_releases h' = unheld_releases h \<Longrightarrow>
      printed h' = printed h \<Longrightarrow> Q () (h', m\<lparr>my_list := tl (my_list m)\<rparr>)"
  shows "wp (free_first (recorder e) x) (h, m) Q"
  unfolding free_first_def kfree_def wp_simps
  by (rule wp_call_logged, rule assms(3)) (use assms(1,2) in \<open>simp_all add: unheld_def\<close>)

lemma wp_free_elements:
  assumes "resources h = course_memory es" and "\<forall>x \<in> set es. ce_self x \<noteq> 0" and "my_list m = es"
    and "\<And>h'. resources h' = {#} \<Longrightarrow> unheld_releases h' = unheld_releases h \<Longrightarrow> printed h' = printed h \<Longrightarrow>
      Q () (h', m\<lparr>my_list := []\<rparr>)"
  shows "wp (for_each es (free_first (recorder e))) (h, m) Q"
  using assms
proof (induction es arbitrary: h m)
  case Nil
  then have "m\<lparr>my_list := []\<rparr> = m" by (cases m) simp
  moreover have "Q () (h, m\<lparr>my_list := []\<rparr>)" by (rule Nil(4)) (use Nil(1) in simp_all)
  ultimately show ?case by (simp only: wp_simps)
next
  case (Cons x es)
  note finish = Cons.prems(4)
  have IH: "wp (for_each es (free_first (recorder e))) (h', m\<lparr>my_list := es\<rparr>) Q"
    if "resources h' = course_memory es" "unheld_releases h' = unheld_releases h" "printed h' = printed h" for h'
    using that Cons.prems(2) by (intro Cons.IH) (auto intro!: finish)
  show ?case
    using Cons.prems(1-3) unfolding wp_for_each_Cons by (auto intro!: wp_free_first IH)
qed

text \<open>Exercise 4 in every environment: the list holds the elements whose memory could be had, in order
  and with their texts; unloading prints each of them once, with its position in the list, then their
  number, and gives back all the memory and nothing else.\<close>

theorem course_list_report:
  shows "wp (course_list_init (recorder e)) ([], \<lparr>cl_text = txt, cl_elements = n, my_list = []\<rparr>) (\<lambda>r (h, m).
    r = 0 \<and> course_list_ok txt (max 0 n) (my_list m) \<and>
    wp (course_list_exit (recorder e)) (h, m) (\<lambda>_ (h', m').
      resources h' = {#} \<and> unheld_releases h' = [] \<and> my_list m' = [] \<and>
      printed h' = printed h @ element_lines 0 n (my_list m) @
        [''All elements ('' @ fmt_d (int (length (my_list m))) @ ''/'' @ fmt_d n @
           '') of the list have been removed and deleted!'' @ [NL],
         ''Linux module skeleton unloaded'' @ [NL]]))"
proof -
  have exit: "wp (course_list_exit (recorder e)) (h, m) (\<lambda>_ (h', m').
      resources h' = {#} \<and> unheld_releases h' = [] \<and> my_list m' = [] \<and>
      printed h' = printed h @ element_lines 0 n (my_list m) @
        [''All elements ('' @ fmt_d (int (length (my_list m))) @ ''/'' @ fmt_d n @
           '') of the list have been removed and deleted!'' @ [NL],
         ''Linux module skeleton unloaded'' @ [NL]])"
    if "resources h = course_memory (my_list m)" "unheld_releases h = []" "cl_elements m = n"
      "course_list_ok txt k (my_list m)" for h m k
    unfolding course_list_exit_def wp_simps
    by (intro wp_print_elements wp_free_elements wp_pr_info_logged)
      (use that in \<open>auto simp: course_list_ok_def wp_simps simp del: append_Cons intro!: wp_pr_info_logged\<close>)
  have "int (nat n) = max 0 n" by simp
  then show ?thesis
    unfolding course_list_init_def wp_simps
    by (intro wp_pr_info_logged wp_course_create)
      (auto simp: course_list_ok_def wp_simps simp del: append_Cons intro!: wp_mono [OF exit])
qed

subsection \<open>The registers\<close>

definition mappings :: "int list \<Rightarrow> resource multiset" where
  "mappings ps = mset (map Mapping (filter (\<lambda>p. p \<noteq> 0) ps))"

definition region_of :: "int \<Rightarrow> resource multiset" where
  "region_of res = (if res = 0 then {#} else {#Io_region 0x01c14000#})"

lemma wp_iounmap:
  assumes "Mapping p \<in># resources h" and "\<And>h'. resources h' = resources h - {#Mapping p#} \<Longrightarrow>
      unheld_releases h' = unheld_releases h \<Longrightarrow> Q () (h', g)"
  shows "wp (iounmap (recorder e) p) (h, g) Q"
  unfolding iounmap_def wp_simps
  by (rule wp_call_accounted, rule assms(2)) (use assms(1) in \<open>simp_all add: unheld_def\<close>)

lemma wp_ioread32:
  assumes "\<And>v h'. resources h' = resources h \<Longrightarrow> unheld_releases h' = unheld_releases h \<Longrightarrow> Q v (h', g)"
  shows "wp (ioread32 (recorder e) a) (h, g) Q"
  unfolding ioread32_def wp_simps by (rule wp_call_accounted, rule assms) (simp_all add: unheld_def)

text \<open>At least one of the three areas could not be mapped.\<close>

definition partly_mapped :: "resource multiset \<Rightarrow> int \<Rightarrow> bool" where
  "partly_mapped m res \<longleftrightarrow>
     (\<exists>r0 r1 r2. (r0 = 0 \<or> r1 = 0 \<or> r2 = 0) \<and> m = region_of res + mappings [r0, r1, r2])"

lemma partly_mapped:
  "partly_mapped (region_of res) res"
  "p \<noteq> 0 \<Longrightarrow> partly_mapped (add_mset (Mapping p) (region_of res)) res"
  "p \<noteq> 0 \<Longrightarrow> q \<noteq> 0 \<Longrightarrow> partly_mapped (add_mset (Mapping p) (add_mset (Mapping q) (region_of res))) res"
  unfolding partly_mapped_def mappings_def
  by (rule exI [of _ 0], rule exI [of _ 0], rule exI [of _ 0], simp)
    (rule exI [of _ 0], rule exI [of _ 0], rule exI [of _ p], simp,
     rule exI [of _ 0], rule exI [of _ q], rule exI [of _ p], simp add: add_mset_commute)

text \<open>Exercise 5 in every environment: when the load succeeds only the reservation is left, if it could
  be had, and unloading gives it back; when a register area cannot be mapped, the load fails and keeps
  the reservation and the areas that were mapped.\<close>

theorem course_registers_life:
  shows "wp (course_registers_init (recorder e)) ([], g) (\<lambda>r (h, res).
    (if r = 0 then resources h = region_of res \<and>
       wp (course_registers_exit (recorder e)) (h, res) (\<lambda>_ (h', _). resources h' = {#} \<and> unheld_releases h' = [])
     else r = - EFAULT \<and> partly_mapped (resources h) res))"
proof -
  have exit: "wp (course_registers_exit (recorder e)) (h, res) (\<lambda>_ (h', _). resources h' = {#} \<and> unheld_releases h' = [])"
    if "resources h = region_of res" "unheld_releases h = []" for h res
    using that unfolding course_registers_exit_def
    by (auto simp: wp_simps region_of_def unheld_def intro!: wp_pr_info wp_exec_accounted)
  have region: "resource_effect (Device (Request_mem_region 0x01c14000 0x1000), (a, bs)) {#} = region_of a" for a bs
    by (simp add: region_of_def)
  show ?thesis
    unfolding course_registers_init_def wp_simps
    by (auto simp: wp_simps region unheld_def add_mset_commute simp del: resource_effect.simps(25) device_effect.simps
        intro!: wp_pr_info wp_call_accounted wp_ioread32 wp_iounmap wp_mono [OF exit] partly_mapped)
qed

subsection \<open>The threads\<close>

definition kicked_inv :: "kicked \<Rightarrow> bool" where
  "kicked_inv k \<longleftrightarrow>
     (stop_waiter k \<longrightarrow> kicker_at k = Kicker_ended) \<and>
     (waiter_at k = Asleep \<longrightarrow> \<not> stop_waiter k \<and> (kick_count k = 0 \<or> kicker_at k = At_wake)) \<and>
     - 1 \<le> kick_count k \<and> kick_count k \<le> 1 \<and>
     (waiter_at k \<in> {At_check, Asleep, At_dec} \<or> \<not> stop_waiter k \<longrightarrow> 0 \<le> kick_count k) \<and>
     (waiter_at k = At_dec \<and> \<not> stop_waiter k \<longrightarrow> kick_count k = 1)"

lemma kicked_inv_step: "kicked_inv k \<Longrightarrow> kicked_step k l \<Longrightarrow> kicked_inv l"
  by (erule kicked_stepE)
    (auto simp: kicked_inv_def skeleton_thread_1_def skeleton_thread_2_def wake_queue_def waiter_signal_def
        s32_range_def split: waiter.splits kicker.splits if_splits)

interpretation kicked: kept_invariant "\<lambda>k. k = kicked_start" kicked_step kicked_inv
proof
  show "kicked_inv k" if "k = kicked_start" for k
    using that by (simp add: kicked_inv_def kicked_start_def)
qed (rule kicked_inv_step)

text \<open>C20. The two threads of exercise 7 in any interleaving, with signals and the unload: the counter is 0
  or 1 until thread 1 is told to stop, and then at least -1; thread 1 never sleeps over a kick, for
  which thread 2 is then about to wake it, nor over the stop.\<close>

theorem kick_never_missed:
  assumes "kicked_step\<^sup>*\<^sup>* kicked_start k"
  shows "(kick_count k \<in> {0, 1} \<or> kick_count k = - 1 \<and> stop_waiter k) \<and>
    (waiter_at k = Asleep \<longrightarrow> \<not> stop_waiter k \<and>
      (kick_count k = 0 \<or> kicker_at k = At_wake \<and> waiter_at (skeleton_thread_2 k) = At_check))"
  using kicked.reachable_inv [OF refl assms]
  by (auto simp: kicked_inv_def skeleton_thread_2_def wake_queue_def)

theorem kick_never_missed_witness:
  "\<exists>k. kicked_step\<^sup>*\<^sup>* kicked_start k \<and> waiter_at k = Asleep \<and> \<not> stop_waiter k"
proof -
  let ?k = "skeleton_thread_1 (skeleton_thread_1 kicked_start)"
  have r: "kicked_step\<^sup>*\<^sup>* kicked_start ?k"
    by (meson kicked_step.intros(1) r_into_rtranclp rtranclp.rtrancl_into_rtrancl)
  have "waiter_at ?k = Asleep" by (simp add: kicked_start_def skeleton_thread_1_def)
  with kick_never_missed [OF r] r show ?thesis by blast
qed

subsection \<open>The interrupts\<close>

definition irq_parts :: "(nat \<Rightarrow> int) \<Rightarrow> resource list" where
  "irq_parts irq = [Pin 0, Irq (irq 0) 1, Pin 2, Irq (irq 2) 2, Pin 3, Irq (irq 3) 3]"

text \<open>Exercise 8 in every environment: a load that succeeds has the three lines and interrupts, and
  unloading gives them back; a load that fails keeps all it had obtained before the failure.\<close>

theorem course_irq_life:
  assumes "\<forall>h k. fst (e h (Pin_to_irq k)) = irq k"
  shows "wp (course_irq_init (recorder e)) ([], g) (\<lambda>status (h, g').
    (if status = 0 then resources h = mset (irq_parts irq) \<and>
       wp (course_irq_exit (recorder e)) (h, g') (\<lambda>_ (h', _). resources h' = {#} \<and> unheld_releases h' = [])
     else \<exists>k < length (irq_parts irq). resources h = mset (take k (irq_parts irq))))"
proof -
  have irq: "fst (e h (Pin_to_irq k)) = irq k" for h k using assms by blast
  have exit: "wp (course_irq_exit (recorder e)) (h, g') (\<lambda>_ (h', _). resources h' = {#} \<and> unheld_releases h' = [])"
    if "resources h = mset (irq_parts irq)" "unheld_releases h = []" for h g'
    using that unfolding course_irq_exit_def course_release_irq_def wp_simps
    by (auto simp: wp_simps pins irq irq_parts_def unheld_def intro!: wp_pr_info wp_call_accounted wp_exec_accounted)
  have stop: "\<exists>k < length (irq_parts irq). m = mset (take k (irq_parts irq))"
    if "k < length (irq_parts irq)" "m = mset (take k (irq_parts irq))" for m k
    using that by blast
  note stops = stop [of 0, unfolded irq_parts_def, simplified] stop [of 1, unfolded irq_parts_def, simplified]
    stop [of 2, unfolded irq_parts_def, simplified] stop [of 3, unfolded irq_parts_def, simplified]
    stop [of 4, unfolded irq_parts_def, simplified] stop [of 5, unfolded irq_parts_def, simplified]
  show ?thesis
    unfolding course_irq_init_def course_request_def wp_simps
    by (auto simp: wp_simps pins irq when_ok_def unheld_def irq_parts_def [symmetric]
        intro!: wp_pr_info wp_call_accounted wp_mono [OF exit])
      (auto simp: irq_parts_def intro: stops)
qed

theorem course_irq_life_witness:
  "wp (course_irq_init (recorder (\<lambda>h c. (0, [])))) ([], ()) (\<lambda>status (h, g').
    status = 0 \<longrightarrow> resources h = mset (irq_parts (\<lambda>_. 0)))"
  by (rule wp_mono [OF course_irq_life [where irq = "\<lambda>_. 0"]]) auto

end
