(* ===== verification/Course_Client.thy ===== *)
theory Course_Client
  imports Course_Files Posix
begin

text \<open>
  \<^verbatim>\<open>teacher_solutions/03_drivers/exercice04/main.c\<close>, the program that tests the driver of exercise 3: it
  fills the file it is given and prints it.  The program is then run on the driver's read and write
  operations (\<open>client_os\<close>).
\<close>

section \<open>The program\<close>

definition greeting :: string where
  "greeting = [NL] @ ''bonjour le monde'' @ [NL] @ ''ce mois d'octobre est plutot humide...'' @ [NL] @
     ''ce n'est qu'un petit texte de test...'' @ [NL]"

definition greeting2 :: string where
  "greeting2 = [NL] @ ''et voici un complement au premier text..'' @ [NL] @
     ''ce n'est qu'un deuxieme petit texte de test...'' @ [NL]"

definition blabla :: string where
  "blabla = ''blabla blabla blabla blabla blabla blabla blabla'' @ [NL]"

text \<open>The two loops; the number bounds their rounds, and the result tells whether they have ended.\<close>

primrec fill :: "nat \<Rightarrow> ('w, call) os \<Rightarrow> int \<Rightarrow> ('w, 'g, bool) prog" where
  "fill 0 os fd = return False"
| "fill (Suc n) os fd = do {
     s \<leftarrow> sysi os (Write fd blabla);
     if s32 s \<ge> 0 then fill n os fd else return True }"

text \<open>The array of a round is what was on the stack, its first bytes overwritten by the read.\<close>

primrec print_file :: "nat \<Rightarrow> ('w, call) os \<Rightarrow> int \<Rightarrow> ('w, 'g, bool) prog" where
  "print_file 0 os fd = return False"
| "print_file (Suc n) os fd = do {
     u \<leftarrow> sys os (Uninit 100);
     r \<leftarrow> sys os (Read fd 99);
     if fst r \<le> 0 then return True
     else do {
       let bytes = rd_bytes 99 r;
       let buff = bytes @ drop (length bytes) (sized 100 (snd u));
       exec os (Printf (c_str (buff[99 := NUL])));
       print_file n os fd } }"

text \<open>\<open>args\<close> is \<open>argv\<close> without the name of the program.\<close>

definition client_main :: "nat \<Rightarrow> ('w, call) os \<Rightarrow> string list \<Rightarrow> ('w, 'g, int option) prog" where
  "client_main n os args = (case args of
       [] \<Rightarrow> return (Some 0)
     | path # _ \<Rightarrow> do {
         fdw \<leftarrow> sysi os (Open path [O_RDWR]);
         exec os (Write fdw path);
         exec os (Write fdw greeting);
         exec os (Write fdw greeting2);
         full \<leftarrow> fill n os fdw;
         if \<not> full then return None
         else do {
           exec os (Close fdw);
           fdr \<leftarrow> sysi os (Open path [O_RDONLY]);
           end \<leftarrow> print_file n os fdr;
           if \<not> end then return None
           else do {
             exec os (Close fdr);
             return (Some 0) } } })"

section \<open>The driver\<close>

text \<open>
  An instance of the device, the position of the file that is open and what the program has printed.
  The kernel passes the position to the operations and keeps the new one unless they fail; \<open>junk\<close> is
  the contents of the stack.
\<close>

record instance_world =
  dev_buffer :: string
  position :: int
  printed :: string

definition no_fault :: "string \<Rightarrow> int \<Rightarrow> int \<times> string" where
  "no_fault s n = (if n > 2147483647 then (n, []) else (0, s))"

definition client_os :: "string \<Rightarrow> (instance_world, call) os" where
  "client_os junk w c = (case c of
       Open path flags \<Rightarrow> ((3, []), w\<lparr>position := 0\<rparr>)
     | Write fd s \<Rightarrow>
         (let r = course_write (no_fault s) (int (length s)) (position w)
          in ((cw_ret r, []), w\<lparr>dev_buffer := put_stores (cw_stores r) (dev_buffer w),
                position := (if cw_ret r \<ge> 0 then cw_off r else position w)\<rparr>))
     | Read fd n \<Rightarrow>
         (case course_read (\<lambda>_. 0) (dev_buffer w) (int n) (position w) of
            (k, bytes, off) \<Rightarrow>
              ((k, case bytes of Some bs \<Rightarrow> bs | None \<Rightarrow> []), w\<lparr>position := (if k \<ge> 0 then off else position w)\<rparr>))
     | Uninit n \<Rightarrow> ((0, junk), w)
     | Printf s \<Rightarrow> ((0, []), w\<lparr>printed := printed w @ s\<rparr>)
     | _ \<Rightarrow> ((0, []), w))"

section \<open>Filling\<close>

text \<open>The buffer holds a text, and zeros after it.\<close>

definition zeros :: "nat \<Rightarrow> string" where
  "zeros n = replicate n NUL"

definition holds :: "instance_world \<Rightarrow> string \<Rightarrow> bool" where
  "holds w t \<longleftrightarrow> dev_buffer w = t @ zeros (10000 - length t) \<and> position w = int (length t) \<and> length t < 10000"

lemma write_accepted:
  assumes "holds w t" and "length t + length s < 10000"
    and "\<And>w'. holds w' (t @ s) \<Longrightarrow> printed w' = printed w \<Longrightarrow> Q (int (length s)) (w', g)"
  shows "wp (sysi (client_os junk) (Write fd s)) (w, g) Q"
proof -
  let ?n = "int (length s)" and ?k = "length t"
  let ?r = "course_write (no_fault s) ?n (position w)"
  have "user_range ?n (int ?k)" "\<not> too_large ?n (int ?k)"
    using assms(2) by (auto simp: user_range_def too_large_def)
  then have r: "?r = \<lparr>cw_ret = ?n, cw_off = int (?k + length s),
      cw_stores = (if s \<noteq> [] then [(int (?k + length s), [NUL]), (int ?k, s)] else [])\<rparr>"
    using assms(1,2) by (simp add: holds_def write_done no_fault_def)
  have "put_stores (cw_stores ?r) (dev_buffer w) = t @ s @ zeros (10000 - ?k - length s)"
  proof (cases "s = []")
    case False
    have "put_store (int (?k + length s), [NUL]) (dev_buffer w) = dev_buffer w"
      using assms(1,2) unfolding put_store_one holds_def zeros_def
      by (intro nth_equalityI) (auto simp: nth_list_update nth_append)
    then show ?thesis
      using assms(1,2) False unfolding r by (simp add: put_stores_two put_store_inside holds_def zeros_def)
  qed (use assms(1) r in \<open>simp add: holds_def\<close>)
  then have "holds (w\<lparr>dev_buffer := put_stores (cw_stores ?r) (dev_buffer w),
      position := (if cw_ret ?r \<ge> 0 then cw_off ?r else position w)\<rparr>) (t @ s)"
    using assms(2) by (simp add: holds_def r)
  from assms(3) [OF this] show ?thesis by (simp add: wp_sysi client_os_def Let_def r)
qed

text \<open>What is left of the text after a refused write: its last five bytes are cut off.\<close>

definition truncated :: "instance_world \<Rightarrow> string \<Rightarrow> bool" where
  "truncated w t \<longleftrightarrow> dev_buffer w = t[length t - 5 := NUL] @ zeros (10000 - length t)"

lemma write_rejected:
  assumes "holds w t" and "10000 \<le> length t + length s" and "5 \<le> length t" and "length s < 2147483647"
    and "\<And>w'. truncated w' t \<Longrightarrow> printed w' = printed w \<Longrightarrow> Q (- EFAULT) (w', g)"
  shows "wp (sysi (client_os junk) (Write fd s)) (w, g) Q"
proof -
  let ?n = "int (length s)" and ?k = "length t"
  let ?r = "course_write (no_fault s) ?n (position w)"
  have k: "int ?k - 5 = int (?k - 5)" using assms(3) by simp
  have range: "user_range ?n (int ?k)" "too_large ?n (int ?k)" "position w = int ?k"
    using assms by (auto simp: user_range_def too_large_def holds_def)
  have "course_write (no_fault s) ?n (int ?k) = \<lparr>cw_ret = - EFAULT, cw_off = int ?k - 5, cw_stores = [(int ?k - 5, [NUL]), (int ?k, [])]\<rparr>"
  proof -
    have "u64_of (10000 - int ?k) \<le> ?n" using too_large_iff [OF range(1)] range(2) by simp
    then show ?thesis using assms(1)
      by (simp add: course_write_def Let_def no_fault_def s64_minus_EIO holds_def)
  qed
  then have r: "?r = \<lparr>cw_ret = - EFAULT, cw_off = int ?k - 5, cw_stores = [(int (?k - 5), [NUL]), (int ?k, [])]\<rparr>"
    by (simp only: k range(3))
  have "put_stores (cw_stores ?r) (dev_buffer w) = t[length t - 5 := NUL] @ zeros (10000 - length t)"
  proof -
    have "?k - 5 < ?k" using assms(3) by simp
    then show ?thesis
      using assms(1) unfolding r
      by (simp add: put_stores_two put_store_one holds_def list_update_append1 del: of_nat_diff)
  qed
  then have "truncated (w\<lparr>dev_buffer := put_stores (cw_stores ?r) (dev_buffer w)\<rparr>) t"
    by (simp add: truncated_def)
  from assms(5) [OF this] show ?thesis by (simp add: wp_sysi client_os_def Let_def r)
qed

lemma length_blabla: "length blabla = 49"
  by (simp add: blabla_def)

lemma fill_ends:
  assumes "holds w t" and "5 \<le> length t" and "10000 - length t \<le> 49 * n"
    and "\<And>w' k. truncated w' (t @ concat (replicate k blabla)) \<Longrightarrow> length (t @ concat (replicate k blabla)) < 10000 \<Longrightarrow>
      10000 \<le> length (t @ concat (replicate k blabla)) + 49 \<Longrightarrow> printed w' = printed w \<Longrightarrow> Q True (w', g)"
  shows "wp (fill n (client_os junk) fd) (w, g) Q"
  using assms
proof (induction n arbitrary: w t)
  case 0
  then show ?case by (simp add: holds_def)
next
  case (Suc n)
  show ?case
  proof (cases "length t + 49 < 10000")
    case True
    have "wp (fill n (client_os junk) fd) (w', g) Q" if w': "holds w' (t @ blabla)" "printed w' = printed w" for w'
    proof (rule Suc.IH [OF w'(1)])
      fix w'' k
      assume "truncated w'' ((t @ blabla) @ concat (replicate k blabla))"
        "length ((t @ blabla) @ concat (replicate k blabla)) < 10000"
        "10000 \<le> length ((t @ blabla) @ concat (replicate k blabla)) + 49" "printed w'' = printed w'"
      then show "Q True (w'', g)" using Suc.prems(4) [of w'' "Suc k"] w'(2) by simp
    qed (use Suc.prems True in \<open>simp_all add: length_blabla\<close>)
    then have go: "wp (sysi (client_os junk) (Write fd blabla)) (w, g)
        (\<lambda>x s'. if 0 \<le> s32 x then wp (fill n (client_os junk) fd) s' Q else Q True s')"
      using Suc.prems(1) True
      by (intro write_accepted [of _ t]) (simp_all add: length_blabla s32_def signed_take_bit_int_eq_self)
    show ?thesis unfolding fill.simps wp_simps by (rule go)
  next
    case False
    have "wp (sysi (client_os junk) (Write fd blabla)) (w, g)
        (\<lambda>x s'. if 0 \<le> s32 x then wp (fill n (client_os junk) fd) s' Q else Q True s')"
      using Suc.prems(1,2) False Suc.prems(4) [of _ 0]
      by (intro write_rejected [of _ t]) (simp_all add: length_blabla s32_def signed_take_bit_int_eq_self holds_def)
    then show ?thesis unfolding fill.simps wp_simps .
  qed
qed

section \<open>Printing\<close>

text \<open>What printing a file as a sequence of C strings of 99 bytes shows of it.\<close>

fun pieces :: "string \<Rightarrow> string" where
  "pieces b = (if b = [] then [] else c_str (take 99 b) @ pieces (drop 99 b))"

declare pieces.simps [simp del]

lemma c_str_append:
  assumes "NUL \<in> set xs \<or> ys \<noteq> [] \<and> hd ys = NUL"
  shows "c_str (xs @ ys) = c_str xs"
proof (cases "NUL \<in> set xs")
  case True
  then show ?thesis by (auto simp: c_str_def takeWhile_append)
next
  case False
  with assms obtain zs where "ys = NUL # zs" by (cases ys) auto
  with False show ?thesis by (auto simp: c_str_def takeWhile_append takeWhile_eq_all_conv [THEN iffD2])
qed

lemma read_round:
  assumes "length B = 10000" and "off \<le> 10000"
  defines "k \<equiv> min 99 (10000 - off)"
  shows "course_read (\<lambda>_. 0) B 99 (int off) = (int k, Some (take k (drop off B)), int (off + k))"
proof -
  have "u64_of (10000 - int off) = int (10000 - off)" using assms(2) by (simp add: u64_of_id of_nat_diff)
  then show ?thesis
    using assms by (auto simp: course_read_def Let_def view_def s64_id min_def)
qed

lemma round_shows:
  assumes "length B = 10000" and "last B = NUL" and "off < 10000"
  defines "bytes \<equiv> take (min 99 (10000 - off)) (drop off B)"
  shows "c_str ((bytes @ drop (length bytes) (sized 100 junk))[99 := NUL]) = c_str (take 99 (drop off B))"
proof (cases "99 \<le> 10000 - off")
  case True
  then have b: "bytes = take 99 (drop off B)" "length bytes = 99" using assms(1) by (simp_all add: bytes_def min_def)
  obtain x where "drop 99 (sized 100 junk) = [x]"
    using length_sized [of 100 junk] by (cases "drop 99 (sized 100 junk)") (auto simp: Suc_diff_le dest: arg_cong [of _ _ length])
  then have "(bytes @ drop (length bytes) (sized 100 junk))[99 := NUL] = bytes @ [NUL]"
    by (simp add: b(2) list_update_append)
  then show ?thesis using c_str_append [of bytes "[NUL]"] b(1) by simp
next
  case False
  then have b: "bytes = take 99 (drop off B)" "bytes = drop off B" "length bytes < 99"
    using assms(1) by (simp_all add: bytes_def min_def)
  have "last bytes = NUL" "bytes \<noteq> []" using assms(1-3) by (simp_all add: b(2))
  then have "NUL \<in> set bytes" by (metis last_in_set)
  then have "c_str (bytes @ ys) = c_str bytes" for ys by (rule c_str_append [OF disjI1])
  moreover have "(bytes @ drop (length bytes) (sized 100 junk))[99 := NUL] =
      bytes @ (drop (length bytes) (sized 100 junk))[99 - length bytes := NUL]"
    using b(3) by (simp add: list_update_append)
  ultimately show ?thesis by (simp add: b(1) [symmetric])
qed

lemma print_file_shows:
  assumes "length (dev_buffer w) = 10000" and "last (dev_buffer w) = NUL" and "position w = int off" and "off \<le> 10000"
    and "10000 - off + 99 \<le> 99 * n"
    and "\<And>w'. printed w' = printed w @ pieces (drop off (dev_buffer w)) \<Longrightarrow> Q True (w', g)"
  shows "wp (print_file n (client_os junk) fd) (w, g) Q"
  using assms
proof (induction n arbitrary: off w)
  case (Suc n)
  define k where "k = min 99 (10000 - off)"
  let ?bytes = "take k (drop off (dev_buffer w))"
  let ?w = "w\<lparr>position := int (off + k)\<rparr>"
  have uninit: "client_os junk w (Uninit 100) = ((0, junk), w)" by (simp add: client_os_def)
  have read: "client_os junk w (Read fd 99) = ((int k, ?bytes), ?w)"
    using read_round [OF Suc.prems(1,4)] Suc.prems(3) by (simp add: client_os_def k_def)
  show ?case
  proof (cases "off = 10000")
    case True
    then have "k = 0" by (simp add: k_def)
    then show ?thesis
      using Suc.prems(6) [of ?w] True
      by (simp add: wp_simps wp_sys uninit read pieces.simps [of "[]"] Suc.prems(1))
  next
    case False
    then have off: "off < 10000" "0 < k" "k \<le> 99" using Suc.prems(4) by (simp_all add: k_def)
    have len: "length ?bytes = k" using Suc.prems(1) by (simp add: k_def)
    have bytes: "rd_bytes 99 (int k, ?bytes) = ?bytes" using len off(3) by (intro rd_bytes_exact) simp_all
    let ?out = "c_str (take 99 (drop off (dev_buffer w)))"
    let ?w' = "?w\<lparr>printed := printed w @ ?out\<rparr>"
    note out = round_shows [OF Suc.prems(1,2) off(1), of junk, folded k_def, unfolded len]
    have "drop off (dev_buffer w) \<noteq> []" using off(1) Suc.prems(1) by simp
    moreover have "drop 99 (drop off (dev_buffer w)) = drop (off + k) (dev_buffer w)"
      using Suc.prems(1) by (auto simp: k_def min_def add.commute)
    ultimately have p: "pieces (drop off (dev_buffer w)) = ?out @ pieces (drop (off + k) (dev_buffer w))"
      by (simp add: pieces.simps [of "drop off (dev_buffer w)"])
    have "wp (print_file n (client_os junk) fd) (?w', g) Q"
    proof (rule Suc.IH)
      show "10000 - (off + k) + 99 \<le> 99 * n" using Suc.prems(5) off(1) by (auto simp: k_def min_def)
      show "Q True (w'', g)" if "printed w'' = printed ?w' @ pieces (drop (off + k) (dev_buffer ?w'))" for w''
        using that by (intro Suc.prems(6)) (simp add: p)
    qed (use Suc.prems off in \<open>simp_all add: k_def\<close>)
    then show ?thesis
      using off(2) by (simp add: wp_simps wp_sys wp_sysi exec_def uninit read bytes len out del: length_take length_drop)
        (simp add: client_os_def)
  qed
qed simp

lemma pieces_Nil [simp]: "pieces [] = []"
  by (simp add: pieces.simps)

lemma pieces_zeros [simp]: "pieces (zeros m) = []"
proof (induction m rule: less_induct)
  case (less m)
  show ?case
  proof (cases "m = 0")
    case True
    then show ?thesis by (simp add: zeros_def)
  next
    case False
    with less have "pieces (drop 99 (zeros m)) = []" by (simp add: zeros_def)
    moreover have "c_str (take 99 (zeros m)) = []"
      by (cases m) (simp_all add: zeros_def c_str_def takeWhile_eq_Nil_iff hd_replicate)
    ultimately show ?thesis by (simp add: pieces.simps [of "zeros m"])
  qed
qed

lemma pieces_text:
  "NUL \<notin> set t \<Longrightarrow> length t mod 99 + length r < 99 \<Longrightarrow> pieces (t @ NUL # r @ zeros m) = t"
proof (induction "length t" arbitrary: t rule: less_induct)
  case less
  let ?b = "t @ NUL # r @ zeros m"
  show ?case
  proof (cases "99 \<le> length t")
    case True
    have "NUL \<notin> set (drop 99 t)" using less.prems(1) by (meson in_set_dropD)
    moreover have "length (drop 99 t) mod 99 = length t mod 99" using True by (simp add: le_mod_geq)
    ultimately have "pieces (drop 99 ?b) = drop 99 t" using less True by simp
    moreover have "c_str (take 99 ?b) = take 99 t"
      using True less.prems(1) by (auto simp: c_str_def takeWhile_eq_all_conv dest: in_set_takeD)
    ultimately show ?thesis by (simp add: pieces.simps [of ?b])
  next
    case False
    then have l: "length t + length r < 99" using less.prems(2) by simp
    have "c_str (take 99 ?b) = t"
      using l less.prems(1) by (auto simp: c_str_def takeWhile_append take_Cons' )
    moreover have "drop 99 ?b = zeros (m - (98 - (length t + length r)))"
      using l by (simp add: drop_Cons' zeros_def)
    ultimately show ?thesis by (simp add: pieces.simps [of ?b])
  qed
qed

section \<open>The whole run\<close>

definition written :: "nat \<Rightarrow> string \<Rightarrow> string" where
  "written k path = path @ greeting @ greeting2 @ concat (replicate k blabla)"

lemma greetings: "length (greeting @ greeting2) = 184" "NUL \<notin> set (greeting @ greeting2 @ blabla)"
  by (simp_all add: greeting_def greeting2_def blabla_def)

lemma truncated_shows:
  assumes "truncated w t" and "NUL \<notin> set t" and "length t < 10000" and "10000 \<le> length t + 49"
  shows "length (dev_buffer w) = 10000" and "last (dev_buffer w) = NUL"
    and "pieces (dev_buffer w) = take (length t - 5) t"
proof -
  let ?n = "length t - 5"
  have b: "dev_buffer w = take ?n t @ NUL # drop (Suc ?n) t @ zeros (10000 - length t)"
    using assms(1,4) by (simp add: truncated_def upd_conv_take_nth_drop)
  show "length (dev_buffer w) = 10000" using assms(3,4) by (simp add: b zeros_def)
  show "last (dev_buffer w) = NUL" using assms(3) by (simp add: b zeros_def)
  have "NUL \<notin> set (take ?n t)" using assms(2) by (meson in_set_takeD)
  moreover have "length (take ?n t) mod 99 + length (drop (Suc ?n) t) < 99"
  proof -
    have "?n = (length t - 9905) + 99 * 100" using assms(3,4) by simp
    then have "?n mod 99 = (length t - 9905) mod 99" by (simp only: mod_mult_self2)
    moreover have "(length t - 9905) mod 99 = length t - 9905" using assms(3) by (intro mod_less) simp
    ultimately show ?thesis using assms(3,4) by simp
  qed
  ultimately show "pieces (dev_buffer w) = take ?n t"
    unfolding b by (rule pieces_text)
qed

text \<open>C12. The test program on the driver it tests, for every name of the device and whatever its stack
  held: both loops end and the program ends with success, the accepted text fills the device to within
  a line, and all of it is printed but its last five bytes, which the refused write has cut off.\<close>

theorem client_loses_five:
  assumes "NUL \<notin> set path" and "length path \<le> 4096" and "205 \<le> n"
  shows "wp (client_main n (client_os junk) [path]) (\<lparr>dev_buffer = zeros 10000, position = 0, printed = []\<rparr>, g)
    (\<lambda>r (w, _). r = Some 0 \<and> (\<exists>k. let t = written k path in
      length t < 10000 \<and> 10000 \<le> length t + 49 \<and> printed w = take (length t - 5) t))"
proof -
  have opened: "wp (sysi (client_os junk) (Open p fl)) (w, g) Q = Q 3 (w\<lparr>position := 0\<rparr>, g)" for w p fl Q
    by (simp add: client_os_def wp_sysi)
  have closed: "wp (exec (client_os junk) (Close fd)) (w, g) Q = Q () (w, g)" for w fd Q
    by (simp add: client_os_def wp_sysi exec_def wp_simps)
  have put: "wp (exec (client_os junk) (Write fd s)) (w, g) Q"
    if "holds w t" "length t + length s < 10000" "\<And>w'. holds w' (t @ s) \<Longrightarrow> printed w' = printed w \<Longrightarrow> Q () (w', g)"
    for w t s Q fd
    using that by (auto simp: exec_def wp_simps intro: write_accepted [of w t s])
  let ?Q = "\<lambda>r (w, _). r = Some 0 \<and> (\<exists>k. let t = written k path in
      length t < 10000 \<and> 10000 \<le> length t + 49 \<and> printed w = take (length t - 5) t)"
  have read: "wp (print_file n (client_os junk) fd) (w\<lparr>position := 0\<rparr>, g)
      (\<lambda>e s. if \<not> e then ?Q None s else wp (exec (client_os junk) (Close fd)) s (\<lambda>_. ?Q (Some 0)))"
    if w: "truncated w t" "t = written k path" "length t < 10000" "10000 \<le> length t + 49" "printed w = []" for w t k fd
  proof -
    have "NUL \<notin> set t" using assms(1) greetings(2) by (auto simp: w(2) written_def)
    note at_end = truncated_shows [OF w(1) this w(3,4)]
    show ?thesis
      by (rule print_file_shows [of _ 0]) (use at_end w assms(3) in \<open>auto simp: closed Let_def\<close>)
  qed
  have filled: "wp (fill n (client_os junk) fd) (w, g)
      (\<lambda>b s. if \<not> b then ?Q None s else wp (exec (client_os junk) (Close fd)) s (\<lambda>_ s.
        wp (sysi (client_os junk) (Open path [O_RDONLY])) s (\<lambda>fdr s. wp (print_file n (client_os junk) fdr) s
          (\<lambda>e s. if \<not> e then ?Q None s else wp (exec (client_os junk) (Close fdr)) s (\<lambda>_. ?Q (Some 0))))))"
    if w: "holds w (written 0 path)" "printed w = []" for w fd
  proof (rule fill_ends [OF w(1)])
    fix w' k
    assume w': "truncated w' (written 0 path @ concat (replicate k blabla))"
      "length (written 0 path @ concat (replicate k blabla)) < 10000"
      "10000 \<le> length (written 0 path @ concat (replicate k blabla)) + 49" "printed w' = printed w"
    have t: "written 0 path @ concat (replicate k blabla) = written k path" by (simp add: written_def)
    have "printed w' = []" using w'(4) w(2) by simp
    note shown = read [OF w'(1) [unfolded t] refl w'(2,3) [unfolded t] this]
    show "if \<not> True then ?Q None (w', g) else wp (exec (client_os junk) (Close fd)) (w', g) (\<lambda>_ s.
        wp (sysi (client_os junk) (Open path [O_RDONLY])) s (\<lambda>fdr s. wp (print_file n (client_os junk) fdr) s
          (\<lambda>e s. if \<not> e then ?Q None s else wp (exec (client_os junk) (Close fdr)) s (\<lambda>_. ?Q (Some 0)))))"
      unfolding t by (simp only: opened closed not_True_eq_False if_False) (rule shown)
  qed (use assms(3) greetings(1) in \<open>simp_all add: written_def\<close>)
  have len: "length path + (length greeting + length greeting2) < 10000"
    using assms(2) greetings(1) by simp
  have start: "written 0 path = (path @ greeting) @ greeting2" by (simp add: written_def)
  show ?thesis
    unfolding client_main_def list.case wp_simps opened
    by (rule put [of _ "[]"], simp add: holds_def zeros_def, (use len in simp), rule put [of _ path], simp, (use len in simp),
        rule put [of _ "path @ greeting"], simp, (use len in simp), rule filled, simp_all add: start)
qed

theorem client_loses_five_witness:
  "wp (client_main 205 (client_os ''stack'') [''/dev/mymodule'']) (\<lparr>dev_buffer = zeros 10000, position = 0, printed = []\<rparr>, ())
    (\<lambda>r (w, _). r = Some 0 \<and> (\<exists>k. let t = written k ''/dev/mymodule'' in
      length t < 10000 \<and> 10000 \<le> length t + 49 \<and> printed w = take (length t - 5) t))"
  by (rule client_loses_five) simp_all

text \<open>Without a device nothing is printed, and the program still ends with success: no call is tested.\<close>

lemma client_ignores_missing_file:
  assumes "\<forall>h path fl. fst (e h (Open path fl)) = - 1" and "\<forall>h s. fst (e h (Write (- 1) s)) = - 1"
    and "\<forall>h k. fst (e h (Read (- 1) k)) = - 1" and "0 < n"
  shows "wp (client_main n (recorder e) [path]) ([], g) (\<lambda>r (h, _). r = Some 0 \<and> (\<forall>s. Printf s \<notin> fst ` set h))"
proof -
  obtain k where n: "n = Suc k" using assms(4) by (cases n) auto
  show ?thesis
    unfolding client_main_def list.case n fill.simps print_file.simps exec_def wp_simps
    by (simp add: wp_sysi wp_sys assms wp_simps s32_def signed_take_bit_int_eq_self)
qed

end
