(* ===== verification/Procstat.thy ===== *)
theory Procstat
  imports Course_Files Complex_Main
begin

text \<open>
  \<^verbatim>\<open>teacher_solutions/02_modules/procstat/procstat.c\<close>, a program that prints the fields of
  \<^verbatim>\<open>/proc/<pid>/stat\<close>: the conversions of \<open>fscanf\<close> and \<open>printf\<close> it uses, the static variables (by their
  names), and the sequences of reads and of prints of \<open>main\<close>.
\<close>

section \<open>Scanning\<close>

text \<open>A stream is its remaining bytes.  A number: white space, a sign, digits; nothing when there is no
  digit, and the sign is then gone.\<close>

definition scan_num :: "string \<Rightarrow> int option \<times> string" where
  "scan_num s =
     (let t = dropWhile is_space s;
          u = (if t \<noteq> [] \<and> hd t \<in> {CHR ''-'', CHR ''+''} then tl t else t);
          n = int (digits_val u)
      in if takeWhile is_digit u = [] then (None, u)
         else (Some (if t \<noteq> [] \<and> hd t = CHR ''-'' then - n else n), dropWhile is_digit u))"

text \<open>\<open>%lld\<close> saturates; \<open>%llu\<close> saturates too, and takes a negative number modulo 2^64.\<close>

definition to_lld :: "int \<Rightarrow> int" where
  "to_lld v = max (- (2 ^ 63)) (min (2 ^ 63 - 1) v)"

definition to_llu :: "int \<Rightarrow> int" where
  "to_llu v = (if \<bar>v\<bar> \<ge> 2 ^ 64 then 2 ^ 64 - 1 else u64_of v)"

text \<open>A white-space character of the format skips all white space; it is reached when the conversion
  before it succeeded.\<close>

definition then_space :: "('a option \<times> string) \<Rightarrow> ('a option \<times> string)" where
  "then_space r = (case r of (None, s) \<Rightarrow> (None, s) | (Some v, s) \<Rightarrow> (Some v, dropWhile is_space s))"

section \<open>State\<close>

text \<open>\<open>nums\<close> holds the variables of type \<open>num\<close> and \<open>start_time\<close>.  The array of \<open>tcomm\<close> has 4096 bytes and
  the code does not check them; here it is the word it holds.\<close>

record procstat =
  nums :: "string \<Rightarrow> int"
  tcomm :: string
  state_char :: char
  tickspersec :: int
  stream :: string

definition initial_procstat :: procstat where
  "initial_procstat = \<lparr>nums = (\<lambda>_. 0), tcomm = [], state_char = NUL, tickspersec = 0, stream = []\<rparr>"

definition readone :: "string \<Rightarrow> procstat \<Rightarrow> procstat" where
  "readone x p = (case then_space (scan_num (stream p)) of
       (None, s) \<Rightarrow> p\<lparr>stream := s\<rparr>
     | (Some v, s) \<Rightarrow> p\<lparr>nums := (nums p)(x := to_lld v), stream := s\<rparr>)"

definition readunsigned :: "string \<Rightarrow> procstat \<Rightarrow> procstat" where
  "readunsigned x p = (case then_space (scan_num (stream p)) of
       (None, s) \<Rightarrow> p\<lparr>stream := s\<rparr>
     | (Some v, s) \<Rightarrow> p\<lparr>nums := (nums p)(x := to_llu v), stream := s\<rparr>)"

definition scan_str :: "string \<Rightarrow> string option \<times> string" where
  "scan_str s = (let t = dropWhile is_space s in
     if t = [] then (None, []) else (Some (takeWhile (\<lambda>c. \<not> is_space c) t), dropWhile (\<lambda>c. \<not> is_space c) t))"

definition readstr :: "procstat \<Rightarrow> procstat" where
  "readstr p = (case then_space (scan_str (stream p)) of
       (None, s) \<Rightarrow> p\<lparr>stream := s\<rparr>
     | (Some w, s) \<Rightarrow> p\<lparr>tcomm := w, stream := s\<rparr>)"

definition scan_chr :: "string \<Rightarrow> char option \<times> string" where
  "scan_chr s = (case s of [] \<Rightarrow> (None, []) | c # cs \<Rightarrow> (Some c, cs))"

definition readchar :: "procstat \<Rightarrow> procstat" where
  "readchar p = (case then_space (scan_chr (stream p)) of
       (None, s) \<Rightarrow> p\<lparr>stream := s\<rparr>
     | (Some c, s) \<Rightarrow> p\<lparr>state_char := c, stream := s\<rparr>)"

text \<open>The reads of \<open>main\<close>, in order: the process, its name, its state, then the other variables.\<close>

datatype reading = Num string | Unsigned string | Str | Chr

fun read_item :: "reading \<Rightarrow> procstat \<Rightarrow> procstat" where
  "read_item (Num x) p = readone x p"
| "read_item (Unsigned x) p = readunsigned x p"
| "read_item Str p = readstr p"
| "read_item Chr p = readchar p"

definition numbers_1 :: "string list" where
  "numbers_1 = [''ppid'', ''pgid'', ''sid'', ''tty_nr'', ''tty_pgrp'', ''flags'', ''min_flt'', ''cmin_flt'', ''maj_flt'',
     ''cmaj_flt'', ''utime'', ''stimev'', ''cutime'', ''cstime'', ''priority'', ''nicev'', ''num_threads'', ''it_real_value'']"

definition numbers_2 :: "string list" where
  "numbers_2 = [''vsize'', ''rss'', ''rsslim'', ''start_code'', ''end_code'', ''start_stack'', ''esp'', ''eip'', ''pending'',
     ''blocked'', ''sigign'', ''sigcatch'', ''wchan'', ''zero1'', ''zero2'', ''exit_signal'', ''cpu'', ''rt_priority'', ''policy'']"

definition readings :: "reading list" where
  "readings = [Num ''pid'', Str, Chr] @ map Num numbers_1 @ [Unsigned ''start_time''] @ map Num numbers_2"

section \<open>Floating point\<close>

text \<open>A finite \<open>double\<close> that is not negative: \<open>m * 2^e\<close> with \<open>m\<close> of at most 53 bits.  Rounding is to nearest, ties to even.\<close>

definition round_even :: "int \<Rightarrow> int \<Rightarrow> int" where
  "round_even a b = (let q = a div b; r = a mod b in
     if 2 * r < b \<or> 2 * r = b \<and> even q then q else q + 1)"

fun bits :: "nat \<Rightarrow> nat" where
  "bits n = (if n = 0 then 0 else Suc (bits (n div 2)))"

declare bits.simps [simp del]

text \<open>\<open>a / b\<close> rounded to 53 bits: the exponent is chosen so that the quotient has 53 bits, or 54.\<close>

definition scale :: "int \<Rightarrow> int \<Rightarrow> int \<Rightarrow> int \<times> int" where
  "scale a b e = (a * 2 ^ nat (- e), b * 2 ^ nat e)"

definition exponent :: "int \<Rightarrow> int \<Rightarrow> int" where
  "exponent a b = (let e = int (bits (nat a)) - int (bits (nat b)) - 53;
       (p, q) = scale a b e
     in if p < q * 2 ^ 53 then e else e + 1)"

definition double_div :: "int \<Rightarrow> int \<Rightarrow> int \<times> int" where
  "double_div a b = (if a = 0 then (0, 0)
     else let e = exponent a b; (p, q) = scale a b e in (round_even p q, e))"

text \<open>\<open>%f\<close>: six digits after the point, rounded from the exact value.\<close>

definition fmt_f :: "int \<times> int \<Rightarrow> string" where
  "fmt_f d = (case d of (m, e) \<Rightarrow>
     let n = nat (round_even (m * 2 ^ nat e * 10 ^ 6) (2 ^ nat (- e)))
     in fmt_u (n div 10 ^ 6) @ ''.'' @ zero_pad 6 (fmt_u (n mod 10 ^ 6)))"

text \<open>\<open>(double)x / tickspersec\<close>, the sign apart.\<close>

definition ticks_to_seconds :: "int \<Rightarrow> int \<Rightarrow> string" where
  "ticks_to_seconds x t =
     (let (m, e) = double_div \<bar>x\<bar> 1;
          s = fmt_f (double_div (m * 2 ^ nat e) (\<bar>t\<bar> * 2 ^ nat (- e)))
      in if (x < 0) \<noteq> (t < 0) then CHR ''-'' # s else s)"

section \<open>Printing\<close>

text \<open>The calls.  \<open>Fopen\<close> answers with a pointer and the bytes that reading the file will deliver.\<close>

datatype stat_call =
    Sysconf_clk_tck
  | Chdir_to string
  | Fopen string
  | Stdin_stream
  | Fclose int
  | Time_now
  | Strftime int
  | Put string
  | Put_error string

definition pad20 :: "string \<Rightarrow> string" where
  "pad20 s = replicate (20 - length s) CHR '' '' @ s"

definition line_of :: "string \<Rightarrow> string \<Rightarrow> string" where
  "line_of name txt = pad20 name @ '': '' @ txt @ [NL]"

definition printone :: "string \<Rightarrow> int \<Rightarrow> string" where
  "printone name x = line_of name (fmt_d x)"

definition printonex :: "string \<Rightarrow> int \<Rightarrow> string" where
  "printonex name x = line_of name (zero_pad 16 (fmt_x (nat (u64_of x))))"

definition printchar :: "string \<Rightarrow> char \<Rightarrow> string" where
  "printchar name c = line_of name [c]"

definition printstr :: "string \<Rightarrow> string \<Rightarrow> string" where
  "printstr name s = line_of name s"

definition printtime :: "string \<Rightarrow> int \<Rightarrow> int \<Rightarrow> string" where
  "printtime name x t = line_of name (ticks_to_seconds x t)"

text \<open>\<open>fscanf(procuptime, "%d.%ds", ...)\<close>: \<open>None\<close> when a number is missing, which leaves its variable
  indeterminate.\<close>

definition scan_uptime :: "string \<Rightarrow> (int \<times> int) option" where
  "scan_uptime s = (case scan_num s of
       (Some sec, CHR ''.'' # r) \<Rightarrow>
         (case scan_num r of (Some ssec, _) \<Rightarrow> Some (s32 (to_lld sec), s32 (to_lld ssec)) | _ \<Rightarrow> None)
     | _ \<Rightarrow> None)"

text \<open>\<open>None\<close>: the file cannot be opened, and a null stream is used, or it does not hold two numbers.\<close>

definition gettimesinceboot :: "('w, stat_call) os \<Rightarrow> ('w, procstat, int option) prog" where
  "gettimesinceboot os = do {
     r \<leftarrow> sys os (Fopen ''/proc/uptime'');
     if fst r = 0 then return None
     else (case scan_uptime (snd r) of
         None \<Rightarrow> return None
       | Some (sec, ssec) \<Rightarrow> do {
           exec os (Fclose (fst r));
           p \<leftarrow> getg;
           return (Some (s32 (sec * tickspersec p + ssec))) }) }"

definition diff_line :: "string \<Rightarrow> string \<Rightarrow> int \<Rightarrow> int \<Rightarrow> string" where
  "diff_line name date running t =
     line_of name (date @ '' ('' @ fmt_d (u64_of (cdiv running t)) @ ''.'' @ fmt_d (u64_of (Csel_Prelude.cmod running t)) @ ''s)'')"

definition printtimediff :: "('w, stat_call) os \<Rightarrow> string \<Rightarrow> int \<Rightarrow> ('w, procstat, bool) prog" where
  "printtimediff os name x = do {
     b \<leftarrow> gettimesinceboot os;
     (case b of
        None \<Rightarrow> return False
      | Some sinceboot \<Rightarrow> do {
          p \<leftarrow> getg;
          let running = s32 (s64 (sinceboot - x));
          now \<leftarrow> sysi os Time_now;
          r \<leftarrow> sys os (Strftime (now - cdiv running (tickspersec p)));
          exec os (Put (diff_line name (c_str (snd r)) running (tickspersec p)));
          return True }) }"

text \<open>The prints of \<open>main\<close>: a label with the variable it shows.\<close>

datatype printing = One string string | Hex string string | Time_of string string | Diff string string
  | Name_of string | State_of string

definition named :: "string list \<Rightarrow> printing list" where
  "named xs = map (\<lambda>x. One x x) xs"

definition printings :: "printing list" where
  "printings = [One ''pid'' ''pid'', Name_of ''tcomm'', State_of ''state''] @
     named [''ppid'', ''pgid'', ''sid'', ''tty_nr'', ''tty_pgrp'', ''flags'', ''min_flt'', ''cmin_flt'', ''maj_flt'', ''cmaj_flt''] @
     [Time_of ''utime'' ''utime'', Time_of ''stime'' ''stimev'', Time_of ''cutime'' ''cutime'', Time_of ''cstime'' ''cstime'',
      One ''priority'' ''priority'', One ''nice'' ''nicev'', One ''num_threads'' ''num_threads'',
      Time_of ''it_real_value'' ''it_real_value'', Diff ''start_time'' ''start_time''] @
     named [''vsize'', ''rss'', ''rsslim'', ''start_code'', ''end_code'', ''start_stack'', ''esp'', ''eip''] @
     map (\<lambda>x. Hex x x) [''pending'', ''blocked'', ''sigign'', ''sigcatch''] @
     named [''wchan'', ''zero1'', ''zero2''] @ [Hex ''exit_signal'' ''exit_signal''] @
     named [''cpu'', ''rt_priority'', ''policy'']"

text \<open>The line of a print that makes no call.\<close>

fun simple_line :: "printing \<Rightarrow> procstat \<Rightarrow> string" where
  "simple_line (One l x) p = printone l (nums p x)"
| "simple_line (Hex l x) p = printonex l (nums p x)"
| "simple_line (Time_of l x) p = printtime l (nums p x) (tickspersec p)"
| "simple_line (Name_of l) p = printstr l (tcomm p)"
| "simple_line (State_of l) p = printchar l (state_char p)"
| "simple_line (Diff l x) p = []"

primrec print_all :: "printing list \<Rightarrow> ('w, stat_call) os \<Rightarrow> ('w, procstat, bool) prog" where
  "print_all [] os = return True"
| "print_all (i # is) os = do {
     p \<leftarrow> getg;
     ok \<leftarrow> (case i of
         Diff l x \<Rightarrow> printtimediff os l (s64 (nums p x))
       | _ \<Rightarrow> do { exec os (Put (simple_line i p)); return True });
     if ok then print_all is os else return False }"

text \<open>\<open>args\<close> is \<open>argv\<close> without the name of the program; \<open>None\<close> when the program crashes.\<close>

definition open_input :: "('w, stat_call) os \<Rightarrow> string list \<Rightarrow> ('w, procstat, bool) prog" where
  "open_input os args = (case args of
       [] \<Rightarrow> do {
         r \<leftarrow> sys os Stdin_stream;
         modg (\<lambda>p. p\<lparr>stream := snd r\<rparr>);
         return True }
     | arg # _ \<Rightarrow> do {
         exec os (Chdir_to ''/proc'');
         c \<leftarrow> sysi os (Chdir_to arg);
         if c = 0 then do {
           r \<leftarrow> sys os (Fopen ''stat'');
           modg (\<lambda>p. p\<lparr>stream := snd r\<rparr>);
           return (fst r \<noteq> 0) }
         else return False })"

definition procstat_main :: "('w, stat_call) os \<Rightarrow> string list \<Rightarrow> ('w, procstat, int option) prog" where
  "procstat_main os args = do {
     t \<leftarrow> sysi os Sysconf_clk_tck;
     modg (\<lambda>p. p\<lparr>tickspersec := t\<rparr>);
     ok \<leftarrow> open_input os args;
     if \<not> ok then do {
       exec os (Put_error ''open'');
       return (Some 1) }
     else do {
       modg (fold read_item readings);
       ok \<leftarrow> print_all printings os;
       return (if ok then Some 0 else None) } }"

section \<open>Reading the line of the kernel\<close>

lemma is_space_space [simp]: "is_space CHR '' ''"
  by (simp add: is_space_def)

lemma not_is_digit_space [simp]: "\<not> is_digit CHR '' ''"
  by (simp add: is_digit_def)

lemma fmt_d_not_Nil [simp]: "fmt_d v \<noteq> []"
  by (simp add: fmt_d_def)

lemma hd_fmt_d_not_space: "\<not> is_space (hd (fmt_d v))"
proof (cases "v < 0")
  case False
  have "is_digit (hd (fmt_u (nat v)))" by (rule fmt_u_digits [OF hd_in_set]) simp
  then have "\<not> is_space (hd (fmt_u (nat v)))" using is_digit_not_special by blast
  with False show ?thesis by (simp add: fmt_d_def)
qed (simp add: fmt_d_def is_space_def)

lemma dropWhile_hd: "s = [] \<or> \<not> P (hd s) \<Longrightarrow> dropWhile P s = s"
  by (cases s) auto

lemma scan_num_fmt_d: "scan_num (fmt_d v @ CHR '' '' # r) = (Some v, CHR '' '' # r)"
proof -
  have d: "takeWhile is_digit (fmt_u n @ CHR '' '' # r) = fmt_u n"
    "dropWhile is_digit (fmt_u n @ CHR '' '' # r) = CHR '' '' # r" for n
    using fmt_u_digits [of _ n] by (simp_all add: takeWhile_append2 dropWhile_append2)
  have v: "digits_val (fmt_u n @ CHR '' '' # r) = n" for n
    by (rule digits_val_fmt_u) simp
  have h: "hd (fmt_u n) \<noteq> CHR ''-'' \<and> hd (fmt_u n) \<noteq> CHR ''+''" for n
    using is_digit_not_special [OF fmt_u_digits [OF hd_in_set [OF fmt_u_not_Nil]]] by blast
  have "dropWhile is_space (fmt_d v @ CHR '' '' # r) = fmt_d v @ CHR '' '' # r"
    by (rule dropWhile_hd) (simp add: hd_append hd_fmt_d_not_space)
  then show ?thesis
    using h [of "nat v"] by (simp add: scan_num_def fmt_d_def Let_def d v hd_append)
qed

text \<open>The line of the kernel by the field numbers of the manual page \<^verbatim>\<open>proc(5)\<close>, which knows nothing of the
  program's variables: \<open>f n\<close> is the number in field \<open>n\<close>.  Field 1 is the process identifier, field 2 the
  name in its parentheses, \<open>comm\<close>, field 3 the state, \<open>st\<close>; \<open>rest\<close> is what follows field 41.\<close>

definition numbered :: "(nat \<Rightarrow> int) \<Rightarrow> nat list \<Rightarrow> string" where
  "numbered f ns = concat (map (\<lambda>n. fmt_d (f n) @ '' '') ns)"

definition stat_line :: "(nat \<Rightarrow> int) \<Rightarrow> string \<Rightarrow> char \<Rightarrow> string \<Rightarrow> string" where
  "stat_line f comm st rest = fmt_d (f 1) @ '' '' @ comm @ '' '' @ [st] @ '' '' @ numbered f [4..<42] @ rest"

text \<open>The same line by the variables of the program, \<open>v\<close> giving the number that is meant for each; the
  proofs about the reads use it.\<close>

definition fields :: "(string \<Rightarrow> int) \<Rightarrow> string list \<Rightarrow> string" where
  "fields v xs = concat (map (\<lambda>x. fmt_d (v x) @ '' '') xs)"


lemma fields_simps [simp]:
  "fields v [] = []" "fields v (x # xs) = fmt_d (v x) @ CHR '' '' # fields v xs"
  "fields v (xs @ ys) = fields v xs @ fields v ys"
  by (simp_all add: fields_def)

text \<open>A text that starts at a field.\<close>

definition at_field :: "string \<Rightarrow> bool" where
  "at_field s \<longleftrightarrow> dropWhile is_space s = s"

lemma at_field_simps [simp]: "at_field (fmt_d v @ r)" "\<not> is_space c \<Longrightarrow> at_field (c # r)"
  by (auto simp: at_field_def hd_append hd_fmt_d_not_space intro!: dropWhile_hd)


lemma readone_field:
  assumes "at_field r"
  shows "readone x (p\<lparr>stream := fmt_d (v x) @ CHR '' '' # r\<rparr>) = p\<lparr>nums := (nums p)(x := to_lld (v x)), stream := r\<rparr>"
    and "readunsigned x (p\<lparr>stream := fmt_d (v x) @ CHR '' '' # r\<rparr>) = p\<lparr>nums := (nums p)(x := to_llu (v x)), stream := r\<rparr>"
  using assms by (simp_all add: readone_def readunsigned_def scan_num_fmt_d then_space_def at_field_def)


lemma dropWhile_append_not: "s \<noteq> [] \<Longrightarrow> \<forall>c \<in> set s. \<not> P c \<Longrightarrow> dropWhile P (s @ r) = s @ r"
  by (cases s) auto

lemma readstr_word:
  assumes "w \<noteq> []" and "\<forall>c \<in> set w. \<not> is_space c" and "at_field r"
  shows "readstr (p\<lparr>stream := w @ CHR '' '' # r\<rparr>) = p\<lparr>tcomm := w, stream := r\<rparr>"
proof -
  have "takeWhile (\<lambda>c. \<not> is_space c) (w @ CHR '' '' # r) = w"
    "dropWhile (\<lambda>c. \<not> is_space c) (w @ CHR '' '' # r) = CHR '' '' # r"
    using assms(2) by (simp_all add: takeWhile_append2 dropWhile_append2)
  then show ?thesis
    using assms by (simp add: readstr_def scan_str_def then_space_def dropWhile_append_not at_field_def)
qed







text \<open>A conversion of a number that meets a letter takes nothing and stores nothing.\<close>

definition no_number :: "string \<Rightarrow> bool" where
  "no_number s \<longleftrightarrow> s \<noteq> [] \<and> \<not> is_space (hd s) \<and> \<not> is_digit (hd s) \<and> hd s \<noteq> CHR ''-'' \<and> hd s \<noteq> CHR ''+''"

lemma read_nothing:
  assumes "no_number (stream p)"
  shows "readone x p = p" and "readunsigned x p = p"
proof -
  obtain c s where c: "stream p = c # s" using assms by (cases "stream p") (auto simp: no_number_def)
  then have "scan_num (stream p) = (None, stream p)"
    using assms by (simp add: no_number_def scan_num_def Let_def)
  then show "readone x p = p" "readunsigned x p = p"
    by (simp_all add: readone_def readunsigned_def then_space_def)
qed

lemma fold_same: "(\<And>i. i \<in> set is \<Longrightarrow> f i p = p) \<Longrightarrow> fold f is p = p"
  by (induction "is") auto

text \<open>C37. A process whose name has a space, which the kernel allows, where the letter after the space
  is not followed by a space, a sign or a digit (as in \<open>(Web Content)\<close>): the name ends at the space, the
  letter is taken for the state, and from there on no number is read: every variable but the process
  identifier keeps its initial value.\<close>

theorem name_with_space:
  assumes "a \<noteq> []" and "\<forall>c \<in> set a. \<not> is_space c" and "\<not> is_space st'" and "no_number d"
  shows "fold read_item readings (p\<lparr>stream := stat_line f (a @ '' '' @ [st'] @ d) st rest\<rparr>) =
    p\<lparr>nums := (nums p)(''pid'' := to_lld (f 1)), tcomm := a, state_char := st',
      stream := d @ '' '' @ [st] @ '' '' @ numbered f [4..<42] @ rest\<rparr>"
proof -
  define s where "s = d @ CHR '' '' # st # CHR '' '' # numbered f [4..<42] @ rest"
  have line: "stat_line f (a @ '' '' @ [st'] @ d) st rest = fmt_d (f 1) @ CHR '' '' # a @ CHR '' '' # st' # s"
    by (simp add: stat_line_def s_def)
  have s: "no_number s" using assms(4) by (simp add: s_def no_number_def hd_append)
  then have at: "dropWhile is_space s = s" by (intro dropWhile_hd) (simp add: no_number_def)
  have at_a: "at_field (a @ r)" for r using assms(1,2) by (simp add: at_field_def dropWhile_append_not)
  let ?p1 = "p\<lparr>nums := (nums p)(''pid'' := to_lld (f 1))\<rparr>"
  let ?p = "?p1\<lparr>tcomm := a, state_char := st', stream := s\<rparr>"
  have "fold read_item [Num ''pid'', Str, Chr] (p\<lparr>stream := stat_line f (a @ '' '' @ [st'] @ d) st rest\<rparr>) = ?p"
    using assms(1-3) readone_field(1) [OF at_a [of "CHR '' '' # st' # s"], where x = "''pid''" and p = p and v = "\<lambda>_. f 1"]
      readstr_word [of a "st' # s" ?p1]
    by (simp only: line) (simp add: readchar_def scan_chr_def then_space_def at)
  moreover have "fold read_item (map Num numbers_1 @ [Unsigned ''start_time''] @ map Num numbers_2) ?p = ?p"
    using s by (intro fold_same) (auto simp: read_nothing)
  ultimately show ?thesis unfolding readings_def fold_append comp_def by (simp add: s_def)
qed

theorem name_with_space_witness:
  "nums (fold read_item readings (initial_procstat\<lparr>stream :=
     stat_line int (''(Web'' @ '' '' @ [CHR ''C''] @ ''ontent)'') CHR ''S'' ''5''\<rparr>)) ''rss'' = 0"
  using name_with_space [of "''(Web''" "CHR ''C''" "''ontent)''", where p = initial_procstat and f = int and st = "CHR ''S''" and rest = "''5''"]
  by (simp add: is_space_def is_digit_def no_number_def initial_procstat_def)

text \<open>With a digit after the letter, as in \<open>(Foo V2)\<close>, that number is taken for the parent's identifier, and
  the closing parenthesis stops the reads.\<close>

lemma name_with_number:
  "map (nums (fold read_item readings (initial_procstat\<lparr>stream := stat_line int ''(Foo V2)'' CHR ''S'' ''5''\<rparr>)))
     [''pid'', ''ppid'', ''pgid'', ''vsize''] = [1, 2, 0, 0]"
  by code_simp

section \<open>Times\<close>

lemma bits_bounds: "0 < n \<Longrightarrow> 2 ^ bits n \<le> 2 * n \<and> n < 2 ^ bits n"
proof (induction n rule: bits.induct)
  case (1 n)
  show ?case
  proof (cases "n div 2 = 0")
    case True
    with 1(2) have "n = 1" by simp
    then show ?thesis by (simp add: bits.simps [of "Suc 0"] bits.simps [of 0])
  next
    case False
    then have "2 ^ bits (n div 2) \<le> 2 * (n div 2)" "n div 2 < 2 ^ bits (n div 2)" using 1 by auto
    then have "2 ^ bits (n div 2) \<le> n" "n < 2 * 2 ^ bits (n div 2)" by linarith+
    with 1(2) show ?thesis by (simp add: bits.simps [of n])
  qed
qed

lemma round_even_near: "0 < b \<Longrightarrow> 2 * \<bar>round_even a b * b - a\<bar> \<le> b"
proof -
  assume b: "0 < b"
  have a: "a = a div b * b + a mod b" by simp
  have "0 \<le> a mod b" "a mod b < b" using b by simp_all
  moreover have "round_even a b * b - a = (if 2 * (a mod b) < b \<or> 2 * (a mod b) = b \<and> even (a div b) then - (a mod b) else b - a mod b)"
    using a by (auto simp: round_even_def Let_def algebra_simps)
  ultimately show ?thesis by (auto split: if_splits)
qed

lemma round_even_unique:
  assumes "0 < b" and "2 * \<bar>N * b - a\<bar> < b"
  shows "round_even a b = N"
proof -
  have "2 * \<bar>R - M\<bar> < 2 * b" if "2 * \<bar>R - a\<bar> \<le> b" "2 * \<bar>M - a\<bar> < b" for R M :: int
    using that by (auto simp: abs_if split: if_splits)
  from this [OF round_even_near [OF assms(1), of a] assms(2)]
  have "\<bar>(round_even a b - N) * b\<bar> < b" by (simp add: left_diff_distrib)
  then have "\<bar>round_even a b - N\<bar> * b < 1 * b" using assms(1) by (simp add: abs_mult)
  then have "\<bar>round_even a b - N\<bar> < 1" using assms(1) by (metis mult_less_cancel_right_pos)
  then show ?thesis by simp
qed

lemma scale_ratio:
  assumes "scale a b e = (p, q)" and "0 < b"
  shows "0 < q" and "real_of_int p / real_of_int q = real_of_int a / real_of_int b * 2 powi (- e)"
proof -
  have pq: "p = a * 2 ^ nat (- e)" "q = b * 2 ^ nat e" using assms(1) by (auto simp: scale_def)
  show "0 < q" using assms(2) by (simp add: pq)
  show "real_of_int p / real_of_int q = real_of_int a / real_of_int b * 2 powi (- e)"
    by (cases "0 \<le> e") (simp_all add: pq power_int_def power_inverse divide_simps)
qed

text \<open>The quotient, scaled, has 53 bits.\<close>

lemma exponent_range:
  assumes "0 < a" and "0 < b"
  defines "r \<equiv> real_of_int a / real_of_int b * 2 powi (- exponent a b)"
  shows "2 ^ 52 \<le> r \<and> r < 2 ^ 53"
proof -
  define A B where "A = bits (nat a)" and "B = bits (nat b)"
  define X Y where "X = (2::real) ^ A" and "Y = (2::real) ^ B"
  define e where "e = int A - int B - 53"
  obtain p q where pq: "scale a b e = (p, q)" by fastforce
  have q: "0 < q" and ratio: "real_of_int p / real_of_int q = real_of_int a / real_of_int b * 2 powi (- e)"
    using scale_ratio [OF pq assms(2)] by auto
  have b1: "2 ^ bits n \<le> 2 * real n \<and> real n < 2 ^ bits n" if "0 < n" for n
    using bits_bounds [OF that] by (metis of_nat_le_iff of_nat_less_iff of_nat_mult of_nat_numeral of_nat_power)
  have a: "X \<le> 2 * real_of_int a" "real_of_int a < X" and b: "Y \<le> 2 * real_of_int b" "real_of_int b < Y"
    using b1 [of "nat a"] b1 [of "nat b"] assms(1,2) by (simp_all add: X_def Y_def A_def B_def)
  have pos: "0 < X" "0 < Y" "0 < real_of_int b" "0 < real_of_int a" using assms(1,2) by (simp_all add: X_def Y_def)
  have "2 powi (- e) = Y * 2 ^ 53 / X"
    by (simp add: e_def X_def Y_def power_int_diff power_int_add)
  then have s: "real_of_int p / real_of_int q = real_of_int a * Y * 2 ^ 53 / (real_of_int b * X)"
    by (simp add: ratio)
  have "X * real_of_int b < 2 * real_of_int a * Y"
    using mult_le_less_imp_less [OF a(1) b(2)] pos by simp
  then have low: "2 ^ 52 < real_of_int p / real_of_int q"
    using pos by (simp add: s field_simps)
  have "real_of_int a * Y < X * (2 * real_of_int b)"
    using mult_less_le_imp_less [OF a(2) b(1)] pos by simp
  then have high: "real_of_int p / real_of_int q < 2 ^ 54"
    using pos by (simp add: s field_simps)
  have cmp: "p < q * 2 ^ 53 \<longleftrightarrow> real_of_int p / real_of_int q < 2 ^ 53"
  proof -
    have "p < q * 2 ^ 53 \<longleftrightarrow> real_of_int p < real_of_int (q * 2 ^ 53)" by (simp only: of_int_less_iff)
    then show ?thesis using q by (simp add: field_simps)
  qed
  have ex: "exponent a b = (if p < q * 2 ^ 53 then e else e + 1)"
    using pq by (simp add: exponent_def Let_def A_def B_def e_def)
  show ?thesis
  proof (cases "p < q * 2 ^ 53")
    case True
    then show ?thesis using low cmp ratio by (simp add: r_def ex)
  next
    case False
    have "(2::real) powi (- (e + 1)) = 2 powi (- e) / 2" by (simp add: power_int_diff)
    with False have "r = real_of_int p / real_of_int q / 2"
      unfolding r_def ex ratio by (simp only: if_False)
    then show ?thesis using False high cmp by simp
  qed
qed

text \<open>The result of a division is within half a unit of the last place.\<close>

lemma double_div_near:
  assumes "0 < a" and "0 < b" and "double_div a b = (m, e)"
  shows "\<bar>real_of_int m * 2 powi e - real_of_int a / real_of_int b\<bar> \<le> 2 powi e / 2"
    and "2 powi e * 2 ^ 52 \<le> real_of_int a / real_of_int b"
    and "real_of_int a / real_of_int b < 2 powi e * 2 ^ 53"
proof -
  obtain p q where pq: "scale a b e = (p, q)" by fastforce
  have e: "e = exponent a b" and m: "m = round_even p q"
    using assms(1,3) pq by (auto simp: double_div_def Let_def split: prod.splits)
  have q: "0 < q" and ratio: "real_of_int p / real_of_int q = real_of_int a / real_of_int b * 2 powi (- e)"
    using scale_ratio [OF pq assms(2)] by auto
  have unit: "(2::real) powi e * 2 powi (- e) = 1" "0 < (2::real) powi e"
    by (simp_all add: power_int_minus)
  have ab: "real_of_int a / real_of_int b = real_of_int p / real_of_int q * 2 powi e"
  proof -
    have "real_of_int p / real_of_int q * 2 powi e = real_of_int a / real_of_int b * (2 powi e * 2 powi (- e))"
      unfolding ratio by (simp only: mult.assoc mult.commute [of "2 powi (- e)" "2 powi e"])
    then show ?thesis unfolding unit(1) mult_1_right by (rule sym)
  qed
  have "2 * \<bar>real_of_int m * real_of_int q - real_of_int p\<bar> \<le> real_of_int q"
  proof -
    have "real_of_int (2 * \<bar>m * q - p\<bar>) \<le> real_of_int q"
      using round_even_near [OF q, of p] unfolding m of_int_le_iff .
    then show ?thesis by simp
  qed
  then have "\<bar>real_of_int m - real_of_int p / real_of_int q\<bar> \<le> 1 / 2"
    using q by (simp add: field_simps abs_if split: if_splits)
  then have "\<bar>real_of_int m - real_of_int p / real_of_int q\<bar> * 2 powi e \<le> 1 / 2 * 2 powi e"
    using unit(2) by (intro mult_right_mono) auto
  moreover have "\<bar>real_of_int m * 2 powi e - real_of_int a / real_of_int b\<bar> =
      \<bar>real_of_int m - real_of_int p / real_of_int q\<bar> * 2 powi e"
    unfolding ab left_diff_distrib [symmetric] abs_mult using unit(2) by simp
  ultimately show "\<bar>real_of_int m * 2 powi e - real_of_int a / real_of_int b\<bar> \<le> 2 powi e / 2" by simp
  have "2 ^ 52 \<le> real_of_int p / real_of_int q" "real_of_int p / real_of_int q < 2 ^ 53"
    using exponent_range [OF assms(1,2)] by (simp_all add: ratio e)
  then show "2 powi e * 2 ^ 52 \<le> real_of_int a / real_of_int b" "real_of_int a / real_of_int b < 2 powi e * 2 ^ 53"
    unfolding ab using unit(2) by (simp_all only: mult.commute [of "2 powi e"] mult_le_cancel_right_pos mult_less_cancel_right_pos)
qed

lemma exponent_negative:
  assumes "2 powi e * 2 ^ 52 \<le> (r::real)" and "r < 2 ^ 52"
  shows "e < 0" and "2 powi e * 2 ^ nat (- e) = (1::real)"
proof -
  show e: "e < 0"
  proof (rule ccontr)
    assume "\<not> e < 0"
    then have "1 * 2 ^ 52 \<le> (2::real) powi e * 2 ^ 52"
      by (intro mult_right_mono) (simp_all add: power_int_def)
    with assms show False by simp
  qed
  then show "2 powi e * 2 ^ nat (- e) = (1::real)"
    by (simp add: power_int_def power_mult_distrib [symmetric])
qed

text \<open>Every integer below 2^52 is a \<open>double\<close>.\<close>

lemma integer_exact:
  assumes "0 < x" and "x < 2 ^ 52" and "double_div x 1 = (m, e)"
  shows "e < 0" and "m = x * 2 ^ nat (- e)"
proof -
  note near = double_div_near [OF assms(1) zero_less_one assms(3)]
  have x: "real_of_int x / real_of_int 1 < 2 ^ 52"
    using assms(2) by (metis div_by_1 of_int_1 of_int_less_iff of_int_numeral of_int_power)
  note neg = exponent_negative [OF near(2) x]
  show "e < 0" by (rule neg(1))
  let ?k = "2 ^ nat (- e) :: real"
  have "\<bar>real_of_int m * 2 powi e - real_of_int x\<bar> * ?k \<le> 2 powi e / 2 * ?k"
    using near(1) by (intro mult_right_mono) simp_all
  moreover have "\<bar>real_of_int m * 2 powi e - real_of_int x\<bar> * ?k = \<bar>real_of_int m * (2 powi e * ?k) - real_of_int x * ?k\<bar>"
    by (simp add: abs_mult_pos left_diff_distrib mult.assoc del: power_int_minus)
  ultimately have "\<bar>real_of_int m - real_of_int x * ?k\<bar> \<le> 1 / 2"
    using neg(2) by simp
  then have "\<bar>real_of_int (m - x * 2 ^ nat (- e))\<bar> < 1" by simp
  then have "\<bar>m - x * 2 ^ nat (- e)\<bar> < 1" by linarith
  then show "m = x * 2 ^ nat (- e)" by simp
qed

text \<open>A count of ticks up to 2^38 survives the conversion, the division and the printing.\<close>

lemma ticks_exact:
  assumes "0 \<le> x" and "x < 2 ^ 38"
  shows "ticks_to_seconds x 100 =
    fmt_u (nat (x div 100)) @ ''.'' @ zero_pad 6 (fmt_u (nat (x mod 100 * 10000)))"
proof (cases "x = 0")
  case True
  then show ?thesis by (simp add: ticks_to_seconds_def double_div_def fmt_f_def round_even_def)
next
  case False
  obtain m e where d: "double_div x 1 = (m, e)" by fastforce
  have x: "0 < x" "x < 2 ^ 52" using assms False by simp_all
  note exact = integer_exact [OF x d]
  define k where "k = (2::int) ^ nat (- e)"
  have k: "0 < k" by (simp add: k_def)
  obtain m' e' where d': "double_div (x * k) (100 * k) = (m', e')" by fastforce
  have ratio: "real_of_int (x * k) / real_of_int (100 * k) = real_of_int x / 100" using k by simp
  have top: "real_of_int x < 2 ^ 38"
    using assms(2) by (metis of_int_less_iff of_int_numeral of_int_power)
  have near: "\<bar>real_of_int m' * 2 powi e' - real_of_int x / 100\<bar> \<le> 2 powi e' / 2"
    "2 powi e' * 2 ^ 52 \<le> real_of_int x / 100"
    using double_div_near [OF _ _ d', unfolded ratio] k x by simp_all
  have neg: "e' < 0" "2 powi e' * 2 ^ nat (- e') = (1::real)"
    using exponent_negative [OF near(2)] top by simp_all
  let ?K = "2 ^ nat (- e') :: real"
  have unit: "2 powi e' / 2 * 10 ^ 6 < (1 / 2 :: real)" using near(2) top by simp
  have "\<bar>real_of_int m' * 2 powi e' - real_of_int x / 100\<bar> * 10 ^ 6 \<le> 2 powi e' / 2 * 10 ^ 6"
    by (intro mult_right_mono near(1)) simp
  also note unit
  finally have "\<bar>real_of_int m' * 2 powi e' - real_of_int x / 100\<bar> * 10 ^ 6 < 1 / 2" .
  then have "\<bar>real_of_int m' * 2 powi e' - real_of_int x / 100\<bar> * 10 ^ 6 * ?K < 1 / 2 * ?K"
    by (rule mult_strict_right_mono) simp
  moreover have "\<bar>real_of_int m' * 2 powi e' - real_of_int x / 100\<bar> * 10 ^ 6 * ?K =
      \<bar>(real_of_int m' * 10 ^ 6) * (2 powi e' * ?K) - real_of_int x * 10 ^ 4 * ?K\<bar>"
  proof -
    have "\<bar>real_of_int m' * 2 powi e' - real_of_int x / 100\<bar> * 10 ^ 6 * ?K =
        \<bar>(real_of_int m' * 2 powi e' - real_of_int x / 100) * 10 ^ 6 * ?K\<bar>"
      by (simp only: abs_mult) simp
    also have "(real_of_int m' * 2 powi e' - real_of_int x / 100) * 10 ^ 6 * ?K =
        (real_of_int m' * 10 ^ 6) * (2 powi e' * ?K) - real_of_int x * 10 ^ 4 * ?K"
      by (simp add: algebra_simps)
    finally show ?thesis .
  qed
  ultimately have "\<bar>(real_of_int m' * 10 ^ 6) * (2 powi e' * ?K) - real_of_int x * 10 ^ 4 * ?K\<bar> < 1 / 2 * ?K"
    by (simp only:)
  then have "\<bar>real_of_int x * 10 ^ 4 * ?K - real_of_int m' * 10 ^ 6\<bar> < 1 / 2 * ?K"
    unfolding neg(2) mult_1_right by (simp only: abs_minus_commute)
  then have "2 * \<bar>real_of_int (x * 10 ^ 4 * 2 ^ nat (- e') - m' * 10 ^ 6)\<bar> < real_of_int (2 ^ nat (- e'))"
    by simp
  then have "2 * \<bar>x * 10 ^ 4 * 2 ^ nat (- e') - m' * 10 ^ 6\<bar> < 2 ^ nat (- e')"
    by linarith
  then have round: "round_even (m' * 10 ^ 6) (2 ^ nat (- e')) = x * 10 ^ 4"
    by (intro round_even_unique) simp_all
  have "nat (x * 10 ^ 4) div 10 ^ 6 = nat (x div 100)" "nat (x * 10 ^ 4) mod 10 ^ 6 = nat (x mod 100 * 10000)"
    using assms(1) mult_mod_left [of "nat x" 100 10000]
    by (simp_all add: nat_div_distrib nat_mod_distrib nat_mult_distrib)
  moreover have "ticks_to_seconds x 100 = fmt_f (m', e')"
    using exact d d' x assms by (simp add: ticks_to_seconds_def k_def Let_def)
  ultimately show ?thesis using round neg(1) by (simp add: fmt_f_def Let_def)
qed

text \<open>C36. The times of a process: with 100 ticks a second, every count of ticks up to 2^38 (eighty-seven
  years of processor time) is printed exactly, as seconds and hundredths followed by four zeros, although
  the division and the conversion to decimal both round.\<close>

theorem ticks_printed_exactly:
  assumes "0 \<le> x" and "x < 2 ^ 38"
  shows "ticks_to_seconds x 100 =
    fmt_u (nat (x div 100)) @ ''.'' @ zero_pad 6 (fmt_u (nat (x mod 100 * 10000)))"
  using assms by (rule ticks_exact)

theorem ticks_printed_exactly_witness: "ticks_to_seconds 12345 100 = ''123.450000''"
proof -
  have "ticks_to_seconds 12345 100 = fmt_u (nat (12345 div 100)) @ ''.'' @ zero_pad 6 (fmt_u (nat (12345 mod 100 * 10000)))"
    by (rule ticks_printed_exactly) simp_all
  also have "\<dots> = ''123.450000''" by (simp add: fmt_u.simps zero_pad_def)
  finally show ?thesis .
qed

section \<open>The report\<close>

text \<open>The lines that a history has printed.\<close>

definition puts :: "stat_call history \<Rightarrow> string list" where
  "puts h = concat (map (\<lambda>(c, r). case c of Put s \<Rightarrow> [s] | _ \<Rightarrow> []) h)"

lemma puts_simps [simp]:
  "puts [] = []" "puts (h @ g) = puts h @ puts g" "puts ((c, r) # h) = (case c of Put s \<Rightarrow> [s] | _ \<Rightarrow> []) @ puts h"
  by (simp_all add: puts_def)


























text \<open>A process that cannot be read: the error is printed, and nothing else.\<close>

lemma no_process:
  assumes "\<forall>h d. fst (e h (Chdir_to d)) \<noteq> 0"
  shows "wp (procstat_main (recorder e) [dir]) ([], p) (\<lambda>r (h, _). r = Some 1 \<and> puts h = [] \<and> Put_error ''open'' \<in> fst ` set h)"
  unfolding procstat_main_def open_input_def exec_def list.case wp_simps
  by (simp add: assms wp_sys wp_sysi wp_simps)

end
