(* ===== verification/Led.thy ===== *)
theory Led
  imports Posix
begin

text \<open>
  The two LED programs of \<^verbatim>\<open>src/04_file_systems\<close>: \<open>better_led.c\<close>, where a thread serves the buttons
  and another blinks the LED with a timer, and \<open>silly_led_control.c\<close>, which polls the clock.
\<close>

section \<open>The LED\<close>

definition LED :: string where "LED = ''10''"
definition LED_UNEXPORT :: string where "LED_UNEXPORT = ''/sys/class/gpio/unexport''"
definition LED_EXPORT :: string where "LED_EXPORT = ''/sys/class/gpio/export''"
definition GPIO_LED :: string where "GPIO_LED = ''/sys/class/gpio/gpio10''"

definition write_file :: "('w, call) os \<Rightarrow> string \<Rightarrow> string \<Rightarrow> ('w, 'g, unit) prog" where
  "write_file os path text = do {
     f \<leftarrow> sysi os (Open path [O_WRONLY]);
     exec os (Write f text);
     exec os (Close f) }"

definition open_led :: "('w, call) os \<Rightarrow> ('w, 'g, int) prog" where
  "open_led os = do {
     write_file os LED_UNEXPORT LED;
     write_file os LED_EXPORT LED;
     write_file os (GPIO_LED @ ''/direction'') ''out'';
     sysi os (Open (GPIO_LED @ ''/value'') [O_RDWR]) }"

section \<open>better\_led: period and threads\<close>

abbreviation (input) MIN_BLINK_PERIOD_MS :: int where "MIN_BLINK_PERIOD_MS \<equiv> 50"
abbreviation (input) MAX_BLINK_PERIOD_MS :: int where "MAX_BLINK_PERIOD_MS \<equiv> 500"
abbreviation (input) BLINK_STEP_MS :: int where "BLINK_STEP_MS \<equiv> 50"

text \<open>The only shared variable is \<open>blink_frequ_ms\<close>, always accessed under the lock: it is the state of
  the programs below.\<close>

definition press :: "nat \<Rightarrow> int \<Rightarrow> int" where
  "press button p =
     (if button = 0 then
        (if p - BLINK_STEP_MS < MIN_BLINK_PERIOD_MS then MIN_BLINK_PERIOD_MS else p - BLINK_STEP_MS)
      else if button = 1 then MAX_BLINK_PERIOD_MS
      else if button = 2 then
        (if p + BLINK_STEP_MS > MAX_BLINK_PERIOD_MS then MAX_BLINK_PERIOD_MS else p + BLINK_STEP_MS)
      else p)"

definition button_event :: "('w, call) os \<Rightarrow> char \<Rightarrow> ('w, int, unit) prog" where
  "button_event os data = do {
     modg (press (of_char data));
     p \<leftarrow> getg;
     exec os (Printf (''New period: '' @ fmt_d p @ '' ms'' @ [NL]));
     exec os (Process (Syslog (''New period: '' @ fmt_d p @ '' ms''))) }"

text \<open>\<open>fuel\<close> bounds the rounds of a thread; \<open>None\<close> when it is used up.\<close>

primrec button_thread_func :: "nat \<Rightarrow> ('w, call) os \<Rightarrow> int \<Rightarrow> ('w, int, unit option) prog" where
  "button_thread_func 0 os epoll_fd = return None"
| "button_thread_func (Suc fuel) os epoll_fd = do {
     r \<leftarrow> sys os (Epoll_wait epoll_fd 3);
     if fst r = -1 then do {
       exec os (Process (Print_errno ''Failed to wait for events: ''));
       return (Some ()) }
     else do {
       for_each (rd_bytes 3 r) (button_event os);
       button_thread_func fuel os epoll_fd } }"

definition timer_value :: "int \<Rightarrow> int \<times> int" where
  "timer_value p = (cdiv p 1000, cmod p 1000 * 1000000)"

definition set_timer_period :: "('w, call) os \<Rightarrow> int \<Rightarrow> ('w, int, unit) prog" where
  "set_timer_period os tfd = do {
     p \<leftarrow> getg;
     r \<leftarrow> sysi os (Timerfd_settime tfd (timer_value p) (timer_value p));
     if r = -1 then exec os (Process (Print_errno ''Failed to set LED timer period: '')) else return () }"

definition set_led_state :: "('w, call) os \<Rightarrow> int \<Rightarrow> bool \<Rightarrow> ('w, 'g, unit) prog" where
  "set_led_state os led state = exec os (Pwrite led (if state then ''1'' else ''0'') 0)"

primrec led_loop :: "nat \<Rightarrow> ('w, call) os \<Rightarrow> int \<Rightarrow> int \<Rightarrow> bool \<Rightarrow> ('w, int, unit option) prog" where
  "led_loop 0 os led tfd led_state = return None"
| "led_loop (Suc fuel) os led tfd led_state = do {
     set_timer_period os tfd;
     r \<leftarrow> sysi os (Read tfd 8);
     if r = -1 then do {
       exec os (Process (Print_errno ''Failed to read from LED timer file descriptor: ''));
       return (Some ()) }
     else do {
       set_led_state os led (\<not> led_state);
       led_loop fuel os led tfd (\<not> led_state) } }"

definition led_thread_func :: "nat \<Rightarrow> ('w, call) os \<Rightarrow> int \<Rightarrow> ('w, int, unit option) prog" where
  "led_thread_func fuel os led = do {
     tfd \<leftarrow> sysi os Timerfd_create;
     if tfd = -1 then do {
       exec os (Printf ''Failed to create LED timer file descriptor'');
       return (Some ()) }
     else led_loop fuel os led tfd False }"

section \<open>better\_led: main\<close>

definition buttons_gpios :: "int list" where "buttons_gpios = [0, 2, 3]"

definition button_path :: "int \<Rightarrow> string \<Rightarrow> string" where
  "button_path n attr = ''/sys/class/gpio/gpio'' @ fmt_d n @ attr"

text \<open>The buttons from number \<open>i\<close> on, \<open>n\<close> more; \<open>False\<close> when the descriptor cannot be watched.\<close>

primrec init_buttons :: "nat \<Rightarrow> ('w, call) os \<Rightarrow> int \<Rightarrow> nat \<Rightarrow> ('w, 'g, bool) prog" where
  "init_buttons 0 os epoll_fd i = return True"
| "init_buttons (Suc n) os epoll_fd i = do {
     let gpio = buttons_gpios ! i;
     write_file os LED_UNEXPORT (fmt_d gpio);
     write_file os LED_EXPORT (fmt_d gpio);
     write_file os (button_path gpio ''/direction'') ''in'';
     write_file os (button_path gpio ''/edge'') ''rising'';
     fd \<leftarrow> sysi os (Open (button_path gpio ''/value'') [O_RDONLY, O_NONBLOCK]);
     r \<leftarrow> sysi os (Epoll_ctl epoll_fd EPOLL_CTL_ADD fd [EPOLLPRI, EPOLLET] i);
     if r = -1 then do {
       exec os (Process (Print_errno ''Failed to add file descriptor to epoll instance: ''));
       return False }
     else init_buttons n os epoll_fd (Suc i) }"

definition better_led_main :: "('w, call) os \<Rightarrow> ('w, 'g, int) prog" where
  "better_led_main os = do {
     exec os (Process Openlog);
     led \<leftarrow> open_led os;
     set_led_state os led True;
     epoll_fd \<leftarrow> sysi os Epoll_create1;
     if epoll_fd = -1 then do {
       exec os (Process (Print_errno ''Failed to create epoll instance: ''));
       return 1 }
     else do {
     ok \<leftarrow> init_buttons 3 os epoll_fd 0;
     if \<not> ok then return 1
     else do {
     r \<leftarrow> sysi os (Process Pthread_mutex_init);
     if r \<noteq> 0 then do {
       exec os (Printf (''Mutex init failed'' @ [NL]));
       return 1 }
     else do {
       exec os (Process (Pthread_create ''button_thread_func''));
       exec os (Process (Pthread_create ''led_thread_func''));
       exec os (Process (Pthread_join ''button_thread''));
       exec os (Process (Pthread_join ''led_thread''));
       exec os (Process Pthread_mutex_destroy);
       exec os (Close led);
       exec os (Process Closelog);
       return 0 }}}}"

section \<open>silly\_led\<close>

definition silly_period :: "string option \<Rightarrow> int" where
  "silly_period arg = (case arg of None \<Rightarrow> 1000 | Some s \<Rightarrow> atoi s) * 1000000"

definition silly_on :: "int \<Rightarrow> int" where
  "silly_on period = cdiv period 100 * 2"

definition silly_toggle :: "int \<Rightarrow> int \<Rightarrow> nat \<Rightarrow> int \<Rightarrow> bool" where
  "silly_toggle p1 p2 k delta \<longleftrightarrow> k = 0 \<and> delta \<ge> p1 \<or> k = 1 \<and> delta \<ge> p2"

text \<open>The loop; \<open>sizeof("1")\<close> is 2, so the terminator is written too.  \<open>fuel\<close> bounds the rounds.\<close>

primrec silly_loop :: "nat \<Rightarrow> ('w, call) os \<Rightarrow> int \<Rightarrow> int \<Rightarrow> int \<Rightarrow> int \<times> int \<Rightarrow> nat \<Rightarrow> ('w, 'g, unit) prog" where
  "silly_loop 0 os led p1 p2 t1 k = return ()"
| "silly_loop (Suc fuel) os led p1 p2 t1 k = do {
     r \<leftarrow> sys os (Process (Clock_gettime ''CLOCK_MONOTONIC''));
     let t2 = timespec r;
     if silly_toggle p1 p2 k (elapsed_ns t1 t2) then do {
       let k = (k + 1) mod 2;
       (if k = 0 then exec os (Pwrite led (''1'' @ [NUL]) 0)
        else exec os (Pwrite led (''0'' @ [NUL]) 0));
       silly_loop fuel os led p1 p2 t2 k }
     else silly_loop fuel os led p1 p2 t1 k }"

definition silly_open_led :: "('w, call) os \<Rightarrow> ('w, 'g, int) prog" where
  "silly_open_led os = do {
     write_file os ''/sys/class/gpio/unexport'' ''10'';
     write_file os ''/sys/class/gpio/export'' ''10'';
     write_file os ''/sys/class/gpio/gpio10/direction'' ''out'';
     sysi os (Open ''/sys/class/gpio/gpio10/value'' [O_RDWR]) }"

definition silly_main :: "nat \<Rightarrow> ('w, call) os \<Rightarrow> string option \<Rightarrow> ('w, 'g, unit) prog" where
  "silly_main fuel os arg = do {
     let period = silly_period arg;
     let p1 = silly_on period;
     let p2 = period - p1;
     led \<leftarrow> silly_open_led os;
     exec os (Pwrite led (''1'' @ [NUL]) 0);
     r \<leftarrow> sys os (Process (Clock_gettime ''CLOCK_MONOTONIC''));
     silly_loop fuel os led p1 p2 (timespec r) 0 }"

section \<open>Properties of better\_led\<close>

definition period_ok :: "int \<Rightarrow> bool" where
  "period_ok p \<longleftrightarrow> 50 \<le> p \<and> p \<le> 500 \<and> 50 dvd p"

lemma period_ok_press: "period_ok p \<Longrightarrow> period_ok (press b p)"
  by (auto simp: period_ok_def press_def)

lemma wp_button_event:
  "period_ok p \<Longrightarrow> (\<And>h' p'. period_ok p' \<Longrightarrow> Q () (h', p')) \<Longrightarrow> wp (button_event (recorder e) b) (h, p) Q"
  by (auto simp: button_event_def wp_simps intro!: wp_exec period_ok_press)

lemma wp_button_events:
  "period_ok p \<Longrightarrow> (\<And>h' p'. period_ok p' \<Longrightarrow> Q () (h', p')) \<Longrightarrow>
    wp (for_each bs (button_event (recorder e))) (h, p) Q"
  by (induction bs arbitrary: h p)
    (auto simp: wp_return wp_bind simp del: recorder_simp intro!: wp_button_event)

lemma wp_button_thread:
  "period_ok p \<Longrightarrow> wp (button_thread_func fuel (recorder e) fd) (h, p) (\<lambda>_ s. period_ok (snd s))"
proof (induction fuel arbitrary: h p)
  case (Suc fuel)
  then show ?case
    by (auto simp: wp_simps simp del: recorder_simp intro!: wp_sys_any wp_exec wp_button_events)
qed (simp add: wp_simps)

text \<open>C39. Whatever the buttons do, the blink period stays a multiple of 50 ms between 50 and 500 ms, so
  that the value given to the timer is a positive number of nanoseconds below one second: the timer
  is never disarmed by a zero and never refused.\<close>

theorem blink_period_bounded:
  "wp (button_thread_func fuel (recorder e) fd) (h, 500) (\<lambda>_ (_, p).
     50 dvd p \<and> (\<exists>ns. timer_value p = (0, ns) \<and> 50000000 \<le> ns \<and> ns \<le> 500000000 \<and> ns = p * 1000000))"
proof -
  have "timer_value p = (0, p * 1000000)" if "50 \<le> p" "p \<le> 500" for p
    using that by (simp add: timer_value_def cdiv_nonneg cmod_nonneg)
  then show ?thesis
    by (intro wp_mono [OF wp_button_thread]) (auto simp: period_ok_def)
qed

end
