(* ===== verification/Multiproc.thy ===== *)
theory Multiproc
  imports Posix
begin

text \<open>
  The programs of \<^verbatim>\<open>src/05_multiprocessing_and_schedulers\<close>: a parent and a child on a socket pair
  (\<open>exercise_1\<close>), a large allocation (\<open>exercise_2\<close>) and two busy processes (\<open>exercise_3\<close>).  A process
  that calls \<open>exit(n)\<close> is \<open>Inl n\<close>.  \<open>fflush\<close> is not modelled.
\<close>

section \<open>Signals and affinity\<close>

definition signal_name :: "int \<Rightarrow> string" where
  "signal_name signum =
     (if signum = 1 then ''SIGHUP'' else if signum = 2 then ''SIGINT'' else if signum = 3 then ''SIGQUIT''
      else if signum = 6 then ''SIGABRT'' else if signum = 15 then ''SIGTERM'' else ''UNKNOWN'')"

text \<open>The text always fits the buffer of 128 bytes.\<close>

definition signal_handler :: "('w, call) os \<Rightarrow> int \<Rightarrow> ('w, 'g, unit) prog" where
  "signal_handler os signum = do {
     pid \<leftarrow> sysi os (Process Getpid);
     exec os (Write 1 (take 127 (''[PID '' @ fmt_d pid @ ''] Signal '' @ signal_name signum @
       '' received and ignored.'' @ [NL]))) }"

primrec catch_signals :: "int list \<Rightarrow> ('w, call) os \<Rightarrow> ('w, 'g, int + unit) prog" where
  "catch_signals [] os = return (Inr ())"
| "catch_signals (s # ss) os = do {
     r \<leftarrow> sysi os (Process (Sigaction s));
     if r = -1 then do { exec os (Perror ''sigaction''); return (Inl 1) }
     else catch_signals ss os }"

definition setup_signals :: "('w, call) os \<Rightarrow> ('w, 'g, int + unit) prog" where
  "setup_signals os = catch_signals [1, 2, 3, 6, 15] os"

definition pin_to_core :: "('w, call) os \<Rightarrow> int \<Rightarrow> ('w, 'g, unit) prog" where
  "pin_to_core os core = do {
     r \<leftarrow> sysi os (Process (Sched_setaffinity core));
     pid \<leftarrow> sysi os (Process Getpid);
     if r = -1 then
       exec os (Process (Print_errno (''[PID '' @ fmt_d pid @ ''] Warning: sched_setaffinity(core '' @ fmt_d core @ ''): '')))
     else exec os (Printf (''[PID '' @ fmt_d pid @ ''] Affinity pinned to core '' @ fmt_d core @ ''.'' @ [NL])) }"

section \<open>The child\<close>

definition messages :: "string list" where
  "messages = [''Hello from the child!'', ''How are you, parent?'', ''Bybye'', ''exit'']"

primrec send_messages :: "string list \<Rightarrow> ('w, call) os \<Rightarrow> int \<Rightarrow> ('w, 'g, unit) prog" where
  "send_messages [] os sock_fd = return ()"
| "send_messages (msg # msgs) os sock_fd = do {
     exec os (Process (Sleep 1));
     sent \<leftarrow> sysi os (Write sock_fd (msg @ [NUL]));
     if sent = -1 then exec os (Perror ''[CHILD] write'')
     else do {
       pid \<leftarrow> sysi os (Process Getpid);
       exec os (Printf (''[CHILD PID '' @ fmt_d pid @ ''] Message sent: \"'' @ msg @ ''\"'' @ [NL]));
       if msg = ''exit'' then return ()
       else send_messages msgs os sock_fd } }"

definition child_process :: "('w, call) os \<Rightarrow> int \<Rightarrow> ('w, 'g, int) prog" where
  "child_process os sock_fd = do {
     pin_to_core os 1;
     r \<leftarrow> setup_signals os;
     (case r of Inl status \<Rightarrow> return status
      | Inr _ \<Rightarrow> do {
          pid \<leftarrow> sysi os (Process Getpid);
          exec os (Printf (''[CHILD PID '' @ fmt_d pid @ ''] Started on core 1.'' @ [NL]));
          send_messages messages os sock_fd;
          exec os (Close sock_fd);
          pid \<leftarrow> sysi os (Process Getpid);
          exec os (Printf (''[CHILD PID '' @ fmt_d pid @ ''] Terminated.'' @ [NL]));
          return 0 }) }"

section \<open>The parent\<close>

text \<open>The \<open>errno\<close> of a failed read is the first byte of its answer.\<close>

definition interrupted :: "ret \<Rightarrow> bool" where
  "interrupted r \<longleftrightarrow> fst r = -1 \<and> (case snd r of [] \<Rightarrow> False | c # _ \<Rightarrow> of_char c = (4::nat))"

definition received_line :: "int \<Rightarrow> string \<Rightarrow> string" where
  "received_line pid msg = ''[PARENT PID '' @ fmt_d pid @ ''] Message received: \"'' @ msg @ ''\"'' @ [NL]"

definition shutdown_line :: "int \<Rightarrow> string" where
  "shutdown_line pid = [NL] @ ''[PARENT PID '' @ fmt_d pid @ ''] \"exit\" message received '' @
     [CHR 0xE2, CHR 0x80, CHR 0x94] @ '' shutting down.'' @ [NL]"

text \<open>\<open>fuel\<close> bounds the reads; \<open>None\<close> when it is used up.\<close>

primrec parent_loop :: "nat \<Rightarrow> ('w, call) os \<Rightarrow> int \<Rightarrow> ('w, 'g, unit option) prog" where
  "parent_loop 0 os sock_fd = return None"
| "parent_loop (Suc fuel) os sock_fd = do {
     r \<leftarrow> sys os (Read sock_fd 255);
     if fst r \<le> 0 then
       (if interrupted r then parent_loop fuel os sock_fd else return (Some ()))
     else do {
       let buf = c_str (rd_bytes 255 r @ [NUL]);
       pid \<leftarrow> sysi os (Process Getpid);
       exec os (Printf (received_line pid buf));
       if buf = ''exit'' then do {
         pid \<leftarrow> sysi os (Process Getpid);
         exec os (Printf (shutdown_line pid));
         return (Some ()) }
       else parent_loop fuel os sock_fd } }"

definition wexitstatus :: "nat \<Rightarrow> nat" where
  "wexitstatus status = drop_bit 8 status AND 0xff"

text \<open>The result is \<open>None\<close> without enough fuel, else the status of a process that exits here, or its
  return to \<open>main\<close>.\<close>

definition parent_process :: "nat \<Rightarrow> ('w, call) os \<Rightarrow> int \<Rightarrow> int \<Rightarrow> ('w, 'g, (int + unit) option) prog" where
  "parent_process fuel os sock_fd child_pid = do {
     pin_to_core os 0;
     r \<leftarrow> setup_signals os;
     (case r of Inl status \<Rightarrow> return (Some (Inl status))
      | Inr _ \<Rightarrow> do {
          pid \<leftarrow> sysi os (Process Getpid);
          exec os (Printf (''[PARENT PID '' @ fmt_d pid @ ''] Waiting for messages from child (PID '' @
            fmt_d child_pid @ '')...'' @ [NL, NL]));
          r \<leftarrow> parent_loop fuel os sock_fd;
          (case r of None \<Rightarrow> return None
           | Some _ \<Rightarrow> do {
               exec os (Close sock_fd);
               s \<leftarrow> sys os (Process (Waitpid child_pid));
               pid \<leftarrow> sysi os (Process Getpid);
               exec os (Printf (''[PARENT PID '' @ fmt_d pid @ ''] Child exited (status '' @
                 fmt_u (wexitstatus (le32_val (sized 4 (snd s)))) @ ''). Goodbye!'' @ [NL]));
               return (Some (Inr ())) }) }) }"

definition multiproc_main :: "nat \<Rightarrow> ('w, call) os \<Rightarrow> ('w, 'g, int option) prog" where
  "multiproc_main fuel os = do {
     exec os (Printf (''Starting program '' @ [NL]));
     r \<leftarrow> sys os (Process Socketpair);
     let sv0 = le32_int (sized 4 (snd r));
     let sv1 = le32_int (sized 4 (drop 4 (snd r)));
     if fst r = -1 then do { exec os (Perror ''socketpair''); return (Some 1) }
     else do {
     pid \<leftarrow> sysi os Fork;
     if pid = -1 then do { exec os (Perror ''fork''); return (Some 1) }
     else if pid = 0 then do {
       exec os (Close sv0);
       status \<leftarrow> child_process os sv1;
       return (Some status) }
     else do {
       exec os (Close sv1);
       r \<leftarrow> parent_process fuel os sv0 pid;
       return (case r of None \<Rightarrow> None | Some (Inl status) \<Rightarrow> Some status | Some (Inr _) \<Rightarrow> Some 0) } } }"

section \<open>Exercises 2 and 3\<close>

definition allocate_main :: "('w, call) os \<Rightarrow> ('w, 'g, int) prog" where
  "allocate_main os = do {
     let size = 15 * 1024 * 1024;
     ptr \<leftarrow> sysi os (Process (Malloc size));
     if ptr = 0 then do {
       exec os (Printf (''Allocation FAILED ('' @ fmt_u size @ '' bytes)'' @ [NL]));
       return 1 }
     else do {
       exec os (Printf (''Allocation SUCCESS ('' @ fmt_u size @ '' bytes)'' @ [NL]));
       exec os (Process (Free ptr));
       return 0 } }"

text \<open>Both processes loop for ever: \<open>None\<close>.\<close>

definition busy_main :: "('w, call) os \<Rightarrow> ('w, 'g, int option) prog" where
  "busy_main os = do {
     pid \<leftarrow> sysi os Fork;
     if pid = -1 then do { exec os (Perror ''fork''); return (Some 1) }
     else return None }"

section \<open>What the parent hears\<close>

definition reads :: "call history \<Rightarrow> nat" where
  "reads h = length (filter (\<lambda>(c, r). \<exists>fd n. c = Read fd n) h)"

definition shown :: "call history \<Rightarrow> string list" where
  "shown h = concat (map (\<lambda>(c, r). case c of Printf s \<Rightarrow> [s] | _ \<Rightarrow> []) h)"

lemma reads_shown_simps [simp]:
  "reads [] = 0" "shown [] = []"
  "reads (h @ [(c, r)]) = reads h + (if \<exists>fd n. c = Read fd n then 1 else 0)"
  "shown (h @ [(c, r)]) = shown h @ (case c of Printf s \<Rightarrow> [s] | _ \<Rightarrow> [])"
  by (simp_all add: reads_def shown_def)

text \<open>A stream that hands the chunks \<open>cs\<close> to successive reads and then ends.\<close>

definition feeds :: "(call history \<Rightarrow> call \<Rightarrow> ret) \<Rightarrow> string list \<Rightarrow> bool" where
  "feeds e cs \<longleftrightarrow> (\<forall>h fd n. e h (Read fd n) =
     (if reads h < length cs then (int (length (cs ! reads h)), cs ! reads h) else (0, [])))"

definition pid_is :: "(call history \<Rightarrow> call \<Rightarrow> ret) \<Rightarrow> int \<Rightarrow> bool" where
  "pid_is e pid \<longleftrightarrow> (\<forall>h. fst (e h (Process Getpid)) = pid)"

fun hears :: "int \<Rightarrow> string list \<Rightarrow> string list" where
  "hears pid [] = []"
| "hears pid (c # cs) = received_line pid (c_str c) #
     (if c_str c = ''exit'' then [shutdown_line pid] else hears pid cs)"

lemma wp_shown:
  assumes "\<And>h'. reads h' = reads h + (if \<exists>fd n. c = Read fd n then 1 else 0) \<Longrightarrow>
    shown h' = shown h @ (case c of Printf s \<Rightarrow> [s] | _ \<Rightarrow> []) \<Longrightarrow> Q (e h c) (h', g)"
  shows "wp (sys (recorder e) c) (h, g) Q" and "Q = (\<lambda>r. R (fst r)) \<Longrightarrow> wp (sysi (recorder e) c) (h, g) R"
    and "Q = (\<lambda>r. T ()) \<Longrightarrow> wp (exec (recorder e) c) (h, g) T"
proof -
  have "Q (e h c) (h @ [(c, e h c)], g)" by (rule assms) (cases "e h c"; simp)+
  then show "wp (sys (recorder e) c) (h, g) Q" and "Q = (\<lambda>r. R (fst r)) \<Longrightarrow> wp (sysi (recorder e) c) (h, g) R"
    and "Q = (\<lambda>r. T ()) \<Longrightarrow> wp (exec (recorder e) c) (h, g) T"
    by (simp_all add: wp_sys wp_sysi exec_def wp_bind wp_return)
qed

lemmas wp_shown_rules = wp_shown(1) wp_shown(2) [OF _ refl] wp_shown(3) [OF _ refl]

lemma rd_bytes_chunk: "c \<noteq> [] \<Longrightarrow> length c \<le> cap \<Longrightarrow> rd_bytes cap (int (length c), c) = c"
  by simp

lemma wp_parent_loop:
  assumes "feeds e cs" and "pid_is e pid" and "\<forall>c \<in> set cs. c \<noteq> [] \<and> length c \<le> 255"
  shows "length cs - reads h < fuel \<Longrightarrow>
    (\<And>h'. shown h' = shown h @ hears pid (drop (reads h) cs) \<Longrightarrow> Q (Some ()) (h', g)) \<Longrightarrow>
    wp (parent_loop fuel (recorder e) fd) (h, g) Q"
proof (induction fuel arbitrary: h)
  case (Suc fuel)
  note finish = Suc.prems(2)
  show ?case
  proof (cases "reads h < length cs")
    case False
    then have "e h (Read fd 255) = (0, [])" using assms(1) by (auto simp: feeds_def)
    with False show ?thesis
      by (auto simp: wp_simps interrupted_def simp del: recorder_simp intro!: wp_shown_rules finish)
  next
    case True
    define c where "c = cs ! reads h"
    then have c: "c \<noteq> []" "length c \<le> 255" "drop (reads h) cs = c # drop (Suc (reads h)) cs"
      using True assms(3) by (auto simp: Cons_nth_drop_Suc)
    have r: "e h (Read fd 255) = (int (length c), c)"
      using True assms(1) by (simp add: feeds_def c_def)
    have pid: "fst (e h (Process Getpid)) = pid" for h using assms(2) by (simp add: pid_is_def)
    have IH: "wp (parent_loop fuel (recorder e) fd) (h', g) Q"
      if "reads h' = Suc (reads h)" "shown h' = shown h @ [received_line pid (c_str c)]" "c_str c \<noteq> ''exit''" for h'
      using that True Suc.prems(1) c(3) by (intro Suc.IH finish) auto
    have s: "c_str (c @ [NUL]) = c_str c" by (rule c_str_stop)
    show ?thesis
      using r c
      by (auto simp: wp_simps pid s c(3) Let_def simp del: recorder_simp intro!: wp_shown_rules IH finish)
  qed
qed simp

text \<open>C17. Whatever way the stream is cut into reads (none of them interrupted or failing before its end), the parent stops after at most one read more than
  there are chunks, and what it prints is determined by the chunks: the text of each one up to its
  first NUL, until a chunk whose text is exactly the exit word.\<close>

theorem parent_hears:
  assumes "\<forall>h fd n. e h (Read fd n) =
      (let k = length (filter (\<lambda>(c, r). \<exists>fd n. c = Read fd n) h) in
       if k < length cs then (int (length (cs ! k)), cs ! k) else (0, []))"
    and "\<forall>h. fst (e h (Process Getpid)) = pid"
    and "\<forall>c \<in> set cs. c \<noteq> [] \<and> length c \<le> 255" and "length cs < fuel"
  shows "wp (parent_loop fuel (recorder e) fd) ([], g) (\<lambda>r (h, _).
    r = Some () \<and> shown h = hears pid cs)"
proof -
  have "feeds e cs" "pid_is e pid"
    using assms(1,2) by (simp_all add: feeds_def pid_is_def reads_def Let_def)
  then show ?thesis
    by (intro wp_parent_loop [OF _ _ assms(3)]) (use assms(4) in simp_all)
qed

text \<open>The child's messages as the stream carries them.\<close>

definition sent :: string where
  "sent = concat (map (\<lambda>m. m @ [NUL]) messages)"

text \<open>When one read returns everything the child has written, the parent hears the first message only
  and never sees the exit word.\<close>

theorem parent_hears_witness:
  "wp (parent_loop 2 (recorder (\<lambda>h c. case c of Read fd n \<Rightarrow>
       (let k = length (filter (\<lambda>(c, r). \<exists>fd n. c = Read fd n) h) in
        if k < length [sent] then (int (length ([sent] ! k)), [sent] ! k) else (0, []))
     | _ \<Rightarrow> (7, []))) 3) ([], ()) (\<lambda>r (h, _). r = Some () \<and> shown h = [received_line 7 ''Hello from the child!''])"
proof -
  have "c_str sent = ''Hello from the child!''" by (simp add: sent_def messages_def c_str_def)
  then show ?thesis
    by (intro wp_mono [OF parent_hears [where cs = "[sent]" and pid = 7]])
      (auto simp: sent_def messages_def)
qed

lemma separate_messages: "hears pid (map (\<lambda>m. m @ [NUL]) messages) =
  map (received_line pid) messages @ [shutdown_line pid]"
  by (simp add: messages_def c_str_def)

end
