(* ===== verification/Environment.thy ===== *)
theory Environment
  imports Posix "HOL-Library.Sublist"
begin

text \<open>
  The programs of \<^verbatim>\<open>src/01_environment\<close>: a daemon and a process without its first steps, two
  Fibonacci programs, a program that leaks, one that reads the temperature, and two that fault.
\<close>

section \<open>Daemon and process\<close>

text \<open>The static variable \<open>signal_catched\<close> is the state of these programs.\<close>

definition catch_signal :: "('w, call) os \<Rightarrow> int \<Rightarrow> ('w, int, unit) prog" where
  "catch_signal os sig = do {
     exec os (Process (Syslog (''signal='' @ fmt_d sig @ '' catched'' @ [NL])));
     modg (\<lambda>n. s32 (n + 1)) }"

definition fork_process :: "('w, call) os \<Rightarrow> ('w, 'g, int + unit) prog" where
  "fork_process os = do {
     pid \<leftarrow> sysi os Fork;
     if pid = 0 then return (Inr ())
     else if pid = -1 then do { exec os (Process (Syslog ''ERROR while forking'')); return (Inl 1) }
     else return (Inl 0) }"

text \<open>\<open>if (c) { syslog (LOG_ERR, msg); exit (1); }\<close>.\<close>

definition fail_if :: "('w, call) os \<Rightarrow> bool \<Rightarrow> string \<Rightarrow> ('w, 'g, int + unit) prog" where
  "fail_if os c msg =
     (if c then do { exec os (Process (Syslog msg)); return (Inl 1) } else return (Inr ()))"

definition new_session :: "('w, call) os \<Rightarrow> ('w, 'g, int + unit) prog" where
  "new_session os = do {
     r \<leftarrow> sysi os Setsid;
     fail_if os (r = -1) ''ERROR while creating new session'' }"

definition capture_signals :: "('w, call) os \<Rightarrow> ('w, 'g, unit) prog" where
  "capture_signals os = for_each [1, 2, 3, 6, 15, 20] (\<lambda>s. exec os (Process (Sigaction s)))"

definition close_all :: "('w, call) os \<Rightarrow> ('w, 'g, unit) prog" where
  "close_all os = do {
     n \<leftarrow> sysi os (Process Sysconf_open_max);
     for_each (rev [0..<nat (n + 1)]) (\<lambda>fd. exec os (Close (int fd))) }"

definition set_up :: "('w, call) os \<Rightarrow> ('w, 'g, int + unit) prog" where
  "set_up os = do {
     capture_signals os;
     exec os (Umask 23);
     r \<leftarrow> sysi os (Chdir ''/'');
     bind_ok (fail_if os (r = -1) ''ERROR while changing to working directory'') (\<lambda>_. do {
       close_all os;
       return (Inr ()) }) }"

definition redirect :: "('w, call) os \<Rightarrow> ('w, 'g, int + unit) prog" where
  "redirect os = do {
     f \<leftarrow> sysi os (Open ''/dev/null'' [O_RDWR]);
     bind_ok (fail_if os (f \<noteq> 0) ''ERROR while opening '/dev/null' for stdin'') (\<lambda>_. do {
     f \<leftarrow> sysi os (Dup2 0 1);
     bind_ok (fail_if os (f \<noteq> 1) ''ERROR while opening '/dev/null' for stdout'') (\<lambda>_. do {
     f \<leftarrow> sysi os (Dup2 0 2);
     fail_if os (f \<noteq> 2) ''ERROR while opening '/dev/null' for stderr'' }) }) }"

text \<open>\<open>getpwnam\<close> stores the user and group identifiers; a null result is the number 0.\<close>

definition drop_privileges :: "('w, call) os \<Rightarrow> ('w, 'g, int + unit) prog" where
  "drop_privileges os = do {
     pwd \<leftarrow> sys os (Process (Getpwnam ''daemon''));
     let pw_uid = le32_int (sized 4 (snd pwd));
     let pw_gid = le32_int (sized 4 (drop 4 (snd pwd)));
     bind_ok (fail_if os (fst pwd = 0) ''ERROR while reading daemon password file entry'') (\<lambda>_. do {
     r \<leftarrow> sysi os (Process (Chroot ''.''));
     bind_ok (fail_if os (r = -1) ''ERROR while changing to new root directory'') (\<lambda>_. do {
     r \<leftarrow> sysi os (Process (Setegid pw_gid));
     bind_ok (fail_if os (r = -1) ''ERROR while setting new effective group id'') (\<lambda>_. do {
     r \<leftarrow> sysi os (Process (Seteuid pw_uid));
     fail_if os (r = -1) ''ERROR while setting new effective user id'' }) }) }) }"

text \<open>\<open>do { t = sleep(t); } while (t > 0)\<close>; \<open>fuel\<close> bounds the rounds.\<close>

primrec wait_loop :: "nat \<Rightarrow> ('w, call) os \<Rightarrow> int \<Rightarrow> ('w, 'g, unit option) prog" where
  "wait_loop 0 os t = return None"
| "wait_loop (Suc fuel) os t = do {
     t \<leftarrow> sysi os (Process (Sleep t));
     if t > 0 then wait_loop fuel os t else return (Some ()) }"

definition daemon_body :: "nat \<Rightarrow> ('w, call) os \<Rightarrow> ('w, int, int + int option) prog" where
  "daemon_body fuel os = do {
     r \<leftarrow> wait_loop fuel os 30;
     (case r of None \<Rightarrow> return (Inr None)
      | Some _ \<Rightarrow> do {
          n \<leftarrow> getg;
          exec os (Process (Syslog (''daemon stopped. Number of signals catched='' @ fmt_d n @ [NL])));
          exec os (Process Closelog);
          return (Inr (Some 0)) }) }"

definition process_main :: "nat \<Rightarrow> ('w, call) os \<Rightarrow> ('w, int, int + int option) prog" where
  "process_main fuel os =
     bind_ok (set_up os) (\<lambda>_.
     bind_ok (redirect os) (\<lambda>_. do {
       exec os (Process Openlog);
       exec os (Process (Syslog ''Daemon has started...''));
       bind_ok (drop_privileges os) (\<lambda>_. daemon_body fuel os) }))"

definition daemon_main :: "nat \<Rightarrow> ('w, call) os \<Rightarrow> ('w, int, int + int option) prog" where
  "daemon_main fuel os =
     bind_ok (fork_process os) (\<lambda>_.
     bind_ok (new_session os) (\<lambda>_.
     bind_ok (fork_process os) (\<lambda>_.
     bind_ok (set_up os) (\<lambda>_.
     bind_ok (redirect os) (\<lambda>_. do {
       exec os (Process Openlog);
       exec os (Process (Syslog ''Daemon has started...''));
       bind_ok (drop_privileges os) (\<lambda>_. daemon_body fuel os) })))))"

section \<open>Fibonacci\<close>

text \<open>A \<open>long\<close> has 64 bits; additions wrap.\<close>

function fibonacci_r :: "int \<Rightarrow> int" where
  "fibonacci_r n = (if n \<le> 1 then n else s64 (fibonacci_r (n - 1) + fibonacci_r (n - 2)))"
  by auto
termination by (relation "measure nat") auto

declare fibonacci_r.simps [simp del]

function fib_loop :: "int \<Rightarrow> int \<Rightarrow> int \<Rightarrow> int" where
  "fib_loop n f0 f1 =
     (if n > 0 then (let f1 = s64 (f1 + f0); f0 = s64 (f1 - f0) in fib_loop (n - 1) f0 f1) else f0)"
  by auto
termination by (relation "measure (\<lambda>(n, _, _). nat n)") auto

declare fib_loop.simps [simp del]

definition fibonacci_i :: "int \<Rightarrow> int" where
  "fibonacci_i n = fib_loop n 0 1"

text \<open>\<open>argv\<close> is the argument when there is exactly one; \<open>build\<close> is the line about file, line, date and
  time.\<close>

definition atol :: "string \<Rightarrow> int" where
  "atol s = strtol s"

definition fib_argument :: "string option \<Rightarrow> int" where
  "fib_argument arg = (case arg of None \<Rightarrow> 0 | Some s \<Rightarrow> atol s)"

definition fib_main :: "('w, call) os \<Rightarrow> string \<Rightarrow> string option \<Rightarrow> ('w, 'g, int) prog" where
  "fib_main os build arg = do {
     let n = fib_argument arg;
     exec os (Printf build);
     exec os (Printf (''The first '' @ fmt_d n @ '' Fibonacci numbers are:'' @ [NL]));
     for_each [0..<nat n] (\<lambda>i.
       exec os (Printf (fmt_d (fibonacci_i (int i)) @ (if int i < n - 1 then '', '' else []))));
     exec os (Printf [NL]);
     return 0 }"

function fibonacci :: "int \<Rightarrow> int" where
  "fibonacci n = (if n \<le> 1 then n else s64 (fibonacci (n - 1) + fibonacci (n - 2)))"
  by auto
termination by (relation "measure nat") auto

declare fibonacci.simps [simp del]

definition trace_main :: "('w, call) os \<Rightarrow> string option \<Rightarrow> ('w, 'g, int) prog" where
  "trace_main os arg = do {
     let n = fib_argument arg;
     exec os (Printf (''The first '' @ fmt_d n @ '' Fibonacci numbers are:'' @ [NL]));
     for_each [0..<nat (n + 1)] (\<lambda>i. exec os (Printf (fmt_d (fibonacci (int i)) @ '', '')));
     exec os (Printf [NL]);
     return 0 }"

section \<open>Memory leaks\<close>

text \<open>The list from \<open>root\<close> with the address and the value of each element, and the static counters of
  \<open>alloc1\<close>, \<open>alloc2\<close> and \<open>alloc\<close>.\<close>

record leaks =
  root :: "(int \<times> int) list"
  cnt1 :: int
  cnt2 :: int
  x_static :: int

text \<open>\<open>None\<close>: the element could not be allocated and the program faults on the null pointer.\<close>

definition alloc1 :: "('w, call) os \<Rightarrow> ('w, leaks, unit option) prog" where
  "alloc1 os = do {
     ele \<leftarrow> sysi os (Process (Malloc 16));
     if ele = 0 then return None
     else do {
       modg (\<lambda>m. m\<lparr>root := root m @ [(ele, cnt1 m)], cnt1 := cnt1 m + 1\<rparr>);
       return (Some ()) } }"

definition alloc2 :: "('w, call) os \<Rightarrow> ('w, leaks, unit option) prog" where
  "alloc2 os = do {
     ele \<leftarrow> sysi os (Process (Malloc 16));
     if ele = 0 then return None
     else do {
       modg (\<lambda>m. m\<lparr>root := root m @ [(ele, cnt2 m)], cnt2 := cnt2 m + 1\<rparr>);
       return (Some ()) } }"

definition alloc :: "('w, call) os \<Rightarrow> ('w, leaks, unit option) prog" where
  "alloc os = do {
     m \<leftarrow> getg;
     r \<leftarrow> (if x_static m = 0 then alloc1 os else alloc2 os);
     (case r of None \<Rightarrow> return None
      | Some _ \<Rightarrow> do {
          modg (\<lambda>m. m\<lparr>x_static := (x_static m + 1) mod 2\<rparr>);
          return (Some ()) }) }"

definition dealloc :: "('w, call) os \<Rightarrow> ('w, leaks, unit) prog" where
  "dealloc os = do {
     m \<leftarrow> getg;
     let ele = (case root m of [] \<Rightarrow> 0 | (p, _) # _ \<Rightarrow> p);
     (if root m \<noteq> [] then modg (\<lambda>m. m\<lparr>root := tl (root m)\<rparr>) else return ());
     exec os (Process (Free ele)) }"

primrec alloc_times :: "nat \<Rightarrow> ('w, call) os \<Rightarrow> ('w, leaks, unit option) prog" where
  "alloc_times 0 os = return (Some ())"
| "alloc_times (Suc n) os = do {
     r \<leftarrow> alloc os;
     (case r of None \<Rightarrow> return None | Some _ \<Rightarrow> alloc_times n os) }"

definition leaks_main :: "('w, call) os \<Rightarrow> ('w, leaks, int option) prog" where
  "leaks_main os = do {
     r \<leftarrow> alloc_times 4000 os;
     (case r of None \<Rightarrow> return None
      | Some _ \<Rightarrow> do {
          for_each [0..<15] (\<lambda>_. dealloc os);
          return (Some 0) }) }"

section \<open>Temperature\<close>

text \<open>\<open>%02d\<close>: the sign counts in the width.\<close>

definition fmt_02d :: "int \<Rightarrow> string" where
  "fmt_02d i = (if i < 0 then fmt_d i else zero_pad 2 (fmt_d i))"

definition temperature_main :: "('w, call) os \<Rightarrow> ('w, 'g, int) prog" where
  "temperature_main os = do {
     f \<leftarrow> sysi os (Open ''/sys/class/thermal/thermal_zone0/temp'' [O_RDONLY]);
     temp \<leftarrow> (if f \<ge> 0 then do {
         r \<leftarrow> sys os (Read f 50);
         exec os (Close f);
         return (if fst r > 0 then atoi (c_str (overlay (rd_bytes 50 r) (replicate 50 NUL))) else 99000) }
       else return 99000);
     exec os (Printf (''current temperature: '' @ fmt_d (cdiv temp 1000) @ ''.'' @
       fmt_02d (cmod (cdiv temp 10) 100) @ '' degree Celcius'' @ [NL]));
     return 0 }"

section \<open>Faulting programs\<close>

text \<open>A call either returns or faults, with the number of frames on the stack at that moment.\<close>

datatype outcome = Returned | Segv nat

definition access_data :: "nat \<Rightarrow> outcome" where
  "access_data frames = Segv (frames + 1)"

fun call :: "nat \<Rightarrow> nat \<Rightarrow> outcome" where
  "call n frames =
     (case (if n > 0 then call (n - 1) (frames + 1) else Returned) of
        Segv k \<Rightarrow> Segv k
      | Returned \<Rightarrow> access_data (frames + 1))"

declare call.simps [simp del]

text \<open>The handler prints a backtrace and ends the process.  The bytes of the answer of \<open>Backtrace\<close> are the
  lines that \<open>backtrace_symbols_fd\<close> writes for the addresses.\<close>

definition segv_handler :: "('w, Posix.call) os \<Rightarrow> ('w, 'g, int) prog" where
  "segv_handler os = do {
     r \<leftarrow> sys os (Process (Backtrace 1000));
     exec os (Printf (''backtrace() returned '' @ fmt_d (fst r) @ '' addresses'' @ [NL]));
     exec os (Write 1 (snd r));
     return 1 }"

definition backtrace_main :: "('w, Posix.call) os \<Rightarrow> ('w, 'g, int) prog" where
  "backtrace_main os = do {
     exec os (Process (Sigaction 11));
     (case call 10 1 of Segv k \<Rightarrow> segv_handler os | Returned \<Rightarrow> return 0) }"

text \<open>Without a handler the process is killed: \<open>None\<close>.\<close>

definition core_access_data :: "nat \<Rightarrow> outcome" where
  "core_access_data frames = Segv (frames + 1)"

fun core_call :: "nat \<Rightarrow> nat \<Rightarrow> outcome" where
  "core_call n frames =
     (case (if n > 0 then core_call (n - 1) (frames + 1) else Returned) of
        Segv k \<Rightarrow> Segv k
      | Returned \<Rightarrow> core_access_data (frames + 1))"

declare core_call.simps [simp del]

definition core_main :: "int option" where
  "core_main = (case core_call 10 1 of Segv k \<Rightarrow> None | Returned \<Rightarrow> Some 0)"

section \<open>Properties of the Fibonacci programs\<close>

fun fib :: "nat \<Rightarrow> int" where
  "fib 0 = 0" | "fib (Suc 0) = 1" | "fib (Suc (Suc n)) = fib (Suc n) + fib n"

lemma s64_add: "s64 (s64 a + s64 b) = s64 (a + b)" and s64_diff: "s64 (s64 a - s64 b) = s64 (a - b)"
  by (simp_all add: s64_def signed_take_bit_add signed_take_bit_diff)

lemma fibonacci_r_fib: "fibonacci_r (int n) = s64 (fib n)"
proof (induction n rule: fib.induct)
  case (3 n)
  have "fibonacci_r (int (Suc (Suc n))) = s64 (fibonacci_r (int (Suc n)) + fibonacci_r (int n))"
    by (subst fibonacci_r.simps) (simp add: algebra_simps)
  with 3 show ?case by (simp add: s64_add)
qed (simp_all add: fibonacci_r.simps [of 0] fibonacci_r.simps [of 1] s64_def)

lemma fib_loop_fib: "fib_loop (int n) (s64 (fib k)) (s64 (fib (Suc k))) = s64 (fib (k + n))"
proof (induction n arbitrary: k)
  case 0
  then show ?case by (simp add: fib_loop.simps [of 0])
next
  case (Suc n)
  have "fib_loop (int (Suc n)) (s64 (fib k)) (s64 (fib (Suc k))) =
      fib_loop (int n) (s64 (fib (Suc k))) (s64 (fib (Suc (Suc k))))"
    by (subst fib_loop.simps) (simp add: Let_def s64_add s64_diff)
  with Suc.IH [of "Suc k"] show ?case by simp
qed

text \<open>C38. The iterative and the recursive function agree with each other, and with the Fibonacci
  numbers modulo 2^64, for every argument that is not negative; for negative ones the first returns 0
  and the second its argument.\<close>

theorem fibonacci_equivalence:
  "fibonacci_i n = (if n < 0 then 0 else s64 (fib (nat n))) \<and>
   fibonacci_r n = (if n < 0 then n else fibonacci_i n)"
proof (cases "n < 0")
  case True
  then show ?thesis
    by (simp add: fibonacci_i_def fib_loop.simps [of n] fibonacci_r.simps [of n])
next
  case False
  then obtain k where n: "n = int k" by (metis nat_int_comparison(1) nonneg_int_cases not_less)
  have "fib_loop (int k) (s64 (fib 0)) (s64 (fib (Suc 0))) = s64 (fib (0 + k))" by (rule fib_loop_fib)
  then show ?thesis by (simp add: n fibonacci_i_def fibonacci_r_fib s64_def)
qed

section \<open>Privileges of the daemon\<close>

definition no_sleep :: "Posix.call history \<Rightarrow> bool" where
  "no_sleep h \<longleftrightarrow> (\<forall>t. Process (Sleep t) \<notin> fst ` set h)"

lemma no_sleep_simps [simp]:
  "no_sleep []" "no_sleep (h @ h') \<longleftrightarrow> no_sleep h \<and> no_sleep h'"
  "no_sleep ((c, r) # h) \<longleftrightarrow> (\<forall>t. c \<noteq> Process (Sleep t)) \<and> no_sleep h"
  by (auto simp: no_sleep_def)

text \<open>A phase before the body: it does not sleep, and if it ends the process, it is with 0 or 1.\<close>

definition quiet :: "(Posix.call history \<times> 'g, int + 'a) state \<Rightarrow> bool" where
  "quiet m \<longleftrightarrow> (\<forall>h g. no_sleep h \<longrightarrow> wp m (h, g) (\<lambda>r (h', _). no_sleep h' \<and> (\<forall>s. r = Inl s \<longrightarrow> s = 0 \<or> s = 1)))"

lemma wp_no_sleep_loop:
  assumes "\<And>x. \<forall>t. c x \<noteq> Process (Sleep t)" and "no_sleep h"
    and "\<And>h'. no_sleep h' \<Longrightarrow> Q () (h', g)"
  shows "wp (for_each xs (\<lambda>x. exec (recorder e) (c x))) (h, g) Q"
  using assms(2)
proof (induction xs arbitrary: h)
  case (Cons x xs)
  show ?case
    unfolding wp_for_each_Cons by (rule wp_exec, rule Cons.IH) (use Cons.prems assms(1) in auto)
qed (simp add: wp_simps assms(3))

lemma quiet_phases:
  "quiet (fork_process (recorder e))" "quiet (new_session (recorder e))" "quiet (set_up (recorder e))"
  "quiet (redirect (recorder e))"
  unfolding quiet_def
  by (auto simp: fork_process_def new_session_def fail_if_def set_up_def redirect_def capture_signals_def
      close_all_def wp_simps simp del: recorder_simp for_each.simps
      intro!: wp_sysi_any wp_exec wp_no_sleep_loop)

lemma wp_quiet:
  assumes "quiet m" and "no_sleep h"
    and "\<And>s h' g'. s = 0 \<or> s = 1 \<Longrightarrow> no_sleep h' \<Longrightarrow> Q (Inl s) (h', g')"
    and "\<And>h' g'. no_sleep h' \<Longrightarrow> wp k (h', g') Q"
  shows "wp (bind_ok m (\<lambda>_. k)) (h, g) Q"
proof -
  from assms(1,2) have "wp m (h, g) (\<lambda>r (h', _). no_sleep h' \<and> (\<forall>s. r = Inl s \<longrightarrow> s = 0 \<or> s = 1))"
    by (simp add: quiet_def)
  then show ?thesis
    unfolding wp_bind_ok by (rule wp_mono) (auto split: sum.split intro: assms(3,4))
qed

text \<open>The three calls that give up the privileges, all successful, with no sleep before.\<close>

definition dropped :: "Posix.call history \<Rightarrow> bool" where
  "dropped h \<longleftrightarrow> (\<exists>h1 h2 gid uid a b c.
     h = h1 @ [(Process (Chroot ''.''), a), (Process (Setegid gid), b), (Process (Seteuid uid), c)] @ h2 \<and>
     fst a \<noteq> -1 \<and> fst b \<noteq> -1 \<and> fst c \<noteq> -1 \<and> no_sleep h1)"

lemma dropped_more: "dropped h \<Longrightarrow> prefix h h' \<Longrightarrow> dropped h'"
  unfolding dropped_def prefix_def by fastforce

lemma wp_drop_privileges:
  assumes "no_sleep h"
    and "\<And>h' s. s = 0 \<or> s = 1 \<Longrightarrow> no_sleep h' \<Longrightarrow> Q (Inl s) (h', g)"
    and "\<And>h'. dropped h' \<Longrightarrow> Q (Inr ()) (h', g)"
  shows "wp (drop_privileges (recorder e)) (h, g) Q"
proof -
  have d: "dropped (h @ [(p, r), (Process (Chroot ''.''), a), (Process (Setegid gid), b), (Process (Seteuid uid), c)])"
    if "\<forall>t. p \<noteq> Process (Sleep t)" "fst a \<noteq> -1" "fst b \<noteq> -1" "fst c \<noteq> -1" for p r a b c gid uid
    unfolding dropped_def using that assms(1)
    by (intro exI [of _ "h @ [(p, r)]"] exI [of _ "[]"] exI [of _ gid] exI [of _ uid] exI [of _ a] exI [of _ b] exI [of _ c]) simp
  show ?thesis
    by (auto simp: drop_privileges_def fail_if_def wp_simps Let_def assms(1) simp del: recorder_simp
        intro!: wp_sys_any wp_sysi_any wp_exec assms(2) assms(3) d)
qed

lemma wp_wait_prefix:
  "(\<And>r h'. prefix h h' \<Longrightarrow> Q r (h', g)) \<Longrightarrow> wp (wait_loop fuel (recorder e) t) (h, g) Q"
proof (induction fuel arbitrary: h t)
  case (Suc fuel)
  have "wp (wait_loop fuel (recorder e) t') (h @ [x], g) Q" for t' x
    by (rule Suc.IH, rule Suc.prems) (auto simp: prefix_def)
  then show ?case
    by (auto simp: wp_simps simp del: recorder_simp intro!: wp_sysi_any Suc.prems)
qed (simp add: wp_simps)

lemma wp_daemon_body:
  "dropped h \<Longrightarrow> wp (daemon_body fuel (recorder e)) (h, g) (\<lambda>r (h', _). (\<exists>v. r = Inr v) \<and> dropped h')"
  by (auto simp: daemon_body_def wp_simps simp del: recorder_simp split: option.split
      intro!: wp_wait_prefix wp_exec elim!: dropped_more)

text \<open>C15. The daemon never reaches its body with its initial privileges: in any environment the process
  either ends with status 0 or 1 before it has slept, or it has changed its root directory and its
  effective group and user, in this order and successfully, before it slept for the first time.\<close>

theorem daemon_drops_privileges:
  "wp (daemon_main fuel (recorder e)) ([], n) (\<lambda>r (h, _). case r of
      Inl status \<Rightarrow> (status = 0 \<or> status = 1) \<and> (\<exists>t. Process (Sleep t) \<in> fst ` set h) = False
    | Inr _ \<Rightarrow> (\<exists>h1 h2 gid uid a b c.
        h = h1 @ [(Process (Chroot ''.''), a), (Process (Setegid gid), b), (Process (Seteuid uid), c)] @ h2 \<and>
        fst a \<noteq> -1 \<and> fst b \<noteq> -1 \<and> fst c \<noteq> -1 \<and> (\<exists>t. Process (Sleep t) \<in> fst ` set h1) = False))"
proof -
  have "wp (daemon_main fuel (recorder e)) ([], n) (\<lambda>r (h, _). case r of
      Inl status \<Rightarrow> (status = 0 \<or> status = 1) \<and> no_sleep h | Inr _ \<Rightarrow> dropped h)"
    unfolding daemon_main_def
    by (intro wp_quiet [OF quiet_phases(1)] wp_quiet [OF quiet_phases(2)] wp_quiet [OF quiet_phases(3)]
        wp_quiet [OF quiet_phases(4)])
      (auto simp: wp_simps simp del: recorder_simp
        intro!: wp_exec wp_drop_privileges wp_mono [OF wp_daemon_body])
  then show ?thesis
    by (rule wp_mono) (auto simp: no_sleep_def dropped_def split: sum.splits)
qed

section \<open>The end of the wait\<close>

text \<open>When every interrupted sleep leaves fewer seconds than it was asked for, the wait for 30
  seconds ends after at most 30 sleeps, whatever the signals.\<close>

theorem wait_ends:
  assumes "\<forall>h t. 0 < t \<longrightarrow> fst (e h (Process (Sleep t))) < t" and "0 < t" and "nat t \<le> fuel"
  shows "wp (wait_loop fuel (recorder e) t) (h, g) (\<lambda>r _. r = Some ())"
  using assms(2,3)
proof (induction fuel arbitrary: h t)
  case (Suc fuel)
  have "fst (e h (Process (Sleep t))) < t" using assms(1) Suc.prems(1) by blast
  with Suc.prems show ?case
    by (auto simp: wp_simps simp del: recorder_simp intro!: wp_call Suc.IH)
qed simp

section \<open>What leaks\<close>

definition mallocs :: "Posix.call history \<Rightarrow> int list" where
  "mallocs h = concat (map (\<lambda>(c, r). case c of Process (Malloc n) \<Rightarrow> [fst r] | _ \<Rightarrow> []) h)"

definition frees :: "Posix.call history \<Rightarrow> int list" where
  "frees h = concat (map (\<lambda>(c, r). case c of Process (Free p) \<Rightarrow> [p] | _ \<Rightarrow> []) h)"

lemma memory_simps [simp]:
  "mallocs [] = []" "mallocs (h @ h') = mallocs h @ mallocs h'"
  "mallocs ((Process (Malloc n), r) # h) = fst r # mallocs h" "mallocs ((Process (Free p), r) # h) = mallocs h"
  "frees [] = []" "frees (h @ h') = frees h @ frees h'"
  "frees ((Process (Malloc n), r) # h) = frees h" "frees ((Process (Free p), r) # h) = p # frees h"
  by (simp_all add: mallocs_def frees_def)

definition leaks_start :: leaks where
  "leaks_start = \<lparr>root = [], cnt1 = 0, cnt2 = 0, x_static = 0\<rparr>"

text \<open>After \<open>k\<close> allocations: the list in allocation order, numbered in pairs by the two counters.\<close>

definition allocated :: "nat \<Rightarrow> Posix.call history \<Rightarrow> leaks \<Rightarrow> bool" where
  "allocated k h m \<longleftrightarrow> map fst (root m) = mallocs h \<and> frees h = [] \<and>
     map snd (root m) = map (\<lambda>i. int (i div 2)) [0..<k] \<and>
     cnt1 m = int ((k + 1) div 2) \<and> cnt2 m = int (k div 2) \<and> x_static m = int (k mod 2)"

definition never_fails :: "(Posix.call history \<Rightarrow> Posix.call \<Rightarrow> ret) \<Rightarrow> bool" where
  "never_fails e \<longleftrightarrow> (\<forall>h. fst (e h (Process (Malloc 16))) \<noteq> 0)"

lemma wp_alloc:
  assumes "never_fails e" and "allocated k h m"
    and "\<And>h' m'. allocated (Suc k) h' m' \<Longrightarrow> Q (Some ()) (h', m')"
  shows "wp (alloc (recorder e)) (h, m) Q"
proof (cases "even k")
  case True
  then obtain j where "k = 2 * j" by (elim evenE)
  with assms(1,2) show ?thesis
    by (auto simp: alloc_def alloc1_def wp_simps allocated_def never_fails_def simp del: recorder_simp
        intro!: wp_call assms(3))
next
  case False
  then obtain j where "k = 2 * j + 1" by (elim oddE)
  with assms(1,2) show ?thesis
    by (auto simp: alloc_def alloc2_def wp_simps allocated_def never_fails_def simp del: recorder_simp
        intro!: wp_call assms(3))
qed

lemma wp_alloc_times:
  assumes "never_fails e"
  shows "allocated k h m \<Longrightarrow> (\<And>h' m'. allocated (k + n) h' m' \<Longrightarrow> Q (Some ()) (h', m')) \<Longrightarrow>
    wp (alloc_times n (recorder e)) (h, m) Q"
proof (induction n arbitrary: k h m)
  case (Suc n)
  show ?case
    unfolding alloc_times.simps wp_bind
    by (rule wp_alloc [OF assms Suc.prems(1)], simp, rule Suc.IH) (auto intro: Suc.prems(2))
qed (simp add: wp_simps)

lemma wp_dealloc:
  assumes "root m = (p, a) # l" and "\<And>h'. mallocs h' = mallocs h \<Longrightarrow> frees h' = frees h @ [p] \<Longrightarrow>
    Q () (h', m\<lparr>root := l\<rparr>)"
  shows "wp (dealloc (recorder e)) (h, m) Q"
  using assms(1) by (auto simp: dealloc_def wp_simps Let_def simp del: recorder_simp intro!: wp_exec assms(2))

lemma wp_deallocs:
  "length xs \<le> length (root m) \<Longrightarrow>
   (\<And>h' m'. mallocs h' = mallocs h \<Longrightarrow> frees h' = frees h @ map fst (take (length xs) (root m)) \<Longrightarrow>
      root m' = drop (length xs) (root m) \<Longrightarrow> Q () (h', m')) \<Longrightarrow>
   wp (for_each xs (\<lambda>_. dealloc (recorder e))) (h, m) Q"
proof (induction xs arbitrary: h m)
  case (Cons x xs)
  then obtain p a l where l: "root m = (p, a) # l" by (cases "root m") auto
  show ?case
    unfolding wp_for_each_Cons
    by (rule wp_dealloc [OF l], rule Cons.IH) (use Cons.prems l in auto)
qed (simp add: wp_simps)

lemma wp_deallocs_allocated:
  assumes "allocated n h m" and "j \<le> n"
    and "\<And>h' m'. length (mallocs h') = n \<Longrightarrow> frees h' = take j (mallocs h') \<Longrightarrow>
      root m' = zip (drop j (mallocs h')) (map (\<lambda>i. int (i div 2)) [j..<n]) \<Longrightarrow> Q () (h', m')"
  shows "wp (for_each [0..<j] (\<lambda>_. dealloc (recorder e))) (h, m) Q"
proof -
  have root: "root m = zip (mallocs h) (map (\<lambda>i. int (i div 2)) [0..<n])"
    using assms(1) by (metis allocated_def zip_map_fst_snd)
  have len: "length (root m) = n"
    using assms(1) by (metis allocated_def length_map length_upt minus_nat.diff_0)
  then have m: "length (mallocs h) = n" using assms(1) by (metis allocated_def length_map)
  have d: "drop j (root m) = zip (drop j (mallocs h)) (map (\<lambda>i. int (i div 2)) [j..<n])"
    using assms(2) by (simp add: root drop_zip drop_map)
  have t: "map fst (take j (root m)) = take j (mallocs h)" "frees h = []"
    using assms(1) by (simp_all add: allocated_def flip: take_map)
  show ?thesis
  proof (rule wp_deallocs)
    show "length [0..<j] \<le> length (root m)" using assms(2) len by simp
    show "Q () (h', m')"
      if "mallocs h' = mallocs h" "frees h' = frees h @ map fst (take (length [0..<j]) (root m))"
        "root m' = drop (length [0..<j]) (root m)" for h' m'
      by (rule assms(3)) (use that m d t in simp_all)
  qed
qed

text \<open>The program leaks all but the first fifteen of its 4000 blocks, whatever the allocator: it
  frees the first fifteen in allocation order, each once, and ends with the others still in the list,
  numbered in pairs by its two counters.\<close>

theorem blocks_leaked:
  assumes "\<forall>h. fst (e h (Process (Malloc 16))) \<noteq> 0"
  shows "wp (leaks_main (recorder e)) ([], leaks_start) (\<lambda>r (h, m). r = Some 0 \<and>
    length (mallocs h) = 4000 \<and> frees h = take 15 (mallocs h) \<and>
    root m = zip (drop 15 (mallocs h)) (map (\<lambda>i. int (i div 2)) [15..<4000]))"
proof -
  have ok: "never_fails e" using assms by (simp add: never_fails_def)
  have start: "allocated 0 [] leaks_start" by (simp add: allocated_def leaks_start_def)
  show ?thesis
    unfolding leaks_main_def wp_bind
    by (rule wp_alloc_times [OF ok start], unfold option.case wp_bind wp_return add_0,
      erule wp_deallocs_allocated) (simp_all del: upt_rec_numeral)
qed

theorem blocks_leaked_witness:
  "wp (leaks_main (recorder (\<lambda>h c. (1000, [])))) ([], leaks_start) (\<lambda>r (h, m). length (frees h) = 15)"
  by (rule wp_mono [OF blocks_leaked]) (simp, auto simp del: upt_rec_numeral)

end
