(* ===== verification/Optim.thy ===== *)
theory Optim
  imports Posix "HOL-Library.Multiset"
begin

text \<open>
  The small programs of \<^verbatim>\<open>src/06_optimization\<close> and the reader of the chip identifier of
  \<^verbatim>\<open>src/03_drivers/exercise01\<close>: time measurements, array traversals, and memory-mapped registers.
  Loops that never end are cut after \<open>fuel\<close> rounds.
\<close>

section \<open>Clock\<close>

primrec measure_samples :: "nat \<Rightarrow> ('w, call) os \<Rightarrow> string \<Rightarrow> ('w, 'g, unit) prog" where
  "measure_samples 0 os mode = return ()"
| "measure_samples (Suc n) os mode = do {
     r \<leftarrow> sys os (Process (Clock_gettime mode));
     s \<leftarrow> sys os (Process (Clock_gettime mode));
     exec os (Printf (fmt_d (elapsed_ns (timespec r) (timespec s)) @ [NL]));
     measure_samples n os mode }"

definition measure_clock :: "('w, call) os \<Rightarrow> string \<Rightarrow> int \<Rightarrow> ('w, 'g, unit) prog" where
  "measure_clock os mode samples = do {
     exec os (Process (Clock_gettime mode));
     exec os (Process (Clock_gettime mode));
     measure_samples (nat samples) os mode }"

text \<open>\<open>%03ld\<close> of a number that is not negative.\<close>

definition resolution_line :: "int \<times> int \<Rightarrow> string" where
  "resolution_line res =
     (let t = fst res * 1000000000 + snd res in
      ''time='' @ fmt_d (cdiv t 1000000) @ [CHR 0x27] @ zero_pad 3 (fmt_d (cmod (cdiv t 1000) 1000)) @
      [CHR 0x27] @ zero_pad 3 (fmt_d (cmod t 1000)) @ '' ns'' @ [NL])"

definition clock_main :: "('w, call) os \<Rightarrow> string option \<Rightarrow> ('w, 'g, int) prog" where
  "clock_main os arg = do {
     exec os (Process (Sched_setaffinity 2));
     exec os (Printf (''clocks_per_sec=1000000'' @ [NL]));
     let samples = (case arg of None \<Rightarrow> 1000 | Some s \<Rightarrow> s32 (strtol s));
     r \<leftarrow> sys os (Process (Clock_getres ''CLOCK_MONOTONIC_RAW''));
     exec os (Printf (resolution_line (timespec r)));
     measure_clock os ''CLOCK_MONOTONIC_RAW'' samples;
     return 0 }"

section \<open>Array traversals\<close>

text \<open>\<open>array[i][j]++\<close> over all rows and columns, ten times; the elements are 32-bit and wrap.\<close>

definition inc_row :: "u32 list \<Rightarrow> u32 list" where
  "inc_row row = map (\<lambda>x. x + 1) row"

definition inc_array :: "u32 list list \<Rightarrow> u32 list list" where
  "inc_array a = map inc_row a"

definition traverse_main :: "nat \<Rightarrow> u32 list list" where
  "traverse_main n = (inc_array ^^ 10) (replicate n (replicate n 0))"

text \<open>\<open>compare\<close> subtracts two shorts as ints; \<open>qsort\<close> is a parameter.\<close>

definition compare :: "int \<Rightarrow> int \<Rightarrow> int" where
  "compare a b = a - b"

definition threshold_pass :: "int list \<Rightarrow> int \<Rightarrow> int" where
  "threshold_pass data s = foldl (\<lambda>s x. if x \<ge> 256 then s + x else s) s data"

primrec generate :: "nat \<Rightarrow> ('w, call) os \<Rightarrow> ('w, 'g, int list) prog" where
  "generate 0 os = return []"
| "generate (Suc n) os = do {
     r \<leftarrow> sysi os (Process Rand);
     rest \<leftarrow> generate n os;
     return (cmod r 512 # rest) }"

definition sum_main :: "((int \<Rightarrow> int \<Rightarrow> int) \<Rightarrow> int list \<Rightarrow> int list) \<Rightarrow> ('w, call) os \<Rightarrow> ('w, 'g, unit) prog" where
  "sum_main qsort os = do {
     data \<leftarrow> generate 65536 os;
     let data = qsort compare data;
     let sum = ((threshold_pass data) ^^ 10000) 0;
     exec os (Printf (''sum='' @ fmt_d sum @ [NL])) }"

definition gcov_main :: "('w, call) os \<Rightarrow> ('w, 'g, int) prog" where
  "gcov_main os = do {
     let res = ((\<lambda>r. s32 (r * 2)) ^^ 16) 1;
     (if res < 10 then exec os (Printf (''dead code'' @ [NL])) else return ());
     exec os (Printf (''res='' @ fmt_d res @ [NL]));
     return 0 }"

section \<open>GPIO by file and by register\<close>

definition write_sysfs :: "('w, call) os \<Rightarrow> string \<Rightarrow> string \<Rightarrow> ('w, 'g, unit) prog" where
  "write_sysfs os path text = do {
     f \<leftarrow> sysi os (Open path [O_WRONLY]);
     exec os (Write f text);
     exec os (Close f) }"

definition open_gpio :: "('w, call) os \<Rightarrow> ('w, 'g, int) prog" where
  "open_gpio os = do {
     write_sysfs os ''/sys/class/gpio/unexport'' ''203'';
     write_sysfs os ''/sys/class/gpio/export'' ''203'';
     write_sysfs os ''/sys/class/gpio/gpio203/direction'' ''out'';
     sysi os (Open ''/sys/class/gpio/gpio203/value'' [O_RDWR]) }"

text \<open>One round of the loops, which returns the next \<open>on\<close>; \<open>sizeof("1")\<close> is 2.\<close>

definition gpio_round :: "('w, call) os \<Rightarrow> int \<Rightarrow> bool \<Rightarrow> ('w, 'g, bool) prog" where
  "gpio_round os gpio on = do {
     exec os (Pwrite gpio (if on then ''1'' @ [NUL] else ''0'' @ [NUL]) 0);
     return (\<not> on) }"

primrec gpio_rounds :: "nat \<Rightarrow> ('w, call) os \<Rightarrow> int \<Rightarrow> bool \<Rightarrow> ('w, 'g, bool) prog" where
  "gpio_rounds 0 os gpio on = return on"
| "gpio_rounds (Suc n) os gpio on = do {
     on \<leftarrow> gpio_round os gpio on;
     gpio_rounds n os gpio on }"

definition gpio_main :: "nat \<Rightarrow> ('w, call) os \<Rightarrow> ('w, 'g, unit) prog" where
  "gpio_main fuel os = do {
     exec os (Process (Sched_setaffinity 2));
     gpio \<leftarrow> open_gpio os;
     exec os (Process (Clock_gettime ''CLOCK_MONOTONIC''));
     r \<leftarrow> sys os (Process (Clock_gettime ''CLOCK_MONOTONIC''));
     on \<leftarrow> gpio_rounds 1000 os gpio False;
     s \<leftarrow> sys os (Process (Clock_gettime ''CLOCK_MONOTONIC''));
     exec os (Printf (''pwrite (gpio, \"1\", sizeof(\"1\"), 0) -> '' @
       fmt_d (cdiv (elapsed_ns (timespec r) (timespec s)) 1000) @ '' ns'' @ [NL]));
     _ \<leftarrow> gpio_rounds fuel os gpio on;
     return () }"

text \<open>\<open>%6lld\<close>.\<close>

definition pad_left :: "nat \<Rightarrow> string \<Rightarrow> string" where
  "pad_left w s = replicate (w - length s) CHR '' '' @ s"

definition toggle_line :: "string \<Rightarrow> int \<Rightarrow> string" where
  "toggle_line what t = what @ pad_left 6 (fmt_d (cdiv t 1000)) @ '' ns'' @ [NL]"

text \<open>\<open>*dat_pio ^= (1<<11)\<close> on the mapped register at address \<open>a\<close>.\<close>

definition toggle_register :: "('w, call) os \<Rightarrow> int \<Rightarrow> ('w, 'g, unit) prog" where
  "toggle_register os a = do {
     v \<leftarrow> sysi os (Process (Load32 a));
     exec os (Process (Store32 a (nat (v mod 2 ^ 32) XOR 2 ^ 11))) }"

primrec toggle_registers :: "nat \<Rightarrow> ('w, call) os \<Rightarrow> int \<Rightarrow> ('w, 'g, unit) prog" where
  "toggle_registers 0 os a = return ()"
| "toggle_registers (Suc n) os a = do { toggle_register os a; toggle_registers n os a }"

definition toggle_data :: "nat \<Rightarrow> u32" where
  "toggle_data n = ((\<lambda>x. x XOR push_bit 11 1) ^^ n) 0"

definition mmio_main :: "nat \<Rightarrow> ('w, call) os \<Rightarrow> ('w, 'g, int) prog" where
  "mmio_main fuel os = do {
     exec os (Process (Sched_setaffinity 2));
     gpio \<leftarrow> open_gpio os;
     exec os (Pwrite gpio (''1'' @ [NUL]) 0);
     exec os (Pwrite gpio (''0'' @ [NUL]) 0);
     fd \<leftarrow> sysi os (Open ''/dev/mem'' [O_RDWR]);
     if fd = -1 then return (-1)
     else do {
     psz \<leftarrow> sysi os (Process Getpagesize);
     pio \<leftarrow> sysi os (Process (Mmap fd (nat psz) 0x01c20000));
     let dat_pio = pio + 4 * ((0x810 + 6 * 0x24) div 4);
     exec os (Process (Clock_gettime ''CLOCK_MONOTONIC''));
     r \<leftarrow> sys os (Process (Clock_gettime ''CLOCK_MONOTONIC''));
     toggle_registers 1000 os dat_pio;
     s \<leftarrow> sys os (Process (Clock_gettime ''CLOCK_MONOTONIC''));
     exec os (Printf (toggle_line ''*dat_pio ^= (1<<11) --> '' (elapsed_ns (timespec r) (timespec s))));
     r \<leftarrow> sys os (Process (Clock_gettime ''CLOCK_MONOTONIC''));
     let data = toggle_data 1000;
     s \<leftarrow> sys os (Process (Clock_gettime ''CLOCK_MONOTONIC''));
     exec os (Printf (toggle_line ''data     ^= (1<<11) --> '' (elapsed_ns (timespec r) (timespec s))));
     toggle_registers fuel os dat_pio;
     return 0 } }"

section \<open>Chip identifier\<close>

definition chip_page :: "int \<Rightarrow> int \<times> int" where
  "chip_page psz = (let dev_addr = 0x01c14200; ofs = dev_addr mod psz in (ofs, dev_addr - ofs))"

definition hex :: "int \<Rightarrow> string" where
  "hex n = fmt_x (nat n)"

definition load_word :: "('w, call) os \<Rightarrow> int \<Rightarrow> int \<Rightarrow> ('w, 'g, nat) prog" where
  "load_word os regs ofs = do {
     v \<leftarrow> sysi os (Process (Load32 (regs + 4 * (ofs div 4))));
     return (nat (v mod 2 ^ 32)) }"

definition chipid_main :: "('w, call) os \<Rightarrow> ('w, 'g, int) prog" where
  "chipid_main os = do {
     fd \<leftarrow> sysi os (Open ''/dev/mem'' [O_RDWR]);
     if fd < 0 then do {
       exec os (Printf (''Could not open /dev/mem: error='' @ fmt_d fd @ [NL]));
       return (-1) }
     else do {
     psz \<leftarrow> sysi os (Process Getpagesize);
     let ofs = fst (chip_page psz);
     let offset = snd (chip_page psz);
     exec os (Printf (''psz='' @ hex psz @ '', addr=1c14200, offset='' @ hex offset @ '', ofs='' @ hex ofs @ [NL]));
     regs \<leftarrow> sysi os (Process (Mmap fd (nat psz) offset));
     if regs = -1 then do {
       exec os (Process (Print_errno ''mmap failed, error: ''));
       return (-1) }
     else do {
     c0 \<leftarrow> load_word os regs (ofs + 0x00);
     c1 \<leftarrow> load_word os regs (ofs + 0x04);
     c2 \<leftarrow> load_word os regs (ofs + 0x08);
     c3 \<leftarrow> load_word os regs (ofs + 0x0c);
     exec os (Printf (''NanoPi NEO Plus2 chipid='' @ zero_pad 8 (fmt_x c0) @ [CHR 0x27] @ zero_pad 8 (fmt_x c1) @
       [CHR 0x27] @ zero_pad 8 (fmt_x c2) @ [CHR 0x27] @ zero_pad 8 (fmt_x c3) @ [NL]));
     exec os (Process (Munmap regs (nat psz)));
     exec os (Close fd);
     return 0 }}}"

section \<open>Sorting does not change the sum\<close>

lemma threshold_pass_sum: "threshold_pass data s = s + sum_mset (filter_mset (\<lambda>x. x \<ge> 256) (mset data))"
  by (induction data arbitrary: s) (auto simp: threshold_pass_def)

lemma threshold_passes:
  "(threshold_pass data ^^ n) s = s + int n * sum_mset (filter_mset (\<lambda>x. x \<ge> 256) (mset data))"
  by (induction n arbitrary: s) (simp_all add: threshold_pass_sum algebra_simps)

text \<open>Sorting the data, which only serves the branch predictor, leaves the program's result as it
  was: with any permutation in the place of \<open>qsort\<close>, the program prints the same sum as without
  sorting.\<close>

theorem sum_ignores_order:
  assumes "\<forall>xs. mset (qsort compare xs) = mset xs"
  shows "sum_main qsort os = sum_main (\<lambda>_ xs. xs) os"
  unfolding sum_main_def Let_def threshold_passes using assms by simp

theorem sum_ignores_order_witness:
  "sum_main (\<lambda>_ xs. sort xs) (recorder (\<lambda>h c. (int (length h) * 7919, []))) =
   sum_main (\<lambda>_ xs. xs) (recorder (\<lambda>h c. (int (length h) * 7919, [])))"
  by (rule sum_ignores_order) simp

section \<open>Traversals, toggles and addresses\<close>

lemma inc_row_rounds: "(inc_row ^^ k) row = map (\<lambda>x. x + of_nat k) row"
  by (induction k) (simp_all add: inc_row_def o_def add.commute add.left_commute)

lemma traverse_result: "traverse_main n = replicate n (replicate n 10)"
proof -
  have "(inc_array ^^ k) a = map (inc_row ^^ k) a" for k a
    by (induction k) (simp_all add: inc_array_def o_def)
  then show ?thesis by (simp add: traverse_main_def inc_row_rounds)
qed

lemma toggle_data_even: "even n \<Longrightarrow> toggle_data n = 0"
proof -
  assume "even n"
  then obtain k where n: "n = k + k" by (elim evenE) (simp add: mult_2)
  have "((\<lambda>x. x XOR b) ^^ (j + j)) x = x" for j and b x :: u32
    by (induction j) (simp_all add: xor.assoc)
  then show ?thesis by (simp add: toggle_data_def n)
qed

lemma chip_page: "0 < psz \<Longrightarrow> chip_page psz = (ofs, offset) \<Longrightarrow>
    offset + ofs = 0x01c14200 \<and> psz dvd offset \<and> 0 \<le> ofs \<and> ofs < psz"
  by (auto simp: chip_page_def Let_def minus_mod_eq_mult_div)

end
