(* ===== verification/Log_Analyzer.thy ===== *)
theory Log_Analyzer
  imports Csel_Prelude "HOL-Library.FSet"
begin

text \<open>
  The access-log analyzer \<^verbatim>\<open>06_optimization/ex03\<close> (C++), which counts the hosts of a log file, and the
  version it was optimized from, \<^verbatim>\<open>teacher_solutions/06_optimization/ex03\<close>: they differ in the
  container of \<open>HostCounter\<close>, a hash set and a vector.  The interface of the counter is the locale
  \<open>host_counter\<close>.
\<close>

section \<open>The counters\<close>

text \<open>\<open>HostCounter\<close> with an \<open>unordered_set\<close>.  The size is converted to \<open>int\<close>.\<close>

definition isNewHost :: "string \<Rightarrow> string fset \<Rightarrow> bool" where
  "isNewHost hostname myHosts \<longleftrightarrow> \<not> hostname |\<in>| myHosts"

definition notifyHost :: "string \<Rightarrow> string fset \<Rightarrow> string fset" where
  "notifyHost hostname myHosts = (if isNewHost hostname myHosts then finsert hostname myHosts else myHosts)"

definition getNbOfHosts :: "string fset \<Rightarrow> int" where
  "getNbOfHosts myHosts = s32 (int (fcard myHosts))"

text \<open>\<open>HostCounter\<close> with a \<open>vector\<close>, searched from the start.\<close>

definition vec_isNewHost :: "string \<Rightarrow> string list \<Rightarrow> bool" where
  "vec_isNewHost hostname myHosts \<longleftrightarrow> List.find (\<lambda>h. h = hostname) myHosts = None"

definition vec_notifyHost :: "string \<Rightarrow> string list \<Rightarrow> string list" where
  "vec_notifyHost hostname myHosts = (if vec_isNewHost hostname myHosts then myHosts @ [hostname] else myHosts)"

definition vec_getNbOfHosts :: "string list \<Rightarrow> int" where
  "vec_getNbOfHosts myHosts = s32 (int (length myHosts))"

section \<open>The analyzer\<close>

text \<open>The calls.  Opening a stream answers with a number, 0 for a failure, and the bytes of the file.\<close>

datatype log_call = Open_stream string | Close_stream | Cout string

record 'c analyzer =
  myFilename :: string
  myInFile :: string
  myHostCounter :: 'c

text \<open>The lines that \<open>getline\<close> delivers: what follows the last newline is a line only if it is not
  empty.  A stream that could not be opened delivers none.\<close>

fun getlines :: "string \<Rightarrow> string list" where
  "getlines s = (if s = [] then []
     else let line = takeWhile (\<lambda>c. c \<noteq> NL) s in line # getlines (drop (Suc (length line)) s))"

declare getlines.simps [simp del]

text \<open>\<open>find_first_of\<close> answers with a \<open>size_t\<close>, \<open>npos\<close> when there is no space; it is kept in an \<open>int\<close> and
  converted back by \<open>substr\<close>.\<close>

definition hostname_of :: "string \<Rightarrow> string" where
  "hostname_of line =
     (let n = length (takeWhile (\<lambda>c. c \<noteq> CHR '' '') line);
          space_pos = s32 (if n = length line then 2 ^ 64 - 1 else int n)
      in take (nat (space_pos mod 2 ^ 64)) line)"

definition openFile :: "('w, log_call) os \<Rightarrow> ('w, 'c analyzer, unit) prog" where
  "openFile os = do {
     a \<leftarrow> getg;
     r \<leftarrow> sys os (Open_stream (c_str (myFilename a)));
     modg (\<lambda>a. a\<lparr>myInFile := (if fst r = 0 then [] else snd r)\<rparr>) }"

definition closeFile :: "('w, log_call) os \<Rightarrow> ('w, 'c analyzer, unit) prog" where
  "closeFile os = exec os Close_stream"

definition processFile ::
    "(string \<Rightarrow> 'c \<Rightarrow> 'c) \<Rightarrow> ('c \<Rightarrow> int) \<Rightarrow> ('w, log_call) os \<Rightarrow> ('w, 'c analyzer, unit) prog" where
  "processFile notify get_nb os = do {
     a \<leftarrow> getg;
     exec os (Cout (''Processing log file '' @ myFilename a @ [NL]));
     for_each (getlines (myInFile a)) (\<lambda>line.
       modg (\<lambda>a. a\<lparr>myHostCounter := notify (hostname_of line) (myHostCounter a)\<rparr>));
     a \<leftarrow> getg;
     exec os (Cout (''Found '' @ fmt_d (get_nb (myHostCounter a)) @ '' unique Hosts/IPs'' @ [NL])) }"

definition usage :: "('w, log_call) os \<Rightarrow> string \<Rightarrow> ('w, 'g, unit) prog" where
  "usage os progName = do {
     exec os (Cout (''Usage: '' @ progName @ '' <filename>'' @ [NL]));
     exec os (Cout ([NL] @ ''Where <filename> is the apache access log file'' @ [NL])) }"

text \<open>The constructor gives the file name and an empty counter.\<close>

definition analyzer_main ::
    "'c \<Rightarrow> (string \<Rightarrow> 'c \<Rightarrow> 'c) \<Rightarrow> ('c \<Rightarrow> int) \<Rightarrow> ('w, log_call) os \<Rightarrow> string list \<Rightarrow> ('w, 'c analyzer, int) prog" where
  "analyzer_main none notify get_nb os argv =
     (if length argv \<noteq> 2 then do {
        usage os (argv ! 0);
        return (- 1) }
      else do {
        modg (\<lambda>_. \<lparr>myFilename = argv ! 1, myInFile = [], myHostCounter = none\<rparr>);
        openFile os;
        processFile notify get_nb os;
        closeFile os;
        return 0 })"

definition log_main :: "('w, log_call) os \<Rightarrow> string list \<Rightarrow> ('w, string fset analyzer, int) prog" where
  "log_main = analyzer_main fempty notifyHost getNbOfHosts"

definition vec_log_main :: "('w, log_call) os \<Rightarrow> string list \<Rightarrow> ('w, string list analyzer, int) prog" where
  "vec_log_main = analyzer_main [] vec_notifyHost vec_getNbOfHosts"

section \<open>The interface of the counter\<close>

text \<open>\<open>hosts\<close> is the set that a counter stands for; \<open>ok\<close> is its invariant.\<close>

locale host_counter =
  fixes none :: 'c and notify :: "string \<Rightarrow> 'c \<Rightarrow> 'c" and get_nb :: "'c \<Rightarrow> int"
    and hosts :: "'c \<Rightarrow> string set" and ok :: "'c \<Rightarrow> bool"
  assumes none_ok: "ok none" "hosts none = {}"
    and notify_ok: "ok c \<Longrightarrow> ok (notify h c)"
    and notify_hosts: "ok c \<Longrightarrow> hosts (notify h c) = insert h (hosts c)"
    and number: "ok c \<Longrightarrow> get_nb c = s32 (int (card (hosts c)))"
begin

lemma fold_ok: "ok c \<Longrightarrow> ok (fold notify hs c) \<and> hosts (fold notify hs c) = set hs \<union> hosts c"
  by (induction hs arbitrary: c) (auto simp: notify_ok notify_hosts)

lemma counts_distinct: "get_nb (fold notify hs none) = s32 (int (card (set hs)))"
  using fold_ok [OF none_ok(1), of hs] by (simp add: number none_ok(2))

lemma wp_lines:
  assumes "\<And>a'. a' = a\<lparr>myHostCounter := fold notify (map hostname_of ls) (myHostCounter a)\<rparr> \<Longrightarrow> Q () (h, a')"
  shows "wp (for_each ls (\<lambda>line. modg (\<lambda>a. a\<lparr>myHostCounter := notify (hostname_of line) (myHostCounter a)\<rparr>))) (h, a) Q"
  using assms
proof (induction ls arbitrary: a)
  case (Cons l ls)
  show ?case unfolding wp_for_each_Cons wp_modg by (rule Cons.IH) (simp add: Cons.prems)
qed (simp add: wp_simps)

end

text \<open>What a run on the file \<open>path\<close> has done, for any environment: the calls, with the number of distinct
  hosts in the lines.\<close>

definition lines_of :: "ret \<Rightarrow> string list" where
  "lines_of r = (if fst r = 0 then [] else getlines (snd r))"

definition found_line :: "int \<Rightarrow> string" where
  "found_line n = ''Found '' @ fmt_d n @ '' unique Hosts/IPs'' @ [NL]"

definition run_calls :: "ret \<Rightarrow> string \<Rightarrow> log_call list" where
  "run_calls r path =
     [Open_stream (c_str path), Cout (''Processing log file '' @ path @ [NL]),
      Cout (found_line (s32 (int (card (set (map hostname_of (lines_of r))))))), Close_stream]"

context host_counter begin

lemma run:
  "wp (analyzer_main none notify get_nb (recorder e) [prog, path]) ([], g)
    (\<lambda>r (h, _). r = 0 \<and> map fst h = run_calls (e [] (Open_stream (c_str path))) path)"
proof -
  have Nil: "getlines [] = []" by (simp add: getlines.simps)
  show ?thesis
    unfolding analyzer_main_def openFile_def processFile_def closeFile_def exec_def
    by (simp add: wp_simps wp_sys)
      (auto simp: wp_simps wp_sysi run_calls_def found_line_def lines_of_def Nil counts_distinct number [OF none_ok(1)] none_ok(2) intro!: wp_lines)
qed

end

text \<open>Both containers implement it: the set directly, the vector as a list without repetition.\<close>

interpretation hash: host_counter fempty notifyHost getNbOfHosts fset "\<lambda>_. True"
  by unfold_locales (auto simp: notifyHost_def isNewHost_def getNbOfHosts_def fcard.rep_eq)

interpretation vec: host_counter "[]" vec_notifyHost vec_getNbOfHosts set distinct
  by unfold_locales
    (auto simp: vec_notifyHost_def vec_isNewHost_def vec_getNbOfHosts_def find_None_iff distinct_card)

section \<open>Properties\<close>

text \<open>C32. The optimization keeps the behaviour: in every environment, on every command line, the program
  with the hash set and the one with the vector make the same calls, print the same text and return
  the same status.\<close>

theorem containers_agree:
  "wp (log_main (recorder e) argv) ([], g) (\<lambda>r (h, _).
    wp (vec_log_main (recorder e) argv) ([], g') (\<lambda>r' (h', _). r' = r \<and> map fst h' = map fst h))"
proof (cases "length argv = 2")
  case True
  then obtain prog path where argv: "argv = [prog, path]" by (auto simp: numeral_2_eq_2 length_Suc_conv)
  show ?thesis
    unfolding log_main_def vec_log_main_def argv
    by (rule wp_mono [OF hash.run]) (auto intro!: wp_mono [OF vec.run])
next
  case False
  then show ?thesis
    by (simp add: log_main_def vec_log_main_def analyzer_main_def usage_def exec_def wp_simps wp_sysi)
qed

text \<open>The first word of a line.\<close>

definition first_word :: "string \<Rightarrow> string" where
  "first_word line = takeWhile (\<lambda>c. c \<noteq> CHR '' '') line"

lemma hostname_first_word: "length line < 2 ^ 31 \<Longrightarrow> hostname_of line = first_word line"
proof -
  assume l: "length line < 2 ^ 31"
  define n where "n = length (first_word line)"
  have n: "n \<le> length line" unfolding n_def first_word_def by (rule length_takeWhile_le)
  have w: "first_word line = take n line" unfolding n_def first_word_def by (rule takeWhile_eq_take)
  show ?thesis
  proof (cases "n = length line")
    case True
    have "s32 (2 ^ 64 - 1) = - 1" by (simp add: s32_def signed_take_bit_eq_take_bit_shift)
    moreover have f: "first_word line = line" using w True by simp
    ultimately show ?thesis using l by (simp add: hostname_of_def Let_def f [unfolded first_word_def] first_word_def)
  next
    case False
    have "s32 (int n) = int n" using l n by (intro s32_id) (simp add: s32_range_def)
    then show ?thesis using l n w False unfolding n_def first_word_def by (simp add: hostname_of_def Let_def)
  qed
qed

lemma getlines_terminated:
  "\<forall>l \<in> set ls. NL \<notin> set l \<Longrightarrow> getlines (concat (map (\<lambda>l. l @ [NL]) ls)) = ls"
proof (induction ls)
  case (Cons l ls)
  let ?s = "concat (map (\<lambda>l. l @ [NL]) (l # ls))"
  have "takeWhile (\<lambda>c. c \<noteq> NL) ?s = l" using Cons.prems by (auto simp: takeWhile_tail)
  then have "getlines ?s = l # getlines (drop (Suc (length l)) ?s)"
    by (subst getlines.simps) (simp only: Let_def, simp)
  then show ?case using Cons by simp
qed (simp add: getlines.simps)

text \<open>C31. The number reported is that of the distinct first words of the lines, for every log file of
  fewer than 2^31 lines, each shorter than 2^31 bytes and ended by a newline, in every environment; the file is opened once
  and closed, and nothing else is printed.\<close>

theorem hosts_reported:
  assumes "e [] (Open_stream path) = (1, concat (map (\<lambda>l. l @ [NL]) ls))" and "NUL \<notin> set path"
    and "\<forall>l \<in> set ls. NL \<notin> set l \<and> length l < 2 ^ 31" and "length ls < 2 ^ 31"
  shows "wp (log_main (recorder e) [prog, path]) ([], g) (\<lambda>r (h, _). r = 0 \<and> map fst h =
    [Open_stream path, Cout (''Processing log file '' @ path @ [NL]),
     Cout (''Found '' @ fmt_u (card (first_word ` set ls)) @ '' unique Hosts/IPs'' @ [NL]), Close_stream])"
proof -
  have lines: "getlines (concat (map (\<lambda>l. l @ [NL]) ls)) = ls" using assms(3) by (intro getlines_terminated) auto
  have words: "hostname_of ` set ls = first_word ` set ls"
    using assms(3) by (intro image_cong) (auto intro: hostname_first_word)
  have "card (first_word ` set ls) \<le> length ls"
    using card_image_le [of "set ls" first_word] card_length [of ls] by simp
  then have "s32 (int (card (first_word ` set ls))) = int (card (first_word ` set ls))"
    using assms(4) by (intro s32_id) (simp add: s32_range_def)
  then show ?thesis
    unfolding log_main_def using assms(1,2)
    by (intro wp_mono [OF hash.run]) (auto simp: run_calls_def found_line_def lines_of_def lines words fmt_d_def)
qed

theorem hosts_reported_witness:
  "wp (log_main (recorder (\<lambda>h c. (1, concat (map (\<lambda>l. l @ [NL]) [''a x'', ''b'', ''a y''])))) [''app'', ''log'']) ([], \<lparr>myFilename = [], myInFile = [], myHostCounter = fempty\<rparr>) (\<lambda>r (h, _).
    r = 0 \<and> Cout (''Found '' @ fmt_u 2 @ '' unique Hosts/IPs'' @ [NL]) \<in> fst ` set h)"
proof -
  have two: "card (first_word ` set [''a x'', ''b'', ''a y'']) = 2" by (simp add: first_word_def insert_commute)
  have "wp (log_main (recorder (\<lambda>h c. (1, concat (map (\<lambda>l. l @ [NL]) [''a x'', ''b'', ''a y''])))) [''app'', ''log'']) ([], \<lparr>myFilename = [], myInFile = [], myHostCounter = fempty\<rparr>)
      (\<lambda>r (h, _). r = 0 \<and> map fst h = [Open_stream ''log'', Cout (''Processing log file '' @ ''log'' @ [NL]),
        Cout (''Found '' @ fmt_u 2 @ '' unique Hosts/IPs'' @ [NL]), Close_stream])"
    unfolding two [symmetric] by (rule hosts_reported) simp_all
  then show ?thesis by (rule wp_mono) (auto simp flip: set_map)
qed

text \<open>An empty line counts as a host, whose name is empty.\<close>

lemma empty_line_counts: "hostname_of [] = []"
  by (simp add: hostname_of_def)

end
