(* ===== verification/Rust_Clients.thy ===== *)
theory Rust_Clients
  imports Chardev Posix
begin

text \<open>
  The Rust program \<^verbatim>\<open>03_drivers/exercise04/src/main.rs\<close>, which writes to the character devices of
  \<open>Chardev\<close> and reads back, with what the Rust programs use of the standard library: texts and the
  errors of input and output.
\<close>

section \<open>Texts\<close>

text \<open>A \<open>str\<close> is the list of the UTF-8 encodings of its characters.\<close>

type_synonym rust_str = "string list"

definition byte_in :: "nat \<Rightarrow> nat \<Rightarrow> char \<Rightarrow> bool" where
  "byte_in lo hi c = (lo \<le> of_char c \<and> of_char c \<le> hi)"

definition replacement :: string where
  "replacement = [CHR 0xEF, CHR 0xBF, CHR 0xBD]"

text \<open>The ranges of the second byte, by the first one, of the characters of two, three and four bytes.\<close>

definition utf8_second :: "char \<Rightarrow> (nat \<times> nat \<times> nat) option" where
  "utf8_second c =
     (if byte_in 0xC2 0xDF c then Some (2, 0x80, 0xBF)
      else if byte_in 0xE0 0xE0 c then Some (3, 0xA0, 0xBF)
      else if byte_in 0xE1 0xEC c then Some (3, 0x80, 0xBF)
      else if byte_in 0xED 0xED c then Some (3, 0x80, 0x9F)
      else if byte_in 0xEE 0xEF c then Some (3, 0x80, 0xBF)
      else if byte_in 0xF0 0xF0 c then Some (4, 0x90, 0xBF)
      else if byte_in 0xF1 0xF3 c then Some (4, 0x80, 0xBF)
      else if byte_in 0xF4 0xF4 c then Some (4, 0x80, 0x8F)
      else None)"

text \<open>The continuation bytes of a character with this first byte that the text goes on with, and how
  many it needs.\<close>

definition continuation :: "char \<Rightarrow> string \<Rightarrow> string \<times> nat" where
  "continuation c s =
     (case utf8_second c of
        None \<Rightarrow> ([], 1)
      | Some (width, lo, hi) \<Rightarrow>
          (case s of
             [] \<Rightarrow> ([], width - 1)
           | d # rest \<Rightarrow>
               (if byte_in lo hi d then (d # takeWhile (byte_in 0x80 0xBF) (take (width - 2) rest), width - 1)
                else ([], width - 1))))"

text \<open>\<open>String::from_utf8_lossy\<close>: each maximal broken prefix of a character becomes one U+FFFD.\<close>

function from_utf8_lossy :: "string \<Rightarrow> rust_str" where
  "from_utf8_lossy [] = []"
| "from_utf8_lossy (c # s) =
     (if byte_in 0 0x7F c then [c] # from_utf8_lossy s
      else let (more, need) = continuation c s in
        (if length more = need then c # more else replacement) # from_utf8_lossy (drop (length more) s))"
  by pat_completeness auto
termination by (relation "measure length") auto

text \<open>The characters that \<open>trim\<close> removes: those with the property \<open>White_Space\<close>.\<close>

definition white :: "string \<Rightarrow> bool" where
  "white c \<longleftrightarrow> c \<in> set (
     map (\<lambda>b. [char_of (b::nat)]) [0x09, 0x0A, 0x0B, 0x0C, 0x0D, 0x20] @ [[CHR 0xC2, CHR 0x85], [CHR 0xC2, CHR 0xA0],
     [CHR 0xE1, CHR 0x9A, CHR 0x80]] @ map (\<lambda>b. [CHR 0xE2, CHR 0x80, char_of (b::nat)]) ([0x80..<0x8B] @ [0xA8, 0xA9, 0xAF]) @
     [[CHR 0xE2, CHR 0x81, CHR 0x9F], [CHR 0xE3, CHR 0x80, CHR 0x80]])"

definition trim :: "rust_str \<Rightarrow> rust_str" where
  "trim s = rev (dropWhile white (rev (dropWhile white s)))"

text \<open>\<open>parse::<u32>\<close>: decimal digits after an optional sign, within 32 bits.\<close>

definition parse_u32 :: "rust_str \<Rightarrow> nat option" where
  "parse_u32 s =
     (let t = concat s; ds = (case t of [] \<Rightarrow> [] | c # r \<Rightarrow> (if c = CHR ''+'' then r else t));
          v = foldl (\<lambda>n c. 10 * n + (of_char c - 48)) 0 ds
      in if ds = [] \<or> \<not> list_all is_digit ds \<or> v \<ge> 2 ^ 32 then None else Some v)"

lemma lossy_ascii: "\<forall>c \<in> set s. (of_char c :: nat) < 128 \<Longrightarrow> from_utf8_lossy s = map (\<lambda>c. [c]) s"
  by (induction s) (simp_all add: byte_in_def)

lemma concat_singles [simp]: "concat (map (\<lambda>c. [c]) s) = s"
  by (induction s) simp_all

section \<open>Exercise 4: messages to the devices\<close>

text \<open>An \<open>io::Error\<close>: an error number, or a write that stores nothing.  The library repeats an \<open>open\<close> or a
  \<open>write\<close> that a signal has interrupted; the answer in the model is that of the last attempt.\<close>

datatype io_error = Os_error int | Write_zero

text \<open>The \<open>?\<close> of a call.\<close>

definition io_result :: "int \<Rightarrow> io_error + int" where
  "io_result r = (if r < 0 then Inl (Os_error r) else Inr r)"

text \<open>\<open>write_all\<close>: each round writes at least one byte, so that one round for each byte is enough.\<close>

primrec write_all :: "nat \<Rightarrow> ('w, call) os \<Rightarrow> int \<Rightarrow> string \<Rightarrow> ('w, 'g, io_error + unit) prog" where
  "write_all 0 os fd buf = return (Inr ())"
| "write_all (Suc n) os fd buf =
     (if buf = [] then return (Inr ())
      else do {
        r \<leftarrow> sysi os (Write fd buf);
        if r < 0 then return (Inl (Os_error r))
        else if r = 0 then return (Inl Write_zero)
        else write_all n os fd (drop (nat r) buf) })"

text \<open>The static of the model is the vector \<open>devices\<close>.\<close>

definition open_device :: "('w, call) os \<Rightarrow> nat \<Rightarrow> ('w, int list, io_error + unit) prog" where
  "open_device os i = do {
     r \<leftarrow> sysi os (Open (''/dev/skeleton'' @ fmt_u i) [O_RDWR]);
     bind_ok (return (io_result r)) (\<lambda>fd. do {
       modg (\<lambda>ds. ds @ [fd]);
       return (Inr ()) }) }"

definition message :: "nat \<Rightarrow> string" where
  "message i = ''Hello, device '' @ fmt_u i"

definition greet_device :: "('w, call) os \<Rightarrow> nat \<Rightarrow> ('w, int list, io_error + unit) prog" where
  "greet_device os i = do {
     ds \<leftarrow> getg;
     write_all (length (message i)) os (ds ! i) (message i) }"

definition print_response :: "('w, call) os \<Rightarrow> nat \<Rightarrow> ('w, int list, io_error + unit) prog" where
  "print_response os i = do {
     ds \<leftarrow> getg;
     r \<leftarrow> sys os (Read (ds ! i) 1024);
     bind_ok (return (io_result (fst r))) (\<lambda>_. do {
       exec os (Printf (''Response from device '' @ fmt_u i @ '': '' @ concat (from_utf8_lossy (rd_bytes 1024 r)) @ [NL]));
       return (Inr ()) }) }"

primrec for_ok :: "'a list \<Rightarrow> ('a \<Rightarrow> ('s, 'e + unit) state) \<Rightarrow> ('s, 'e + unit) state" where
  "for_ok [] body = return (Inr ())"
| "for_ok (x # xs) body = bind_ok (body x) (\<lambda>_. for_ok xs body)"

definition echo_body :: "('w, call) os \<Rightarrow> ('w, int list, io_error + unit) prog" where
  "echo_body os =
     bind_ok (for_ok [0..<3] (open_device os)) (\<lambda>_. do {
       exec os (Printf (''Opened all devices'' @ [NL]));
       bind_ok (for_ok [0..<3] (greet_device os)) (\<lambda>_.
         for_ok [0..<3] (print_response os)) })"

text \<open>At the end the vector is dropped, which closes its files.\<close>

definition echo_main :: "('w, call) os \<Rightarrow> ('w, int list, io_error + unit) prog" where
  "echo_main os = do {
     r \<leftarrow> echo_body os;
     ds \<leftarrow> getg;
     for_each ds (\<lambda>fd. exec os (Close fd));
     return r }"

text \<open>
  The loaded driver as the system of this program.  A file is the index of its buffer and its
  position; descriptors count from 3.  The kernel keeps the new position unless the operation fails.
  Copies succeed.
\<close>

record chardev_world =
  loaded :: chardev
  files :: "(nat \<times> nat) list"
  printed :: string

definition node_of :: "chardev \<Rightarrow> string \<Rightarrow> nat option" where
  "node_of d path = List.find (\<lambda>i. ''/dev/'' @ sd_name (devices d ! i) = path) [0..<length (devices d)]"

definition chardev_os :: "(chardev_world, call) os" where
  "chardev_os w c = (case c of
       Open path flags \<Rightarrow>
         (case node_of (loaded w) path of
            None \<Rightarrow> ((- 2, []), w)
          | Some i \<Rightarrow>
              (case skeleton_open (loaded w) (MINOR (device_dev (loaded w) i)) of
                 (status, None) \<Rightarrow> ((status, []), w)
               | (status, Some idx) \<Rightarrow> ((int (3 + length (files w)), []), w\<lparr>files := files w @ [(idx, 0)]\<rparr>)))
     | Write fd s \<Rightarrow>
         (let f = nat fd - 3; (idx, off) = files w ! f;
              (r, block, off') = skeleton_write (\<lambda>_. 0) (Some (blocks (loaded w) ! idx)) s off
          in ((r, []), w\<lparr>loaded := (loaded w)\<lparr>blocks := (blocks (loaded w))[idx := the block]\<rparr>,
                files := (files w)[f := (idx, if r \<ge> 0 then off' else off)]\<rparr>))
     | Read fd n \<Rightarrow>
         (let f = nat fd - 3; (idx, off) = files w ! f;
              (r, bytes, off') = skeleton_read (\<lambda>_. 0) (Some (blocks (loaded w) ! idx)) n off
          in ((r, bytes), w\<lparr>files := (files w)[f := (idx, if r \<ge> 0 then off' else off)]\<rparr>))
     | Printf s \<Rightarrow> ((0, []), w\<lparr>printed := printed w @ s\<rparr>)
     | _ \<Rightarrow> ((0, []), w))"

lemma message_ok: "NUL \<notin> set (message i)" "message i \<noteq> []" "i < 10 \<Longrightarrow> length (message i) = 15"
  using fmt_u_digits [of NUL i] by (auto simp: message_def is_digit_def fmt_u.simps [of i])

lemma write_short:
  assumes "length block = 256" and "length msg < 256"
  shows "skeleton_write (\<lambda>_. 0) (Some block) msg off = (int (length msg), Some (msg @ NUL # drop (Suc (length msg)) block), 0)"
proof -
  have "drop (length msg) block = block ! length msg # drop (Suc (length msg)) block"
    using assms by (simp add: Cons_nth_drop_Suc)
  then show ?thesis
    using assms by (simp add: skeleton_write_def Let_def copied_in_def overlay_def min_def list_update_append)
qed

lemma read_short:
  assumes "NUL \<notin> set msg" and "msg \<noteq> []" and "length msg < 256" and "length msg \<le> n"
  shows "skeleton_read (\<lambda>_. 0) (Some (msg @ NUL # rest)) n 0 = (int (length msg), msg, length msg)"
proof -
  have "take 256 (msg @ NUL # rest) = msg @ NUL # take (255 - length msg) rest"
    using assms(3) by (simp add: take_Cons')
  then have "strnlen (msg @ NUL # rest) 256 = length msg"
    using assms(1) by (simp add: strnlen_def)
  then show ?thesis using assms(2,4) by (simp add: skeleton_read_def Let_def)
qed

text \<open>The driver loaded for three devices, as \<open>skeleton_init\<close> leaves it; \<open>bs\<close> are its buffers.\<close>

definition three_devices :: "chardev \<Rightarrow> bool" where
  "three_devices d \<longleftrightarrow> devices_number d = 3 \<and> length (blocks d) = 3 \<and> (\<forall>b \<in> set (blocks d). length b = 256) \<and>
     (\<exists>k. map sd_name (devices d) = [''skeleton0'', ''skeleton1'', ''skeleton2''] \<and>
       map (\<lambda>x. MINOR (sd_dev x)) (devices d) = [k, k + 1, k + 2])"

lemma opens:
  assumes "three_devices d" and "i < 3"
  shows "node_of d (''/dev/skeleton'' @ fmt_u i) = Some i"
    and "skeleton_open d (MINOR (device_dev d i)) = (0, Some i)"
proof -
  obtain k where names: "map sd_name (devices d) = [''skeleton0'', ''skeleton1'', ''skeleton2'']"
    and minors: "map (\<lambda>x. MINOR (sd_dev x)) (devices d) = [k, k + 1, k + 2]"
    and n: "devices_number d = 3"
    using assms(1) by (auto simp: three_devices_def)
  obtain x y z where d: "devices d = [x, y, z]" "sd_name x = ''skeleton0''" "sd_name y = ''skeleton1''" "sd_name z = ''skeleton2''"
    using names by (auto simp: map_eq_Cons_conv)
  have i: "i = 0 \<or> i = 1 \<or> i = 2" using assms(2) by auto
  have "fmt_u 0 = ''0''" "fmt_u (Suc 0) = ''1''" "fmt_u 2 = ''2''"
    by (simp_all add: fmt_u.simps [of 0] fmt_u.simps [of "Suc 0"] fmt_u.simps [of 2])
  moreover have "node_of d ''/dev/skeleton0'' = Some 0" "node_of d ''/dev/skeleton1'' = Some (Suc 0)"
    "node_of d ''/dev/skeleton2'' = Some 2"
    by (simp_all add: node_of_def d)
  ultimately show "node_of d (''/dev/skeleton'' @ fmt_u i) = Some i" using i by (elim disjE) simp_all
  show "skeleton_open d (MINOR (device_dev d i)) = (0, Some i)"
    using i minors n d by (auto simp: skeleton_open_def device_dev_def Let_def)
qed

text \<open>The buffer of a device that has been greeted.\<close>

definition greeted :: "nat \<Rightarrow> string \<Rightarrow> string" where
  "greeted i block = message i @ NUL # drop (Suc (length (message i))) block"

lemma wp_open_device:
  assumes "three_devices (loaded w)" and "i < 3"
    and "Q (Inr ()) (w\<lparr>files := files w @ [(i, 0)]\<rparr>, ds @ [int (3 + length (files w))])"
  shows "wp (open_device chardev_os i) (w, ds) Q"
  using assms opens [OF assms(1,2)]
  by (simp add: open_device_def wp_simps wp_sysi chardev_os_def io_result_def)

lemma wp_greet_device:
  assumes "ds ! i = int (3 + f)" and "files w ! f = (i, off)" and "f < length (files w)"
    and "blocks (loaded w) ! i = b" and "length b = 256" and "i < 3"
    and "Q (Inr ()) (w\<lparr>loaded := (loaded w)\<lparr>blocks := (blocks (loaded w))[i := greeted i b]\<rparr>, files := (files w)[f := (i, 0)]\<rparr>, ds)"
  shows "wp (greet_device chardev_os i) (w, ds) Q"
proof -
  obtain n where n: "length (message i) = Suc n" using message_ok(2) [of i] by (cases "message i") auto
  have "length (message i) < 256" using message_ok(3) [of i] assms(6) by simp
  note w = write_short [OF assms(5) this, of off]
  have fd: "nat (int (3 + f)) - 3 = f" by simp
  have call: "chardev_os w (Write (int (3 + f)) (message i)) = ((int (length (message i)), []),
      w\<lparr>loaded := (loaded w)\<lparr>blocks := (blocks (loaded w))[i := greeted i b]\<rparr>, files := (files w)[f := (i, 0)]\<rparr>)"
    unfolding chardev_os_def call.case fd Let_def using assms(2,4) by (simp add: w greeted_def)
  have "wp (write_all (Suc n) chardev_os (int (3 + f)) (message i)) (w, ds) Q"
    using assms(7) message_ok(2) [of i]
    unfolding write_all.simps wp_if wp_bind wp_sysi call by (cases n) (simp_all add: n wp_simps)
  then have "wp (write_all (length (message i)) chardev_os (int (3 + f)) (message i)) (w, ds) Q" unfolding n .
  then show ?thesis
    by (simp add: greet_device_def wp_simps assms(1))
qed

lemma wp_print_response:
  assumes "ds ! i = int (3 + f)" and "files w ! f = (i, 0)" and "f < length (files w)"
    and "blocks (loaded w) ! i = greeted i b" and "i < 3"
    and "\<And>fs. length fs = length (files w) \<Longrightarrow> (\<And>j. j \<noteq> f \<Longrightarrow> fs ! j = files w ! j) \<Longrightarrow>
      Q (Inr ()) (w\<lparr>files := fs, printed := printed w @ ''Response from device '' @ fmt_u i @ '': Hello, device '' @ fmt_u i @ [NL]\<rparr>, ds)"
  shows "wp (print_response chardev_os i) (w, ds) Q"
proof -
  have len: "length (message i) = 15" using message_ok(3) [of i] assms(5) by simp
  have r: "skeleton_read (\<lambda>_. 0) (Some (greeted i b)) 1024 0 = (int (length (message i)), message i, length (message i))"
    unfolding greeted_def by (rule read_short) (simp_all add: message_ok len)
  have "\<forall>c \<in> set (message i). (of_char c :: nat) < 128"
    by (auto simp: message_def is_digit_def dest!: fmt_u_digits)
  then have "concat (from_utf8_lossy (message i)) = message i" by (simp add: lossy_ascii)
  moreover have "rd_bytes 1024 (int (length (message i)), message i) = message i" by (intro rd_bytes_exact) (simp_all add: len)
  moreover have "nat (int (3 + f)) - 3 = f" by simp
  then have "chardev_os w (Read (int (3 + f)) 1024) = ((int (length (message i)), message i),
      w\<lparr>files := (files w)[f := (i, length (message i))]\<rparr>)"
    unfolding chardev_os_def call.case Let_def using assms(2,4) by (simp add: r)
  moreover have "chardev_os v (Printf t) = ((0, []), v\<lparr>printed := printed v @ t\<rparr>)" for v t by (simp add: chardev_os_def)
  ultimately show ?thesis
    using assms(1) assms(6) [of "(files w)[f := (i, length (message i))]"]
    by (simp add: print_response_def wp_simps wp_sys wp_sysi exec_def io_result_def message_def)
qed

lemma chardev_calls [simp]:
  "chardev_os w (Close fd) = ((0, []), w)" "chardev_os w (Printf s) = ((0, []), w\<lparr>printed := printed w @ s\<rparr>)"
  by (simp_all add: chardev_os_def)

lemma wp_close_all [simp]: "wp (for_each ds (\<lambda>fd. exec chardev_os (Close fd))) (w, g) Q = Q () (w, g)"
  by (induction ds) (simp_all add: wp_simps exec_def wp_sysi)

text \<open>The three loops of the program, from one state to the next.\<close>

abbreviation (input) at_start :: "(nat \<times> nat) list" where
  "at_start \<equiv> [(0, 0), (Suc 0, 0), (2, 0)]"

lemma wp_open_all:
  assumes "three_devices d" and "Q (Inr ()) (\<lparr>loaded = d, files = at_start, printed = out\<rparr>, [3, 4, 5])"
  shows "wp (for_ok [0, Suc 0, 2] (open_device chardev_os)) (\<lparr>loaded = d, files = [], printed = out\<rparr>, []) Q"
proof -
  have same: "three_devices (loaded \<lparr>loaded = d, files = fs, printed = out\<rparr>)" for fs using assms(1) by simp
  note step = wp_open_device [OF same]
  from assms(2) show ?thesis
    unfolding for_ok.simps wp_simps
    by - (rule step, simp, simp, rule step, simp, simp, rule step, simp_all)
qed

lemma wp_greet_all:
  assumes "blocks d = [a, b, c]" and "length a = 256" and "length b = 256" and "length c = 256"
    and "Q (Inr ()) (\<lparr>loaded = d\<lparr>blocks := [greeted 0 a, greeted (Suc 0) b, greeted 2 c]\<rparr>, files = at_start, printed = out\<rparr>, [3, 4, 5])"
  shows "wp (for_ok [0, Suc 0, 2] (greet_device chardev_os)) (\<lparr>loaded = d, files = at_start, printed = out\<rparr>, [3, 4, 5]) Q"
  unfolding for_ok.simps wp_simps
  by (rule wp_greet_device [where f = 0 and off = 0 and b = a], simp_all add: assms(1-4),
      rule wp_greet_device [where f = 1 and off = 0 and b = b], simp_all add: assms(1-4),
      rule wp_greet_device [where f = 2 and off = 0 and b = c], simp_all add: assms(1-4))
    (use assms(5) in simp)

definition response :: "nat \<Rightarrow> string" where
  "response i = ''Response from device '' @ fmt_u i @ '': Hello, device '' @ fmt_u i @ [NL]"

lemma wp_print_all:
  assumes "\<And>fs. Q (Inr ()) (\<lparr>loaded = d\<lparr>blocks := [greeted 0 a, greeted (Suc 0) b, greeted 2 c]\<rparr>, files = fs,
    printed = out @ concat (map response [0, Suc 0, 2])\<rparr>, [3, 4, 5])"
  shows "wp (for_ok [0, Suc 0, 2] (print_response chardev_os))
    (\<lparr>loaded = d\<lparr>blocks := [greeted 0 a, greeted (Suc 0) b, greeted 2 c]\<rparr>, files = at_start, printed = out\<rparr>, [3, 4, 5]) Q"
  unfolding for_ok.simps wp_simps
  by (rule wp_print_response [where f = 0], simp_all, rule wp_print_response [where f = 1], simp_all,
      rule wp_print_response [where f = 2], simp_all)
    (use assms in \<open>simp add: response_def\<close>)

text \<open>C11. The client on the driver loaded for three devices, whatever the buffers held: every device
  answers with the message it was sent, although the program never rewinds its files (a write sets the
  position back to 0), the run ends with success, and each buffer holds its own message.\<close>

theorem devices_answer:
  assumes "three_devices d"
  shows "wp (echo_main chardev_os) (\<lparr>loaded = d, files = [], printed = []\<rparr>, []) (\<lambda>r (w, _).
    r = Inr () \<and> blocks (loaded w) = map (\<lambda>i. greeted i (blocks d ! i)) [0..<3] \<and>
    printed w = ''Opened all devices'' @ [NL] @ concat (map response [0..<3]))"
proof -
  obtain a b c where bs: "blocks d = [a, b, c]" and len: "length a = 256" "length b = 256" "length c = 256"
    using assms(1) by (auto simp: three_devices_def numeral_3_eq_3 length_Suc_conv)
  have three: "[0..<3] = [0, Suc 0, 2]" by (simp add: upt_rec)
  show ?thesis
    unfolding echo_main_def echo_body_def three wp_simps
    by (rule wp_open_all [OF assms], simp add: exec_def wp_simps wp_sysi del: for_ok.simps,
        rule wp_greet_all [OF bs len], simp del: for_ok.simps,
        rule wp_print_all, simp add: bs wp_simps wp_sysi exec_def)
qed

theorem devices_answer_witness:
  "wp (echo_main chardev_os)
     (\<lparr>loaded = \<lparr>devices_number = 3, devices_ptr = 1,
        devices = map (\<lambda>i. \<lparr>sd_name = ''skeleton'' @ fmt_u i, sd_dev = i\<rparr>) [0, 1, 2], buffers_ptr = 1,
        buffers = [1, 1, 1], blocks = replicate 3 (replicate 256 CHR ''x''), class_ptr = 1\<rparr>, files = [], printed = []\<rparr>, [])
     (\<lambda>r (w, _). r = Inr ())"
proof -
  have "fmt_u 0 = ''0''" "fmt_u (Suc 0) = ''1''" "fmt_u 2 = ''2''"
    by (simp_all add: fmt_u.simps [of 0] fmt_u.simps [of "Suc 0"] fmt_u.simps [of 2])
  then show ?thesis
    by (intro wp_mono [OF devices_answer]) (auto simp: three_devices_def MINOR_def)
qed

end
