(* ===== verification/Switch_Client.thy ===== *)
theory Switch_Client
  imports Rust_Clients Switch_Driver
begin

text \<open>
  The Rust program \<^verbatim>\<open>03_drivers/exercise07/application/src/main.rs\<close>, which adds up the presses that
  \<open>Switch_Driver\<close> reports, and the two together.
\<close>

section \<open>Exercise 7: adding up the presses\<close>

text \<open>The end of the program other than success: an error, or the panic of an overflowing
  addition (of a debug build; a release build wraps around).\<close>

datatype app_error = Failed io_error | Panicked

definition or_failed :: "('s, io_error + 'a) state \<Rightarrow> ('s, app_error + 'a) state" where
  "or_failed m = do { r \<leftarrow> m; return (case r of Inl e \<Rightarrow> Inl (Failed e) | Inr a \<Rightarrow> Inr a) }"

text \<open>A file is closed when its variable goes out of scope.\<close>

definition owning :: "('w, call) os \<Rightarrow> int \<Rightarrow> ('w, 'g, 'a) prog \<Rightarrow> ('w, 'g, 'a) prog" where
  "owning os fd body = do { r \<leftarrow> body; exec os (Close fd); return r }"

definition SWITCH_TOKEN :: nat where "SWITCH_TOKEN = 0"

text \<open>An event of the poller: its token, and whether the source is readable.  The static of the model
  is \<open>total_interrupts\<close>, a \<open>u32\<close>.\<close>

type_synonym event = "nat \<times> bool"

definition add_answer :: "nat \<Rightarrow> string \<Rightarrow> nat option" where
  "add_answer so_far bytes =
     (let v = so_far + (case parse_u32 (trim (from_utf8_lossy bytes)) of None \<Rightarrow> so_far | Some n \<Rightarrow> n)
      in if v < 2 ^ 32 then Some v else None)"

definition on_event :: "('w, call) os \<Rightarrow> int \<Rightarrow> event \<Rightarrow> ('w, nat, app_error + unit) prog" where
  "on_event os fd ev = (case ev of (token, readable) \<Rightarrow>
     if token = SWITCH_TOKEN \<and> readable then do {
       r \<leftarrow> sys os (Read fd 1024);
       if fst r < 0 then return (if fst r = - 11 then Inr () else Inl (Failed (Os_error (fst r))))
       else if fst r > 0 then do {
         sum_before \<leftarrow> getg;
         (case add_answer sum_before (rd_bytes 1024 r) of
            None \<Rightarrow> return (Inl Panicked)
          | Some v \<Rightarrow> do {
              modg (\<lambda>_. v);
              exec os (Printf (''Received data from driver: '' @ concat (trim (from_utf8_lossy (rd_bytes 1024 r))) @
                '' (Total interrupts: '' @ fmt_u v @ '')'' @ [NL]));
              return (Inr ()) }) }
       else return (Inr ()) }
     else return (Inr ()))"

text \<open>
  The poller is the crate \<open>mio\<close>: \<open>registered\<close> is the outcome of creating it and of the registration,
  \<open>rounds\<close> the outcomes of \<open>poll\<close>, each an error or the events of one round.  The loop has no end of its
  own: \<open>switch_main\<close> runs it for the given rounds.
\<close>

definition switch_rounds ::
    "('w, call) os \<Rightarrow> int \<Rightarrow> (io_error + event list) list \<Rightarrow> ('w, nat, app_error + unit) prog" where
  "switch_rounds os fd rounds = for_ok rounds (\<lambda>round. case round of
     Inl e \<Rightarrow> return (Inl (Failed e))
   | Inr events \<Rightarrow> for_ok events (on_event os fd))"

definition switch_main ::
    "('w, call) os \<Rightarrow> io_error + unit \<Rightarrow> (io_error + event list) list \<Rightarrow> ('w, nat, app_error + unit) prog" where
  "switch_main os registered rounds = do {
     modg (\<lambda>_. 0);
     r \<leftarrow> sysi os (Open ''/sys/class/misc/switch_driver/nb_of_interrupts'' [O_WRONLY]);
     bind_ok (or_failed (return (io_result r))) (\<lambda>sysfs. owning os sysfs
       (bind_ok (or_failed (write_all 1 os sysfs ''0'')) (\<lambda>_. do {
          exec os (Printf (''Reset interrupt counter.'' @ [NL]));
          r \<leftarrow> sysi os (Open ''/dev/switch_driver'' [O_RDONLY, O_NONBLOCK]);
          bind_ok (or_failed (return (io_result r))) (\<lambda>device. owning os device (do {
            exec os (Printf (''Opened driver device: /dev/switch_driver'' @ [NL]));
            bind_ok (or_failed (return registered)) (\<lambda>_. do {
              exec os (Printf (''Waiting for data from the driver...'' @ [NL]));
              switch_rounds os device rounds }) })) }))) }"

text \<open>
  The loaded driver as the system: before each call some presses run their handlers (\<open>arrivals\<close>).
  \<open>pressed\<close> counts the presses.
\<close>

record switch_world =
  button_drv :: switch_driver
  arrivals :: "nat list"
  pressed :: int
  said :: string

definition press_buttons :: "switch_world \<Rightarrow> switch_world" where
  "press_buttons w = (case arrivals w of
       [] \<Rightarrow> w
     | n # ns \<Rightarrow> w\<lparr>button_drv := (gpio_isr K1_Switch ^^ n) (button_drv w), arrivals := ns, pressed := pressed w + int n\<rparr>)"

definition switch_call :: "switch_world \<Rightarrow> call \<Rightarrow> ret \<times> switch_world" where
  "switch_call w c = (case c of
       Open path flags \<Rightarrow>
         ((if path = ''/sys/class/misc/switch_driver/nb_of_interrupts'' then 3
           else if path = ''/dev/switch_driver'' then 4 else - 2, []), w)
     | Write fd s \<Rightarrow>
         (let (r, d) = nb_of_interrupts_store s (button_drv w) in
          ((r, []), w\<lparr>button_drv := d\<rparr>))
     | Read fd n \<Rightarrow>
         (let (d, _, answer) = read_enter (\<lambda>_. 0) True (button_drv w) in (the answer, w\<lparr>button_drv := d\<rparr>))
     | Printf s \<Rightarrow> ((0, []), w\<lparr>said := said w @ s\<rparr>)
     | _ \<Rightarrow> ((0, []), w))"

definition switch_os :: "(switch_world, call) os" where
  "switch_os w c = switch_call (press_buttons w) c"

section \<open>The client on the driver\<close>

text \<open>The line of a count is read back as the count.\<close>

lemma not_white: "is_digit c \<Longrightarrow> \<not> white [c]"
  by (auto simp: white_def is_digit_def)

lemma dropWhile_not: "(\<And>x. x \<in> set xs \<Longrightarrow> \<not> P x) \<Longrightarrow> dropWhile P xs = xs"
  by (cases xs) auto

lemma trim_line: "trim (map (\<lambda>c. [c]) (fmt_u n @ [NL])) = map (\<lambda>c. [c]) (fmt_u n)"
proof -
  let ?t = "map (\<lambda>c. [c]) (fmt_u n)"
  have no: "\<not> white x" if "x \<in> set ?t" for x using that fmt_u_digits not_white by auto
  have "white [NL]" by code_simp
  moreover have "dropWhile white (?t @ r) = ?t @ r" for r
    using no by (cases "fmt_u n") auto
  moreover have "dropWhile white (rev ?t) = rev ?t" using no by (intro dropWhile_not) simp
  ultimately show ?thesis by (simp add: trim_def)
qed

lemma add_line:
  assumes "t + n < 2 ^ 32"
  shows "add_answer t (fmt_u n @ [NL]) = Some (t + n)"
proof -
  have ascii: "\<forall>c \<in> set (fmt_u n @ [NL]). (of_char c :: nat) < 128"
    by (auto simp: is_digit_def dest!: fmt_u_digits)
  obtain c cs where c: "fmt_u n = c # cs" by (cases "fmt_u n") auto
  then have "c \<noteq> CHR ''+''" using is_digit_not_special [OF fmt_u_Cons_digit] by blast
  moreover have "list_all is_digit (fmt_u n)" by (simp add: list_all_iff fmt_u_digits)
  moreover have "foldl (\<lambda>n c. 10 * n + (of_char c - 48)) 0 (fmt_u n) = n"
    using foldl_fmt_u [of n] by (simp add: digit_val_def)
  ultimately have "parse_u32 (map (\<lambda>c. [c]) (fmt_u n)) = Some n"
    using assms c by (simp add: parse_u32_def)
  then show ?thesis
    using assms by (simp only: add_answer_def lossy_ascii [OF ascii] trim_line) simp
qed

text \<open>What the system keeps: of the presses so far, \<open>base\<close> were thrown away by the reset, the client was
  given some, and the others are pending.  \<open>m\<close> bounds the presses to come.\<close>

definition accounted :: "int \<Rightarrow> int \<Rightarrow> switch_world \<Rightarrow> nat \<Rightarrow> bool" where
  "accounted m base w given \<longleftrightarrow> pressed w + int (sum_list (arrivals w)) \<le> m \<and> m < 2 ^ 31 \<and>
     0 \<le> nb_of_interrupts (button_drv w) \<and> 0 \<le> base \<and> pressed w = base + int given + nb_of_interrupts (button_drv w)"

lemma presses_counted:
  assumes "0 \<le> nb_of_interrupts d" and "nb_of_interrupts d + int n < 2 ^ 31"
  shows "nb_of_interrupts ((gpio_isr sw ^^ n) d) = nb_of_interrupts d + int n"
  using assms(2)
proof (induction n)
  case (Suc n)
  then have "s32 (nb_of_interrupts d + int n + 1) = nb_of_interrupts d + int n + 1"
    using assms(1) by (intro s32_id) (simp add: s32_range_def)
  with Suc show ?case by (simp add: gpio_isr_def gpio_isr_count_def gpio_isr_wake_def algebra_simps)
qed simp

lemma accounted_press:
  assumes "accounted m base w given"
  shows "accounted m base (press_buttons w) given"
proof (cases "arrivals w")
  case (Cons n ns)
  with assms have "nb_of_interrupts ((gpio_isr K1_Switch ^^ n) (button_drv w)) = nb_of_interrupts (button_drv w) + int n"
    by (intro presses_counted) (simp_all add: accounted_def)
  with assms Cons show ?thesis by (simp add: press_buttons_def accounted_def)
qed (use assms in \<open>simp add: press_buttons_def\<close>)

text \<open>The calls, as the client sees them.\<close>

lemma quiet_call:
  assumes "accounted m base w given"
  shows "accounted m base (snd (switch_os w (Printf s))) given" and "accounted m base (snd (switch_os w (Close fd))) given"
  using accounted_press [OF assms] by (simp_all add: switch_os_def switch_call_def accounted_def)

lemma wp_silent:
  assumes "accounted m base w given" and "\<And>w'. accounted m base w' given \<Longrightarrow> Q () (w', g)"
  shows "wp (exec switch_os (Printf s)) (w, g) Q" and "wp (exec switch_os (Close fd)) (w, g) Q"
  using assms(2) [OF quiet_call(1) [OF assms(1)]] assms(2) [OF quiet_call(2) [OF assms(1)]]
  by (simp_all add: exec_def wp_simps wp_sysi case_prod_beta)

lemma wp_open_switch:
  assumes "accounted m base w given" and "\<And>w'. accounted m base w' given \<Longrightarrow> Q 4 (w', g)"
  shows "wp (sysi switch_os (Open ''/dev/switch_driver'' flags)) (w, g) Q"
  using assms(2) accounted_press [OF assms(1)] by (simp add: wp_sysi switch_os_def switch_call_def)

lemma read_answer:
  assumes "accounted m base w given"
  obtains (none) w' where "switch_os w (Read fd 1024) = ((- 11, []), w')" "accounted m base w' given"
  | (some) n w' where "switch_os w (Read fd 1024) = ((int (length (fmt_u n) + 1), fmt_u n @ [NL]), w')"
      "length (fmt_u n) \<le> 10" "accounted m base w' (given + n)"
proof -
  define v where "v = press_buttons w"
  have v: "accounted m base v given" unfolding v_def by (rule accounted_press [OF assms])
  define k where "k = nb_of_interrupts (button_drv v)"
  show thesis
  proof (cases "k = 0")
    case True
    with v none show thesis
      by (simp add: switch_os_def switch_call_def read_enter_def accounted_def v_def [symmetric] k_def)
  next
    case False
    from v have range: "0 \<le> k" "k < 2 ^ 31" by (auto simp: accounted_def k_def)
    then have "fmt_d k = fmt_u (nat k)" by (simp add: fmt_d_def)
    moreover have len: "length (fmt_u (nat k)) \<le> 10" using range by (intro length_fmt_u_le [of _ 9, simplified]) simp
    ultimately have "switch_copy (\<lambda>_. 0) k = (int (length (fmt_u (nat k)) + 1), fmt_u (nat k) @ [NL])"
      by (simp add: switch_copy_def Let_def)
    with False v some [of "nat k"] range len show thesis
      by (simp add: switch_os_def switch_call_def read_enter_def accounted_def v_def [symmetric] k_def)
  qed
qed

lemma wp_event:
  assumes "accounted m base w g" and "\<And>w' g'. accounted m base w' g' \<Longrightarrow> Q (Inr ()) (w', g')"
  shows "wp (on_event switch_os fd ev) (w, g) Q"
proof (cases "fst ev = SWITCH_TOKEN \<and> snd ev")
  case True
  show ?thesis
    using assms(1)
  proof (cases rule: read_answer [of m base w g fd])
    case (none w')
    with True assms(2) show ?thesis by (cases ev) (simp add: on_event_def wp_simps wp_sys)
  next
    case (some n w')
    then have "g + n < 2 ^ 32" by (auto simp: accounted_def)
    note line = add_line [OF this]
    with True some assms(2) show ?thesis
      by (cases ev) (auto simp: on_event_def wp_simps wp_sys line intro!: wp_silent)
  qed
qed (use assms in \<open>auto simp: on_event_def wp_simps split: prod.split\<close>)

lemma wp_for_ok:
  assumes "I s" and "\<And>x s Q. I s \<Longrightarrow> (\<And>s'. I s' \<Longrightarrow> Q (Inr ()) s') \<Longrightarrow> x \<in> set xs \<Longrightarrow> wp (body x) s Q"
    and "\<And>s'. I s' \<Longrightarrow> Q (Inr ()) s'"
  shows "wp (for_ok xs body) s Q"
  using assms
proof (induction xs arbitrary: s)
  case (Cons x xs)
  have "wp (for_ok xs body) s' Q" if "I s'" for s' using that by (rule Cons.IH) (use Cons.prems(2,3) in auto)
  with Cons.prems(1) Cons.prems(2) [of s _ x] show ?case by (simp add: wp_simps)
qed (simp add: wp_simps)

lemma wp_rounds:
  assumes "accounted m base w g" and "\<And>w' g'. accounted m base w' g' \<Longrightarrow> Q (Inr ()) (w', g')"
  shows "wp (switch_rounds switch_os fd (map Inr batches)) (w, g) Q"
proof -
  let ?I = "\<lambda>(w, g). accounted m base w g"
  have "wp (for_ok es (on_event switch_os fd)) s Q" if "?I s" "\<And>s'. ?I s' \<Longrightarrow> Q (Inr ()) s'" for es s Q
    by (rule wp_for_ok [of ?I]) (use that in \<open>auto intro!: wp_event\<close>)
  then show ?thesis
    unfolding switch_rounds_def by (intro wp_for_ok [of ?I]) (use assms in auto)
qed

lemma press_before: "arrivals (press_buttons w) = drop 1 (arrivals w)"
  "pressed (press_buttons w) = pressed w + int (sum_list (take 1 (arrivals w)))"
  by (cases "arrivals w"; simp add: press_buttons_def)+

text \<open>C6. The push buttons end to end: the driver, with presses arriving between any two calls of the
  client, and the Rust client that resets the counter and then reads whenever the poller reports
  something, for any events of the poller.  The client never fails, and at every moment the total it
  displays and the count pending in the driver add up to the presses since the reset.  (Presses before
  the reset are dropped: those that were pending, and those before the first two calls.  All presses
  together are fewer than 2^31.)\<close>

theorem presses_displayed:
  assumes "0 \<le> pending" and "pending + int (sum_list ns) < 2 ^ 31"
  shows "wp (switch_main switch_os (Inr ()) (map Inr batches))
     (\<lparr>button_drv = \<lparr>nb_of_interrupts = pending, queue = [], in_handler = 0\<rparr>, arrivals = ns, pressed = 0, said = []\<rparr>, g)
     (\<lambda>r (w, shown). r = Inr () \<and>
        int shown + nb_of_interrupts (button_drv w) = pressed w - int (sum_list (take 2 ns)))"
proof -
  define w0 where "w0 = \<lparr>button_drv = \<lparr>nb_of_interrupts = pending, queue = [], in_handler = 0\<rparr>, arrivals = ns, pressed = 0, said = []\<rparr>"
  define w1 where "w1 = press_buttons (press_buttons w0)"
  define w2 where "w2 = w1\<lparr>button_drv := (button_drv w1)\<lparr>nb_of_interrupts := 0\<rparr>\<rparr>"
  define base where "base = int (sum_list (take 2 ns))"
  have zero: "kstrtoint (c_str ''0'') = Some 0" by code_simp
  have opened: "switch_os w0 (Open ''/sys/class/misc/switch_driver/nb_of_interrupts'' [O_WRONLY]) = ((3, []), press_buttons w0)"
    by (simp add: switch_os_def switch_call_def)
  have reset: "switch_os (press_buttons w0) (Write 3 ''0'') = ((1, []), w2)"
    unfolding switch_os_def w2_def w1_def using zero by (simp add: switch_call_def nb_of_interrupts_store_def)
  have "sum_list ns = sum_list (take 2 ns) + sum_list (drop 2 ns)"
    by (metis append_take_drop_id sum_list_append)
  moreover have "sum_list (take 1 ns) + sum_list (take 1 (drop 1 ns)) = sum_list (take 2 ns)"
    by (cases ns; cases "tl ns") auto
  ultimately have start: "accounted (int (sum_list ns)) base w2 0"
    using assms by (simp add: accounted_def w2_def w1_def press_before w0_def base_def numeral_2_eq_2 of_nat_add [symmetric] del: of_nat_add)
  have shown: "int shown + nb_of_interrupts (button_drv w) = pressed w - int (sum_list (take 2 ns))"
    if "accounted m base w shown" for m w shown
    using that by (simp add: accounted_def base_def)
  have "wp (switch_main switch_os (Inr ()) (map Inr batches)) (w0, g) (\<lambda>r (w, shown).
      r = Inr () \<and> (\<exists>m. accounted m base w shown))"
    unfolding switch_main_def owning_def or_failed_def wp_simps using start
    by (auto simp: wp_simps wp_sysi opened reset io_result_def
        intro!: wp_silent wp_open_switch wp_rounds)
  then show ?thesis unfolding w0_def [symmetric] by (rule wp_mono) (use shown in auto)
qed

theorem presses_displayed_witness:
  "wp (switch_main switch_os (Inr ()) [Inr [(0, True)], Inr [(1, True), (0, True)]])
     (\<lparr>button_drv = \<lparr>nb_of_interrupts = 4, queue = [], in_handler = 0\<rparr>, arrivals = [1, 2, 0, 0, 0, 0, 5, 7],
       pressed = 0, said = []\<rparr>, 9)
     (\<lambda>r (w, shown). r = Inr () \<and> int shown + nb_of_interrupts (button_drv w) = pressed w - 3)"
  using presses_displayed [of 4 "[1, 2, 0, 0, 0, 0, 5, 7]" "[[(0, True)], [(1, True), (0, True)]]" 9]
  by (simp add: numeral_2_eq_2)

text \<open>An answer that is not a number is not ignored: it doubles the total.\<close>

lemma bad_answer_doubles: "2 * t < 2 ^ 32 \<Longrightarrow> add_answer t (''-1'' @ [NL]) = Some (2 * t)"
proof -
  have "parse_u32 (trim (from_utf8_lossy (''-1'' @ [NL]))) = None" by code_simp
  then show "2 * t < 2 ^ 32 \<Longrightarrow> add_answer t (''-1'' @ [NL]) = Some (2 * t)" by (simp add: add_answer_def)
qed

end
