(* ===== verification/Course_Instances.thy ===== *)
theory Course_Instances
  imports Course_Files
begin

text \<open>
  The file operations of \<^verbatim>\<open>teacher_solutions/03_drivers/sample06.2/skeleton.c\<close>, where the buffers of the
  three instances are the rows of one array: what a user writes to one instance can reach another.
\<close>

section \<open>Operations\<close>

text \<open>\<open>private_data\<close> of instance \<open>i\<close> is the address of its row; addresses are indices into the array.\<close>

definition row :: "nat \<Rightarrow> int" where
  "row i = 10000 * int i"

text \<open>\<open>strlen\<close> of the text at an address runs over the end of the row; \<open>None\<close> when it leaves the array.\<close>

definition strlen_at :: "string \<Rightarrow> int \<Rightarrow> nat option" where
  "strlen_at mem a = strlen (drop (nat a) mem)"

definition inst_read ::
    "(int \<Rightarrow> int) \<Rightarrow> string \<Rightarrow> nat \<Rightarrow> int \<Rightarrow> int \<Rightarrow> (int \<times> string option \<times> int) option" where
  "inst_read fault mem i sz off =
     map_option (\<lambda>len.
       let remaining = int len - off;
           ptr = row i + off;
           sz = (if sz > u64_of remaining then u64_of remaining else sz);
           off = s64 (off + sz);
           bytes = view mem ptr sz
       in if fault sz \<noteq> 0 then (- EFAULT, bytes, off) else (s64 sz, bytes, off)) (strlen_at mem (row i))"

text \<open>\<open>copy n\<close> is what \<open>copy_from_user\<close> does for \<open>n\<close> bytes.  The result is the return value, the new
  position and the stores, at addresses.\<close>

definition inst_write ::
    "(int \<Rightarrow> int \<times> string) \<Rightarrow> nat \<Rightarrow> int \<Rightarrow> int \<Rightarrow> int \<times> int \<times> store list" where
  "inst_write copy i sz off =
     (let remaining = BUFFER_SZ - off;
          ptr = row i + off;
          off = s64 (off + sz);
          sz = (if sz \<ge> u64_of remaining then u64_of (- EIO) else sz)
      in if sz > 0 then
           let (left, bytes) = copy sz
           in (if left \<noteq> 0 then - EFAULT else s64 sz, off, [(s64 (ptr + sz), [NUL]), (ptr, bytes)])
         else (s64 sz, off, []))"

definition array_after :: "(int \<Rightarrow> int \<times> string) \<Rightarrow> nat \<Rightarrow> int \<Rightarrow> int \<Rightarrow> string \<Rightarrow> string" where
  "array_after copy i sz off mem = put_stores (snd (snd (inst_write copy i sz off))) mem"

section \<open>Interference\<close>

lemma inst_write_refused:
  assumes "i < 3" and "user_range sz off" and "user_copy copy" and "too_large sz off"
  shows "inst_write copy i sz off = (- EFAULT, off + sz, [(row i + off - 5, [NUL]), (row i + off, [])])"
proof -
  have "copy 18446744073709551611 = (18446744073709551611, [])" using assms(3) by (simp add: user_copy_def)
  moreover have "s64 (off + sz) = off + sz" using assms(2) by (auto simp: user_range_def intro!: s64_id)
  moreover have "s64 (row i + off + 18446744073709551611) = row i + off - 5"
    using assms(1) too_large_bounds [OF assms(2,4)] by (intro s64_minus_EIO) (auto simp: row_def)
  ultimately show ?thesis
    using too_large_iff [OF assms(2)] assms(4) by (simp add: inst_write_def Let_def)
qed

lemma inst_write_done:
  assumes "i < 3" and "user_range sz off" and "\<not> too_large sz off"
  shows "inst_write copy i sz off = (if sz > 0 \<and> fst (copy sz) \<noteq> 0 then - EFAULT else sz, off + sz,
    if sz > 0 then [(row i + off + sz, [NUL]), (row i + off, snd (copy sz))] else [])"
proof -
  have "s64 (off + sz) = off + sz" "s64 (row i + off + sz) = row i + off + sz" "s64 sz = sz" "0 \<le> sz"
    using assms(1,2) by (auto simp: user_range_def row_def intro!: s64_id)
  then show ?thesis
    using too_large_iff [OF assms(2)] assms(3) by (auto simp: inst_write_def Let_def split: prod.splits)
qed

text \<open>The buffer of an instance.\<close>

definition buffer_of :: "nat \<Rightarrow> string \<Rightarrow> string" where
  "buffer_of i mem = take 10000 (drop (10000 * i) mem)"

lemma buffer_of_eq:
  "length mem = 30000 \<Longrightarrow> length mem' = 30000 \<Longrightarrow> j < 3 \<Longrightarrow>
   buffer_of j mem' = buffer_of j mem \<longleftrightarrow> (\<forall>k < 10000. mem' ! (10000 * j + k) = mem ! (10000 * j + k))"
  by (simp add: buffer_of_def list_eq_iff_nth_eq)

lemma length_array_after [simp]: "length (array_after copy i sz off mem) = length mem"
  by (simp add: array_after_def)

text \<open>One byte of the array after a write that the code takes for too large, and after the others.\<close>

lemma nth_array_after:
  assumes "i < 3" and "user_range sz off" and "user_copy copy" and "k < length mem"
  shows "too_large sz off \<Longrightarrow> array_after copy i sz off mem ! k = (if int k = row i + off - 5 then NUL else mem ! k)"
    and "\<not> too_large sz off \<Longrightarrow> array_after copy i sz off mem ! k =
      (if sz = 0 then mem ! k
       else if row i + off \<le> int k \<and> int k < row i + off + sz then snd (copy sz) ! nat (int k - (row i + off))
       else if int k = row i + off + sz then NUL else mem ! k)"
  using assms user_copy_length [OF assms(3,2)]
  by (auto simp: array_after_def inst_write_refused inst_write_done put_stores_two nth_put_store user_range_def)

definition apart :: "nat \<Rightarrow> int \<Rightarrow> int \<Rightarrow> bool" where
  "apart i sz off \<longleftrightarrow>
     (if off > 10000 then sz = 0 \<or> 30000 \<le> row i + off else off + sz < 10000 \<or> 5 \<le> off \<or> i = 0)"

lemma apart_isolates:
  assumes "i < 3" and "user_range sz off" and "user_copy copy" and "apart i sz off"
    and "length mem = 30000" and "j < 3" and "j \<noteq> i"
  shows "buffer_of j (array_after copy i sz off mem) = buffer_of j mem"
proof -
  have "array_after copy i sz off mem ! (10000 * j + k) = mem ! (10000 * j + k)" if "k < 10000" for k
  proof -
    have k: "10000 * j + k < length mem" using that assms(5,6) by simp
    have row: "int (10000 * j + k) < row i \<or> row i + 10000 \<le> int (10000 * j + k)" "int (10000 * j + k) < 30000"
      using that assms(6,7) by (auto simp: row_def)
    show ?thesis
      using nth_array_after [OF assms(1-3) k] row assms(2,4) unfolding apart_def too_large_def user_range_def
      by (cases "too_large sz off"; cases "off > 10000") (auto simp: too_large_def row_def)
  qed
  then show ?thesis using assms(5,6) by (simp add: buffer_of_eq)
qed

lemma not_apart_reaches:
  assumes "i < 3" and "user_range sz off" and "user_copy copy" and "\<not> apart i sz off"
  shows "\<exists>mem j. length mem = 30000 \<and> j < 3 \<and> j \<noteq> i \<and> buffer_of j (array_after copy i sz off mem) \<noteq> buffer_of j mem"
proof -
  have reach: ?thesis if "k < 30000" "k div 10000 \<noteq> i" "\<And>mem. length mem = 30000 \<Longrightarrow> array_after copy i sz off mem ! k = c" for k c
  proof -
    define x where "x = (if c = NUL then CHR ''x'' else NUL)"
    let ?mem = "replicate 30000 x"
    have "array_after copy i sz off ?mem ! k \<noteq> ?mem ! k" using that by (simp add: x_def)
    moreover have "k = 10000 * (k div 10000) + k mod 10000" by simp
    ultimately have "buffer_of (k div 10000) (array_after copy i sz off ?mem) \<noteq> buffer_of (k div 10000) ?mem"
      using that(1) by (subst buffer_of_eq) (auto intro!: exI [of _ "k mod 10000"])
    with that(1,2) show ?thesis by (intro exI [of _ ?mem] exI [of _ "k div 10000"]) auto
  qed
  show ?thesis
  proof (cases "too_large sz off")
    case True
    define k where "k = nat (row i + off - 5)"
    have k: "row i + off - 5 = int k" "k < 30000" "k div 10000 = i - 1" "0 < i"
      using True assms(1,2,4) by (auto simp: apart_def too_large_def user_range_def row_def k_def)
    then show ?thesis
      using nth_array_after(1) [OF assms(1-3) _ True] by (intro reach [of k NUL]) auto
  next
    case False
    define k where "k = nat (row i + off)"
    have k: "row i + off = int k" "k < 30000" "k div 10000 \<noteq> i" "0 < sz"
      using False assms(1,2,4) by (auto simp: apart_def too_large_def user_range_def row_def k_def)
    then show ?thesis
      using nth_array_after(2) [OF assms(1-3) _ False] by (intro reach [of k "snd (copy sz) ! 0"]) auto
  qed
qed

text \<open>C26. The instances of sample 6.2 share one array.  A write through one of them leaves the buffers of the
  others alone, whatever they hold, exactly in these cases: it starts inside the buffer and fits, or it
  is refused and starts at 5 or later (or in the first instance, where the byte that a refusal clears
  lies before the array); it starts behind the buffer and is empty or behind the whole array.\<close>

theorem instances_apart:
  assumes "i < 3" and "user_range sz off" and "user_copy copy"
  shows "(\<forall>mem j. length mem = 30000 \<and> j < 3 \<and> j \<noteq> i \<longrightarrow>
      buffer_of j (array_after copy i sz off mem) = buffer_of j mem) \<longleftrightarrow>
    (if off > 10000 then sz = 0 \<or> 30000 \<le> 10000 * int i + off else off + sz < 10000 \<or> 5 \<le> off \<or> i = 0)"
proof -
  have "(\<forall>mem j. length mem = 30000 \<and> j < 3 \<and> j \<noteq> i \<longrightarrow>
      buffer_of j (array_after copy i sz off mem) = buffer_of j mem) \<longleftrightarrow> apart i sz off"
    using apart_isolates [OF assms] not_apart_reaches [OF assms] by blast
  then show ?thesis by (simp add: apart_def row_def)
qed

theorem instances_apart_witness:
  "\<exists>mem j. length mem = 30000 \<and> j < 3 \<and> j \<noteq> 1 \<and>
    buffer_of j (array_after (\<lambda>n. if n > 2147483647 then (n, []) else (0, replicate (nat n) CHR ''x'')) 1 10000 0 mem)
      \<noteq> buffer_of j mem"
  using instances_apart [of 1 10000 0 "\<lambda>n. if n > 2147483647 then (n, []) else (0, replicate (nat n) CHR ''x'')"]
  by (auto simp: user_range_def user_copy_def)

text \<open>Up to the end of its text an instance reads like a driver with one buffer.\<close>

lemma inst_read_own:
  assumes "i < 3" and "length mem = 30000" and "NUL \<in> set (buffer_of i mem)"
    and "user_range sz off" and "off \<le> int (length (c_str (buffer_of i mem)))"
  shows "inst_read fault mem i sz off = misc_read fault (buffer_of i mem) sz off"
proof -
  let ?b = "buffer_of i mem"
  have split: "drop (10000 * i) mem = ?b @ drop 10000 (drop (10000 * i) mem)"
    unfolding buffer_of_def by (rule append_take_drop_id [symmetric])
  have "c_str (?b @ t) = c_str ?b" for t using assms(3) unfolding c_str_def by (intro takeWhile_append1) auto
  then have len: "strlen (drop (10000 * i) mem) = strlen ?b"
    using assms(3) split unfolding strlen_def by (metis Un_iff set_append)
  have "length ?b = 10000" using assms(1,2) by (simp add: buffer_of_def)
  moreover have "length (c_str ?b) \<le> length ?b" unfolding c_str_def by (rule length_takeWhile_le)
  moreover have "view mem (row i + off) n = view ?b off n" if "0 \<le> n" "off + n \<le> 10000" "0 \<le> off" for n
  proof -
    have "take (nat n) (drop (nat (row i + off)) mem) = take (nat n) (drop (nat off) ?b)"
      using that by (simp add: buffer_of_def row_def nat_add_distrib nat_mult_distrib drop_take take_take min_def le_diff_conv2 nat_le_iff add.commute)
    with that assms(1,2) \<open>length ?b = 10000\<close> show ?thesis by (simp add: view_def row_def)
  qed
  ultimately show ?thesis
    using assms(3-5) by (auto simp: inst_read_def misc_read_def strlen_at_def len row_def nat_mult_distrib strlen_Some
        user_range_def u64_of_id Let_def min_def)
qed

end
