(* ===== verification/Course_Mapping.thy ===== *)
theory Course_Mapping
  imports Csel_Prelude
begin

text \<open>
  The programs of \<^verbatim>\<open>teacher_solutions/03_drivers/sample01\<close>: \<^verbatim>\<open>main1.c\<close> writes a file line by line,
  \<^verbatim>\<open>main2.c\<close> changes every tenth line of it through a mapping, \<^verbatim>\<open>main3.c\<close> writes such a file through a
  mapping alone.
\<close>

section \<open>Files and mappings\<close>

text \<open>The files by name.  \<open>may\<close> says which names the process may open for reading and writing.\<close>

type_synonym dir = "string \<rightharpoonup> string"

definition open_existing :: "(string \<Rightarrow> bool) \<Rightarrow> dir \<Rightarrow> string \<Rightarrow> string option" where
  "open_existing may fs name = (if may name then fs name else None)"

text \<open>A shared mapping shows the file up to the end of its last page: an access behind that raises a
  signal, and what is stored in the last page behind the end of the file does not become part of it.\<close>

definition page_end :: "nat \<Rightarrow> nat" where
  "page_end n = (n + 4095) div 4096 * 4096"

definition put_at :: "nat \<Rightarrow> string \<Rightarrow> string \<Rightarrow> string" where
  "put_at i bs c = take (length c) (take i c @ bs @ drop (i + length bs) c)"

text \<open>\<open>memcpy\<close> of \<open>bs\<close> to byte \<open>i\<close> of a mapping of \<open>sz\<close> bytes; \<open>None\<close>: the process is killed.\<close>

definition memcpy_to :: "nat \<Rightarrow> nat \<Rightarrow> string \<Rightarrow> string \<Rightarrow> string option" where
  "memcpy_to sz i bs c =
     (if i + length bs \<le> min sz (page_end (length c)) then Some (put_at i bs c) else None)"

section \<open>Programs\<close>

definition msg1 :: string where "msg1 = ''1234567890abcdefghijklmnopqrstuvwxyz'' @ [NL]"
definition msg2 :: string where "msg2 = ''1234567890ABCDEFGHIJKLMNOPQRSTUVWXYZ'' @ [NL]"

definition LINES :: nat where "LINES = 10000"

text \<open>The two values of \<open>FILE_SZ\<close>.\<close>

definition FILE_SZ2 :: nat where "FILE_SZ2 = 10 * 1024 * 1024"
definition FILE_SZ3 :: nat where "FILE_SZ3 = 5 * 1024 * 1024"

text \<open>A file that cannot be opened stays as it is: every write fails.\<close>

definition main1 :: "(string \<Rightarrow> bool) \<Rightarrow> dir \<Rightarrow> dir" where
  "main1 may fs =
     (if may ''test1.txt'' then fs(''test1.txt'' \<mapsto> fold (\<lambda>i c. c @ msg1) [0..<LINES] []) else fs)"

definition copy_lines :: "nat \<Rightarrow> nat list \<Rightarrow> string \<Rightarrow> string \<Rightarrow> string option" where
  "copy_lines sz is msg c =
     fold (\<lambda>i r. Option.bind r (memcpy_to sz (i * length msg) msg)) is (Some c)"

text \<open>Without the file, \<open>mmap\<close> fails and the first store is to no valid address.\<close>

definition main2 :: "(string \<Rightarrow> bool) \<Rightarrow> dir \<Rightarrow> dir option" where
  "main2 may fs =
     (case open_existing may fs ''test1.txt'' of
        None \<Rightarrow> None
      | Some c \<Rightarrow>
          map_option (\<lambda>c. fs(''test1.txt'' \<mapsto> c))
            (copy_lines FILE_SZ2 (map (\<lambda>k. 10 * k) [0..<LINES div 10]) msg2 c))"

text \<open>The write of one byte behind a hole of \<open>FILE_SZ\<close> bytes makes the file long enough.\<close>

definition main3 :: "(string \<Rightarrow> bool) \<Rightarrow> dir \<Rightarrow> dir option" where
  "main3 may fs =
     (if may ''test3.txt'' then
        map_option (\<lambda>c. fs(''test3.txt'' \<mapsto> c))
          (copy_lines FILE_SZ3 [0..<LINES] msg1 (replicate FILE_SZ3 NUL @ [NUL]))
      else None)"

section \<open>What the files hold\<close>

lemma page_end_ge: "n \<le> page_end n"
proof -
  have "(n + 4095) mod 4096 < 4096" by simp
  with div_mult_mod_eq [of "n + 4095" 4096] show ?thesis unfolding page_end_def by linarith
qed

lemma length_msg [simp]: "length msg1 = 37" "length msg2 = 37"
  by (simp_all add: msg1_def msg2_def)

lemma appended: "fold (\<lambda>i c. c @ m) [0..<n] [] = concat (replicate n m)"
  by (induction n) (simp_all add: replicate_append_same [symmetric])

lemma concat_zeroes: "concat (replicate n (replicate k x)) = replicate (k * n) x"
  by (induction n) (simp_all add: replicate_add)

definition updated :: "nat list \<Rightarrow> string \<Rightarrow> string list \<Rightarrow> string list" where
  "updated is m ls = fold (\<lambda>i ls. ls[i := m]) is ls"

lemma length_updated [simp]: "length (updated is m ls) = length ls"
  by (induction "is" arbitrary: ls) (simp_all add: updated_def)

lemma nth_updated: "j < length ls \<Longrightarrow> updated is m ls ! j = (if j \<in> set is then m else ls ! j)"
proof (induction "is" rule: rev_induct)
  case (snoc i js)
  have "updated (js @ [i]) m ls = (updated js m ls)[i := m]" by (simp add: updated_def)
  with snoc show ?case by (cases "j = i") (auto simp: nth_list_update)
qed (simp add: updated_def)

definition lines_long :: "nat \<Rightarrow> string list \<Rightarrow> bool" where
  "lines_long k ls \<longleftrightarrow> (\<forall>l \<in> set ls. length l = k)"

lemma length_lines: "lines_long k ls \<Longrightarrow> length (concat ls) = k * length ls"
  by (induction ls) (simp_all add: lines_long_def)

lemma put_line:
  assumes "lines_long k ls" and "i < length ls" and "length m = k"
  shows "put_at (i * k) m (concat ls @ rest) = concat (ls[i := m]) @ rest"
proof -
  let ?a = "concat (take i ls)" and ?b = "concat (drop (Suc i) ls)"
  have split: "take i ls @ ls ! i # drop (Suc i) ls = ls" by (rule id_take_nth_drop [symmetric, OF assms(2)])
  have parts: "concat ls = ?a @ ls ! i @ ?b" "concat (ls[i := m]) = ?a @ m @ ?b"
    using arg_cong [OF split, of concat] by (simp_all add: upd_conv_take_nth_drop [OF assms(2)])
  have "lines_long k (take i ls)" using assms(1) by (auto simp: lines_long_def dest: in_set_takeD)
  then have "length ?a = i * k" using length_lines [of k "take i ls"] assms(2) by simp
  moreover have "length (ls ! i) = k" using assms by (simp add: lines_long_def)
  ultimately show ?thesis using assms(3) by (simp add: put_at_def parts)
qed

lemma copy_lines:
  assumes "lines_long (length m) ls" and "\<forall>i \<in> set is. i < length ls" and "length (concat ls) \<le> sz"
  shows "copy_lines sz is m (concat ls @ rest) = Some (concat (updated is m ls) @ rest)"
  using assms(2)
proof (induction "is" rule: rev_induct)
  case (snoc i js)
  let ?ls = "updated js m ls"
  have ls: "lines_long (length m) ?ls" using assms(1) by (auto simp: lines_long_def all_set_conv_all_nth nth_updated)
  have "i * length m + length m = Suc i * length m" by simp
  also have "Suc i * length m \<le> length ls * length m" using snoc.prems by (intro mult_le_mono1) simp
  also have "\<dots> = length (concat ls)" using length_lines [OF assms(1)] by (simp add: mult.commute)
  finally have fit: "i * length m + length m \<le> length (concat ls)" .
  have "length (concat ls) = length (concat ?ls)" by (simp only: length_lines [OF ls] length_lines [OF assms(1)] length_updated)
  also have "\<dots> \<le> length (concat ?ls @ rest)" by (simp only: length_append le_add1)
  finally have "i * length m + length m \<le> page_end (length (concat ?ls @ rest))"
    by (rule order_trans [OF fit order_trans [OF _ page_end_ge]])
  then have step: "memcpy_to sz (i * length m) m (concat ?ls @ rest) = Some (concat (?ls[i := m]) @ rest)"
    using fit assms(3) put_line [OF ls, of i m rest] snoc.prems by (simp add: memcpy_to_def del: length_concat)
  have "copy_lines sz js m (concat ls @ rest) = Some (concat ?ls @ rest)" using snoc by simp
  with step show ?case by (simp add: copy_lines_def updated_def)
qed (simp add: copy_lines_def updated_def)

lemma updated_all: "lines_long k ls \<Longrightarrow> updated [0..<length ls] m ls = replicate (length ls) m"
  by (rule nth_equalityI) (simp_all add: nth_updated)

text \<open>The programs run on files they may open.  After the first and the second, lines 0, 10, 20 and so
  on of the file are in upper case and all others in lower case; the third writes the file of the first
  through its mapping, up to the end of the mapping filled with zeroes and one more.  No access is
  behind the end of the file, so that none is killed, and other files stay.\<close>

theorem mapped_lines:
  assumes "may ''test1.txt''" and "may ''test3.txt''"
  shows "\<exists>fs1 fs3. main2 may (main1 may fs) = Some fs1 \<and> main3 may fs1 = Some fs3 \<and>
    fs3 = fs(''test1.txt'' \<mapsto> concat (map (\<lambda>i. if 10 dvd i then msg2 else msg1) [0..<LINES]),
             ''test3.txt'' \<mapsto> concat (replicate LINES msg1) @ replicate (FILE_SZ3 + 1 - 37 * LINES) NUL)"
proof -
  let ?one = "replicate LINES msg1" and ?tens = "map (\<lambda>k. 10 * k) [0..<LINES div 10]"
  have tens: "\<forall>i \<in> set ?tens. i < LINES" by auto
  have "j \<in> set ?tens \<longleftrightarrow> 10 dvd j" if "j < LINES" for j
    using that by (auto simp: LINES_def image_iff elim!: dvdE)
  then have "updated ?tens msg2 ?one = map (\<lambda>i. if 10 dvd i then msg2 else msg1) [0..<LINES]"
    by (intro nth_equalityI) (auto simp: nth_updated)
  moreover have lines: "lines_long 37 ?one" by (simp add: lines_long_def)
  have "copy_lines FILE_SZ2 ?tens msg2 (concat ?one @ []) = Some (concat (updated ?tens msg2 ?one) @ [])"
    using lines tens length_lines [OF lines] by (intro copy_lines) (auto simp: LINES_def FILE_SZ2_def)
  ultimately have two: "main2 may (main1 may fs) = Some (fs(''test1.txt'' \<mapsto>
      concat (map (\<lambda>i. if 10 dvd i then msg2 else msg1) [0..<LINES])))"
    using assms(1) by (simp add: main2_def main1_def open_existing_def appended)
  let ?zero = "replicate LINES (replicate 37 NUL)" and ?rest = "replicate (FILE_SZ3 + 1 - 37 * LINES) NUL"
  have zeroes: "lines_long 37 ?zero" by (simp add: lines_long_def)
  have fit: "37 * LINES \<le> FILE_SZ3" by (simp add: LINES_def FILE_SZ3_def)
  have "replicate FILE_SZ3 NUL @ [NUL] = replicate (37 * LINES + (FILE_SZ3 + 1 - 37 * LINES)) NUL"
    using fit by (simp add: replicate_append_same)
  also have "\<dots> = concat ?zero @ ?rest" unfolding replicate_add concat_zeroes ..
  finally have "replicate FILE_SZ3 NUL @ [NUL] = concat ?zero @ ?rest" .
  moreover have "copy_lines FILE_SZ3 [0..<LINES] msg1 (concat ?zero @ ?rest) =
      Some (concat (updated [0..<LINES] msg1 ?zero) @ ?rest)"
    using zeroes length_lines [OF zeroes] fit by (intro copy_lines) auto
  ultimately have "main3 may fs1 = Some (fs1(''test3.txt'' \<mapsto> concat ?one @ ?rest))" for fs1
    using assms(2) updated_all [OF zeroes, of msg1] by (simp add: main3_def)
  with two show ?thesis by simp
qed

theorem mapped_lines_witness:
  "\<exists>fs1 fs3. main2 (\<lambda>_. True) (main1 (\<lambda>_. True) Map.empty) = Some fs1 \<and> main3 (\<lambda>_. True) fs1 = Some fs3"
  using mapped_lines [of "\<lambda>_. True" Map.empty] by blast

end
