(* ===== verification/Display_Boot.thy ===== *)
theory Display_Boot
  imports Daemon_Screen
begin

text \<open>
  The display from power-on to the first screen: the driver's initialisation, the start screen of the
  daemon (\<open>screen_init\<close>) and the demonstration program
  \<^verbatim>\<open>teacher_solutions/07_miniproj/oled/main.c\<close>, run on a bus with the controller of \<open>Ssd1306\<close>.
\<close>

definition oled_main :: "('w, call) os \<Rightarrow> ('w, daemon, int) prog" where
  "oled_main os = do {
     _ \<leftarrow> ssd1306_init os;
     ssd1306_set_position os 0 0;
     ssd1306_puts os ''CSEL1a - SP.07'';
     ssd1306_set_position os 0 1;
     ssd1306_puts os ''  Demo - SW'';
     ssd1306_set_position os 0 2;
     ssd1306_puts os ''--------------'';
     ssd1306_set_position os 0 3;
     ssd1306_puts os (''Temp: 35'' @ [CHR 0x27] @ ''C'');
     ssd1306_set_position os 0 4;
     ssd1306_puts os ''Freq: 1Hz'';
     ssd1306_set_position os 0 5;
     ssd1306_puts os ''Duty: 50%'';
     return 0 }"

text \<open>The bus with the display at its address.\<close>

definition bus_os :: "(oled, call) os" where
  "bus_os s c =
     (case c of
        Open path flags \<Rightarrow> ((if path = I2C_BUS then 3 else - 1, []), s)
      | Ioctl fd cmd arg \<Rightarrow> ((if fd = 3 \<and> cmd = ''I2C_SLAVE'' \<and> arg = OLED_ADDR then 0 else - 1, []), s)
      | Write fd bs \<Rightarrow> (if fd = 3 then ((int (length bs), []), oled_write bs s) else ((- 1, []), s))
      | _ \<Rightarrow> ((0, []), s))"

interpretation panel: oled_bus bus_os "\<lambda>s. s" "\<lambda>_. True" "\<lambda>_. ()" 3
  by unfold_locales (simp add: bus_os_def)

section \<open>Rows of text\<close>

text \<open>Row \<open>r\<close> shows \<open>str\<close> and blanks behind it.\<close>

definition row_shows :: "oled \<Rightarrow> nat \<Rightarrow> string \<Rightarrow> bool" where
  "row_shows s r str \<longleftrightarrow> (\<forall>c<16. shows_char s r c (if c < length str then str ! c else CHR '' ''))"

lemma row_text:
  assumes "row_shows s r []" and "length str \<le> 16" and "settled s"
  shows "row_shows (text_at r 0 str s) r str"
proof -
  have len: "0 + length str \<le> 16" using assms(2) by simp
  show ?thesis
    using text_at(1) [OF len assms(3), of r] assms(1) same_outside_shows [OF text_at(2) [OF len assms(3), of r], of r]
    by (auto simp: row_shows_def shows_text_def)
qed

lemma row_other:
  assumes "row_shows s q t" and "q \<noteq> r" and "length str \<le> 16" and "settled s"
  shows "row_shows (text_at r 0 str s) q t"
proof -
  have len: "0 + length str \<le> 16" using assms(3) by simp
  show ?thesis
    using assms(1,2) same_outside_shows [OF text_at(2) [OF len assms(4), of r], of q] by (auto simp: row_shows_def)
qed

lemma row_blank: "settled s \<Longrightarrow> row_shows (text_at r 0 (replicate 16 CHR '' '') s) r []"
  using text_at(1) [of 0 "replicate 16 CHR '' ''" s r] by (simp add: row_shows_def shows_text_def)

lemma row_shows_cursor [simp]: "row_shows (s\<lparr>page := p, col := c\<rparr>) r str = row_shows s r str"
  by (simp add: row_shows_def shows_char_def)

section \<open>Clearing and initialising\<close>

lemma for_each_const: "for_each xs (\<lambda>_. m) = for_each (replicate (length xs) c) (\<lambda>_. m)"
  by (induction xs) simp_all

definition blank_row :: "nat \<Rightarrow> oled \<Rightarrow> oled" where
  "blank_row j = text_at j 0 (replicate 16 CHR '' '')"

definition cleared :: "oled \<Rightarrow> oled" where
  "cleared s = (fold blank_row [0..<8] s)\<lparr>page := 0, col := 0\<rparr>"

lemma blank_row_settled [simp]: "settled (blank_row j s) = settled s"
  by (simp add: blank_row_def)

lemma fold_blank_settled [simp]: "settled (fold blank_row js s) = settled s"
  by (induction js arbitrary: s) simp_all

lemma fold_blank_rows: "settled s \<Longrightarrow> r \<in> set js \<or> row_shows s r [] \<Longrightarrow> row_shows (fold blank_row js s) r []"
proof (induction js arbitrary: s)
  case (Cons j js)
  have "row_shows (blank_row j s) r []" if "r = j \<or> row_shows s r []"
    using that Cons.prems(1) row_blank [of s r] row_other [of s r "[]" j] by (cases "r = j") (auto simp: blank_row_def)
  with Cons show ?case by auto
qed simp

lemma cleared_rows: "settled s \<Longrightarrow> r < 8 \<Longrightarrow> row_shows (cleared s) r []"
  by (simp add: cleared_def fold_blank_rows)

lemma cleared_settled [simp]: "settled (cleared s) = settled s"
  by (simp add: cleared_def)

lemma power_commands: "settled s \<Longrightarrow> oled_command 0xae s = s" "settled s \<Longrightarrow> oled_command 0xaf s = s"
  by (simp_all add: oled_command_alone word_le_nat_alt)

text \<open>
  The initialisation sequence, from any point inside a command: what the controller takes for the
  missing arguments, and then the commands of the sequence, none of which touches the addressing mode or
  the scrolling.
\<close>

definition at_boot :: "oled \<Rightarrow> bool" where
  "at_boot s \<longleftrightarrow> addressing s = 2 \<and> \<not> scrolling s \<and> (partial s = [] \<or> length (partial s) \<le> arity (hd (partial s)))"

fun keeps_mode :: "u8 list \<Rightarrow> bool" where
  "keeps_mode [] = True"
| "keeps_mode (c # bs) =
     (if arity c = 0 then c \<noteq> 0x2E \<and> c \<noteq> 0x2F \<and> keeps_mode bs
      else arity c = 1 \<and> c \<noteq> 0x20 \<and> bs \<noteq> [] \<and> keeps_mode (tl bs))"

lemma execute_keeps:
  assumes "hd bs \<noteq> 0x20" and "hd bs \<noteq> 0x2E" and "hd bs \<noteq> 0x2F"
  shows "partial (oled_execute bs s) = partial s" and "addressing (oled_execute bs s) = addressing s"
    and "scrolling (oled_execute bs s) = scrolling s"
  using assms by (simp_all add: oled_execute_def Let_def)

lemma keeps_mode_fold:
  "partial s = [] \<Longrightarrow> keeps_mode bs \<Longrightarrow> partial (fold oled_command bs s) = [] \<and>
    addressing (fold oled_command bs s) = addressing s \<and> scrolling (fold oled_command bs s) = scrolling s"
proof (induction bs arbitrary: s rule: length_induct)
  case (1 bs)
  show ?case
  proof (cases bs)
    case (Cons c cs)
    show ?thesis
    proof (cases "arity c = 0")
      case True
      then have step: "oled_command c s = oled_execute [c] (s\<lparr>partial := []\<rparr>)"
        using "1.prems"(1) by (simp add: oled_command_def Let_def)
      have "c \<noteq> 0x20" using True by (auto simp: arity_def two_byte_commands_def)
      with True "1.prems" have "partial (oled_command c s) = [] \<and> addressing (oled_command c s) = addressing s \<and>
          scrolling (oled_command c s) = scrolling s"
        unfolding step Cons by (simp add: execute_keeps)
      with "1.IH" True "1.prems"(2) show ?thesis by (simp add: Cons)
    next
      case False
      then obtain a as where cs: "cs = a # as" using "1.prems"(2) by (cases cs) (auto simp: Cons)
      have step: "oled_command a (oled_command c s) = oled_execute [c, a] (s\<lparr>partial := []\<rparr>)"
        using False "1.prems" by (simp add: oled_command_def Let_def Cons)
      have "c \<noteq> 0x2E \<and> c \<noteq> 0x2F" using False by (auto simp: arity_def two_byte_commands_def)
      with False "1.prems" have "partial (oled_command a (oled_command c s)) = [] \<and>
          addressing (oled_command a (oled_command c s)) = addressing s \<and>
          scrolling (oled_command a (oled_command c s)) = scrolling s"
        unfolding step Cons by (simp add: execute_keeps)
      with "1.IH" False "1.prems"(2) show ?thesis by (simp add: Cons cs)
    qed
  qed (use "1.prems" in simp)
qed

lemma fold_arguments:
  "partial s \<noteq> [] \<Longrightarrow> bs \<noteq> [] \<Longrightarrow> length (partial s) + length bs = Suc (arity (hd (partial s))) \<Longrightarrow>
    fold oled_command bs s = oled_execute (partial s @ bs) (s\<lparr>partial := []\<rparr>)"
proof (induction bs arbitrary: s)
  case (Cons b bs)
  show ?case
  proof (cases "bs = []")
    case True
    then show ?thesis using Cons.prems by (simp add: oled_command_def Let_def)
  next
    case False
    then have "oled_command b s = s\<lparr>partial := partial s @ [b]\<rparr>"
      using Cons.prems by (cases bs) (simp_all add: oled_command_def Let_def)
    then show ?thesis using Cons.IH [of "s\<lparr>partial := partial s @ [b]\<rparr>"] Cons.prems False by simp
  qed
qed simp

lemma arity_le: "arity b \<le> 6" and arity_single: "arity 0x2E = 0" "arity 0x2F = 0" and arity_mode: "arity 0x20 = 1"
  by (auto simp: arity_def two_byte_commands_def)

lemma init_keeps_mode: "n \<le> 6 \<Longrightarrow> keeps_mode (drop n init_commands)"
proof -
  have "list_all (\<lambda>n. keeps_mode (drop n init_commands)) [0..<7]" by code_simp
  then show "n \<le> 6 \<Longrightarrow> keeps_mode (drop n init_commands)" by (auto simp: list_all_iff)
qed

lemma init_settles:
  assumes "at_boot s"
  shows "settled (fold oled_command init_commands s)"
proof (cases "partial s = []")
  case True
  with assms keeps_mode_fold [of s init_commands] init_keeps_mode [of 0] show ?thesis
    by (simp add: at_boot_def settled_def)
next
  case False
  define c n where "c = hd (partial s)" and "n = Suc (arity c) - length (partial s)"
  have "0 < length (partial s)" "length (partial s) \<le> arity c"
    using assms False by (simp_all add: at_boot_def c_def)
  then have n: "0 < n" "n \<le> arity c" "n \<le> 6" "length (partial s) + n = Suc (arity c)"
    using arity_le [of c] unfolding n_def by linarith+
  let ?args = "take n init_commands" and ?done = "partial s @ take n init_commands"
  have len: "length ?args = n" using n(3) by (simp add: init_commands_def)
  define t where "t = oled_execute ?done (s\<lparr>partial := []\<rparr>)"
  have "fold oled_command ?args s = t"
    unfolding t_def using False len n c_def by (intro fold_arguments) auto
  then have split: "fold oled_command init_commands s = fold oled_command (drop n init_commands) t"
    by (metis append_take_drop_id fold_append comp_apply)
  have hd: "hd ?done = c" using False by (simp add: c_def)
  have "arity c \<noteq> 0" using n(1,2) by simp
  then have c: "c \<noteq> 0x2E" "c \<noteq> 0x2F" using arity_single by auto
  have t: "settled t"
  proof (cases "c = 0x20")
    case True
    then have "n = 1" "length (partial s) = 1" using n arity_mode by auto
    then have "partial s = [0x20]" using True False by (cases "partial s") (auto simp: c_def)
    with \<open>n = 1\<close> have "?done = [0x20, 0xAE]" by (simp add: init_commands_def)
    with assms show ?thesis by (simp add: t_def oled_execute_def settled_def at_boot_def)
  next
    case False
    with assms c hd execute_keeps [of ?done "s\<lparr>partial := []\<rparr>"] show ?thesis
      by (simp add: t_def settled_def at_boot_def)
  qed
  with keeps_mode_fold [of t "drop n init_commands"] init_keeps_mode [OF n(3)] show ?thesis
    by (simp add: split settled_def)
qed

text \<open>A controller that was left in another addressing mode, or scrolling, stays in it.\<close>

lemma init_leaves_mode:
  "partial s = [] \<Longrightarrow> addressing (fold oled_command init_commands s) = addressing s \<and>
    scrolling (fold oled_command init_commands s) = scrolling s"
  using keeps_mode_fold [of s init_commands] init_keeps_mode [of 0] by simp

lemma draws_clear:
  assumes "ssd_fd d = 3" and "settled s"
  shows "panel.draws (ssd1306_clear_display bus_os) s d (cleared s)"
proof -
  let ?row = "\<lambda>j. do {
     ssd1306_set_position bus_os 0 (of_nat j);
     for_each [0..<16] (\<lambda>i. ssd1306_putc bus_os CHR '' '') }"
  have blanks: "for_each [0..<16] (\<lambda>i. ssd1306_putc bus_os CHR '' '') = ssd1306_puts bus_os (replicate 16 CHR '' '')"
    unfolding ssd1306_puts_def using for_each_const [of "[0..<16]" "ssd1306_putc bus_os CHR '' ''" "CHR '' ''"]
    by (simp add: eval_nat_numeral)
  have row: "panel.draws (?row j) t d (blank_row j t)" if "j < 8" "settled t" for j t
    unfolding blanks blank_row_def using that assms(1)
      panel.draws_text [where w = t and s = t and d = d and column = 0 and row = "of_nat j" and str = "replicate 16 CHR '' ''"]
    by (simp add: word_less_nat_alt unat_of_nat)
  have rows: "panel.draws (for_each [0..<8] ?row) t d (fold blank_row [0..<8] t)" if "settled t" for t
    using panel.draws_for_each_kept [where xs = "[0..<8]" and P = "\<lambda>t. settled t" and body = ?row and d = d and step = blank_row and w = t] row that by simp
  have home: "panel.draws (ssd1306_set_position bus_os 0 0) t d (t\<lparr>page := 0, col := 0\<rparr>)" if "settled t" for t
    using panel.draws_set_position [where w = t and d = d and column = 0 and row = 0] that assms(1) by simp
  have power: "panel.draws (send_command bus_os 0xae) t d t" "panel.draws (send_command bus_os 0xaf) t d t"
    if "settled t" for t
    using panel.draws_command [where w = t and d = d] that assms(1) power_commands by metis+
  show ?thesis
    unfolding ssd1306_clear_display_def cleared_def
    by (rule panel.draws_bind [OF power(1)], use assms(2) in simp,
        rule panel.draws_bind [OF rows], use assms(2) in simp,
        rule panel.draws_bind [OF power(2)], use assms(2) in simp, use home assms(2) in simp)
qed

text \<open>The whole initialisation clears the display.\<close>

lemma run_init:
  assumes "at_boot s"
  shows "\<exists>t. run_state (ssd1306_init bus_os) (s, d) = (0, (t, d\<lparr>ssd_fd := 3\<rparr>)) \<and> settled t \<and> (\<forall>r<8. row_shows t r [])"
proof -
  let ?d = "d\<lparr>ssd_fd := 3\<rparr>" and ?s = "fold oled_command init_commands s"
  have "panel.draws (for_each init_commands (send_command bus_os)) s ?d ?s"
    by (rule panel.draws_for_each) (auto intro: panel.draws_command)
  then have "run_state (for_each init_commands (send_command bus_os)) (s, ?d) = ((), (?s, ?d))"
    by (auto simp: panel.draws_def)
  moreover have "run_state (ssd1306_clear_display bus_os) (?s, ?d) = ((), (cleared ?s, ?d))"
    using draws_clear [of ?d ?s] init_settles [OF assms] by (auto simp: panel.draws_def)
  ultimately have "run_state (ssd1306_init bus_os) (s, d) = (0, (cleared ?s, ?d))"
    by (simp add: ssd1306_init_def bus_os_def)
  then show ?thesis using init_settles [OF assms] cleared_rows by auto
qed

section \<open>Screens\<close>

text \<open>A screen is printed row by row.\<close>

definition print_row :: "('w, call) os \<Rightarrow> nat \<times> string \<Rightarrow> ('w, daemon, unit) prog" where
  "print_row os = (\<lambda>(r, l). do { ssd1306_set_position os 0 (of_nat r); ssd1306_puts os l })"

definition screen_text :: "string list \<Rightarrow> bool" where
  "screen_text ls \<longleftrightarrow> length ls \<le> 8 \<and> (\<forall>l \<in> set ls. length l \<le> 16 \<and> NUL \<notin> set l)"

definition printed_rows :: "(nat \<times> string) list \<Rightarrow> oled \<Rightarrow> oled" where
  "printed_rows = fold (\<lambda>(r, l). text_at r 0 l)"

lemma draws_rows:
  assumes "ssd_fd d = 3" and "settled s" and "screen_text ls"
  shows "panel.draws (for_each (enumerate 0 ls) (print_row bus_os)) s d (printed_rows (enumerate 0 ls) s)"
proof -
  have row: "length (snd rl) \<le> 16" "NUL \<notin> set (snd rl)" "fst rl < 8" if "rl \<in> set (enumerate 0 ls)" for rl
    using assms(3) that by (cases rl; auto simp: screen_text_def in_set_enumerate_eq)+
  have "panel.draws (print_row bus_os (r, l)) t d (text_at r 0 l t)" if "(r, l) \<in> set (enumerate 0 ls)" "settled t" for r l t
    using panel.draws_text [where d = d and column = 0 and row = "of_nat r" and str = l and w = t and s = t]
      row [OF that(1)] that(2) assms(1)
    by (simp add: print_row_def word_less_nat_alt unat_of_nat)
  then show ?thesis
    unfolding printed_rows_def using assms(2) row
    by (intro panel.draws_for_each_kept [where P = "\<lambda>t. settled t"]) auto
qed

lemma settled_printed_rows [simp]: "settled (printed_rows rls s) = settled s"
proof (induction rls arbitrary: s)
  case (Cons rl rls)
  then show ?case by (cases rl) (simp add: printed_rows_def)
qed (simp add: printed_rows_def)

lemma rows_printed:
  assumes "distinct (map fst rls)" and "\<forall>rl \<in> set rls. length (snd rl) \<le> 16" and "\<forall>r<8. row_shows s r []" and "r < 8"
    and "settled s"
  shows "row_shows (printed_rows rls s) r (case map_of rls r of None \<Rightarrow> [] | Some l \<Rightarrow> l)"
  using assms(1,2)
proof (induction rls rule: rev_induct)
  case Nil
  then show ?case using assms(3,4) by (simp add: printed_rows_def)
next
  case (snoc rl rls)
  obtain q l where rl: "rl = (q, l)" by (cases rl)
  have before: "row_shows (printed_rows rls s) r (case map_of rls r of None \<Rightarrow> [] | Some l \<Rightarrow> l)" using snoc by simp
  have step: "printed_rows (rls @ [(q, l)]) s = text_at q 0 l (printed_rows rls s)" by (simp add: printed_rows_def)
  show ?case
  proof (cases "r = q")
    case True
    then have "map_of rls r = None" using snoc.prems(1) by (auto simp: rl map_of_eq_None_iff)
    with before True snoc.prems(2) assms(5) show ?thesis by (simp add: step rl row_text map_add_def)
  next
    case False
    with before snoc.prems(2) assms(5) show ?thesis
      by (cases "map_of rls r") (simp_all add: step rl row_other map_add_def)
  qed
qed

text \<open>The display memory holds the rows \<open>ls\<close> and nothing else, and stands still.\<close>

definition shows_screen :: "oled \<Rightarrow> string list \<Rightarrow> bool" where
  "shows_screen s ls \<longleftrightarrow> \<not> scrolling s \<and> (\<forall>r<8. row_shows s r (if r < length ls then ls ! r else []))"

lemma run_screen:
  assumes "ssd_fd d = 3" and "settled s" and "\<forall>r<8. row_shows s r []" and "screen_text ls"
  shows "\<exists>t. run_state (for_each (enumerate 0 ls) (print_row bus_os)) (s, d) = ((), (t, d)) \<and> shows_screen t ls"
proof -
  let ?t = "printed_rows (enumerate 0 ls) s"
  have short: "\<forall>rl \<in> set (enumerate 0 ls). length (snd rl) \<le> 16"
    using assms(4) by (auto simp: screen_text_def in_set_enumerate_eq)
  have look: "map_of (enumerate 0 ls) r = (if r < length ls then Some (ls ! r) else None)" for r
    by (auto simp: map_of_eq_None_iff map_of_eq_Some_iff in_set_enumerate_eq)
  have "row_shows ?t r (if r < length ls then ls ! r else [])" if "r < 8" for r
    using rows_printed [OF _ short assms(3) that assms(2)] by (simp add: look split: if_splits)
  moreover have "settled ?t" using assms(2) by simp
  ultimately have "shows_screen ?t ls" by (simp add: shows_screen_def settled_def)
  with draws_rows [OF assms(1,2,4)] show ?thesis by (auto simp: panel.draws_def)
qed

definition start_screen :: "string list" where
  "start_screen = [''CSEL1a - SP.07'', ''  Demo - SW'', ''--------------'', ''Mode: Unknown'', ''--------------'',
     ''Temp: xx'' @ [CHR 0x27] @ ''C'', ''Freq: xxHz'']"

definition demo_screen :: "string list" where
  "demo_screen = [''CSEL1a - SP.07'', ''  Demo - SW'', ''--------------'', ''Temp: 35'' @ [CHR 0x27] @ ''C'',
     ''Freq: 1Hz'', ''Duty: 50%'']"

lemma screen_texts: "screen_text start_screen" "screen_text demo_screen"
  by (simp_all add: screen_text_def start_screen_def demo_screen_def)

lemma screen_programs:
  "screen_init os = do {
     _ \<leftarrow> ssd1306_init os; ssd1306_clear_display os; for_each (enumerate 0 start_screen) (print_row os) }"
  "oled_main os = do { _ \<leftarrow> ssd1306_init os; for_each (enumerate 0 demo_screen) (print_row os); return 0 }"
  by (simp_all add: screen_init_def oled_main_def start_screen_def demo_screen_def print_row_def)

text \<open>C14. From the reset to the first screen.  The controller is in the modes of its reset (page addressing, no
  scrolling); its memory and its cursor may hold anything, and it may even be inside a command that was
  begun.  After the daemon's \<open>screen_init\<close> the memory holds the start screen, and after the
  demonstration program its screen: these rows from the left edge, and blanks everywhere else.\<close>

theorem display_at_boot:
  assumes "addressing s = 2" and "\<not> scrolling s"
    and "partial s = [] \<or> length (partial s) \<le> arity (hd (partial s))"
  shows "(\<exists>t. run_state (screen_init bus_os) (s, d) = ((), (t, d\<lparr>ssd_fd := 3\<rparr>)) \<and> shows_screen t start_screen) \<and>
   (\<exists>t. run_state (oled_main bus_os) (s, d) = (0, (t, d\<lparr>ssd_fd := 3\<rparr>)) \<and> shows_screen t demo_screen)"
proof -
  let ?d = "d\<lparr>ssd_fd := 3\<rparr>"
  obtain t where init: "run_state (ssd1306_init bus_os) (s, d) = (0, (t, ?d))"
    and t: "settled t" "\<forall>r<8. row_shows t r []" using run_init [of s d] assms by (auto simp: at_boot_def)
  have "run_state (ssd1306_clear_display bus_os) (t, ?d) = ((), (cleared t, ?d))"
    using draws_clear [of ?d t] t(1) by (auto simp: panel.draws_def)
  with init run_screen [of ?d "cleared t" start_screen] run_screen [of ?d t demo_screen] t cleared_rows screen_texts
  show ?thesis by (auto simp: screen_programs)
qed

theorem display_at_boot_witness:
  "\<exists>t. run_state (screen_init bus_os) (reset_oled\<lparr>ram := (\<lambda>_ _. 0xFF), partial := [0x26, 0x00]\<rparr>, initial_daemon) =
      ((), (t, initial_daemon\<lparr>ssd_fd := 3\<rparr>)) \<and> shows_screen t start_screen"
  using display_at_boot [of "reset_oled\<lparr>ram := (\<lambda>_ _. 0xFF), partial := [0x26, 0x00]\<rparr>" initial_daemon]
  by (simp add: reset_oled_def arity_def two_byte_commands_def)

end
